(* ===== verification/Prelude.thy ===== *)
theory Prelude
  imports Main "HOL-Library.Word"
begin

text \<open>
  Shared vocabulary of the development: what a Rust computation can do beyond returning a
  value (\<open>run\<close>: panic or return), \<open>Result\<close>, checked machine arithmetic on \<open>u32\<close>,
  \<open>NonZeroU32\<close> as a type of its own, the vector operations that can panic, and the generic
  list lemmas the components use. The named collections \<open>run_simps\<close> and
  \<open>wf_simps\<close> carry the component proofs.
\<close>

named_theorems run_simps \<open>equations of the panic monad and of the vector operations\<close>

named_theorems wf_simps \<open>unfolding rules of the well-formedness predicates\<close>

section \<open>Panics and results\<close>

text \<open>Every way the sources stop a task: \<open>expect\<close>/\<open>unwrap\<close>, \<open>assert!\<close>,
  overflow checks, \<open>unreachable!\<close>, \<open>todo!\<close>, an explicit \<open>panic!\<close>, and an index that is
  out of range.\<close>

datatype panic =
    ExpectFailed string
  | AssertFailed
  | ArithOverflow
  | Unreachable
  | TodoReached
  | ExplicitPanic string
  | OutOfRange

datatype 'a run = Panic panic | Ret 'a

datatype ('a, 'e) result = Ok 'a | Err 'e

primrec bind_run :: "'a run \<Rightarrow> ('a \<Rightarrow> 'b run) \<Rightarrow> 'b run" where
  "bind_run (Panic p) f = Panic p"
| "bind_run (Ret x) f = f x"

definition expect :: "string \<Rightarrow> 'a option \<Rightarrow> 'a run" where
  "expect msg v = (case v of None \<Rightarrow> Panic (ExpectFailed msg) | Some x \<Rightarrow> Ret x)"

definition assert_run :: "bool \<Rightarrow> unit run" where
  "assert_run b = (if b then Ret () else Panic AssertFailed)"

definition returns :: "'a run \<Rightarrow> bool" where
  "returns r \<longleftrightarrow> (case r of Panic _ \<Rightarrow> False | Ret _ \<Rightarrow> True)"

lemma returns_simps [simp]: "returns (Ret x)" "\<not> returns (Panic p)"
  by (simp_all add: returns_def)

lemma bind_run_Ret_iff [run_simps]:
  "bind_run m f = Ret y \<longleftrightarrow> (\<exists>x. m = Ret x \<and> f x = Ret y)"
  by (cases m) auto

lemma expect_simps [simp]: "expect msg None = Panic (ExpectFailed msg)" "expect msg (Some x) = Ret x"
  by (simp_all add: expect_def)

lemma assert_run_simps [simp]: "assert_run True = Ret ()" "assert_run False = Panic AssertFailed"
  by (simp_all add: assert_run_def)

lemma bind_run_assoc: "bind_run (bind_run m f) g = bind_run m (\<lambda>x. bind_run (f x) g)"
  by (cases m) auto

lemma bind_run_cong [fundef_cong]:
  "m = m' \<Longrightarrow> (\<And>x. m' = Ret x \<Longrightarrow> f x = f' x) \<Longrightarrow> bind_run m f = bind_run m' f'"
  by (cases m') auto

section \<open>Machine integers\<close>

type_synonym u32 = "32 word"

type_synonym u64 = "64 word"

type_synonym i64 = "64 word"

type_synonym i32 = "32 word"

text \<open>The \<open>uuid\<close> crate's \<open>Uuid\<close> is 128 bits of data.\<close>

type_synonym Uuid = "128 word"

definition u32_MAX :: u32 where
  "u32_MAX = 4294967295"

text \<open>
  The first argument is the build profile's \<open>overflow-checks\<close>: on in \<open>cargo build\<close> (the
  operation panics), off in \<open>cargo build --release\<close> (it wraps around).
\<close>

definition add_u32 :: "bool \<Rightarrow> u32 \<Rightarrow> u32 \<Rightarrow> u32 run" where
  "add_u32 oc a b =
     (if oc \<and> unat a + unat b \<ge> 2 ^ 32 then Panic ArithOverflow else Ret (a + b))"

definition sub_u32 :: "bool \<Rightarrow> u32 \<Rightarrow> u32 \<Rightarrow> u32 run" where
  "sub_u32 oc a b = (if oc \<and> a < b then Panic ArithOverflow else Ret (a - b))"

lemma unat_u32_MAX: "unat u32_MAX = 2 ^ 32 - 1"
  by (simp add: u32_MAX_def)

lemma unat_less_u32_MAX: "unat (w :: u32) < 2 ^ 32 - 1 \<longleftrightarrow> w \<noteq> u32_MAX"
proof -
  have "unat w < 2 ^ 32" using unsigned_less [of w] by simp
  moreover have "w = u32_MAX \<longleftrightarrow> unat w = 2 ^ 32 - 1"
    by (metis unat_u32_MAX word_unat_eq_iff)
  ultimately show ?thesis by linarith
qed

lemma unat_Suc_u32: "(w :: u32) \<noteq> u32_MAX \<Longrightarrow> unat (w + 1) = Suc (unat w)"
  using unat_less_u32_MAX [of w] by (simp add: unat_word_ariths)

lemma less_Suc_u32: "(w :: u32) \<noteq> u32_MAX \<Longrightarrow> w < w + 1"
  by (simp add: word_less_nat_alt unat_Suc_u32)

lemma add_u32_one: "w \<noteq> u32_MAX \<Longrightarrow> add_u32 oc w 1 = Ret (w + 1)"
  using unat_less_u32_MAX [of w] by (simp add: add_u32_def)

lemma add_u32_one_max: "add_u32 True u32_MAX 1 = Panic ArithOverflow" "add_u32 False u32_MAX 1 = Ret 0"
  by (simp_all add: add_u32_def unat_u32_MAX) (simp add: u32_MAX_def)

lemma sub_u32_no_underflow: "b \<le> a \<Longrightarrow> sub_u32 oc a b = Ret (a - b)"
  by (auto simp: sub_u32_def)

lemma unat_sub_u32: "(b :: u32) \<le> a \<Longrightarrow> unat (a - b) = unat a - unat b"
  by (simp add: unat_sub)

section \<open>NonZeroU32\<close>

text \<open>\<open>std::num::NonZeroU32\<close>: a \<open>u32\<close> that is not zero, by construction. \<open>nz_new\<close> is the
  fallible constructor \<open>NonZeroU32::new\<close>, \<open>nz_get\<close> is \<open>get\<close>. \<open>nz\<close> writes a constant.\<close>

typedef NonZeroU32 = "{w :: u32. w \<noteq> 0}"
  morphisms nz_get Abs_nz
  by (rule exI [of _ 1]) simp

lemma nz_abstype [code abstype]: "Abs_nz (nz_get x) = x"
  by (rule nz_get_inverse)

definition nz :: "u32 \<Rightarrow> NonZeroU32" where
  "nz w = Abs_nz (if w = 0 then 1 else w)"

lemma nz_get_nz [simp, code abstract]: "nz_get (nz w) = (if w = 0 then 1 else w)"
  by (simp add: nz_def Abs_nz_inverse)

definition nz_new :: "u32 \<Rightarrow> NonZeroU32 option" where
  "nz_new w = (if w = 0 then None else Some (nz w))"

instantiation NonZeroU32 :: linorder
begin

definition less_eq_NonZeroU32 :: "NonZeroU32 \<Rightarrow> NonZeroU32 \<Rightarrow> bool" where
  "less_eq_NonZeroU32 x y \<longleftrightarrow> nz_get x \<le> nz_get y"

definition less_NonZeroU32 :: "NonZeroU32 \<Rightarrow> NonZeroU32 \<Rightarrow> bool" where
  "less_NonZeroU32 x y \<longleftrightarrow> nz_get x < nz_get y"

instance
  by standard (auto simp: less_eq_NonZeroU32_def less_NonZeroU32_def nz_get_inject less_le)

end

instantiation NonZeroU32 :: equal
begin

definition equal_NonZeroU32 :: "NonZeroU32 \<Rightarrow> NonZeroU32 \<Rightarrow> bool" where
  "equal_NonZeroU32 x y \<longleftrightarrow> nz_get x = nz_get y"

instance
  by standard (simp add: equal_NonZeroU32_def nz_get_inject)

end

lemma nz_get_neq_0 [simp]: "nz_get x \<noteq> 0" "0 < nz_get x"
  using nz_get [of x] by (simp_all add: word_neq_0_conv)

lemma unat_nz_get_pos [simp]: "0 < unat (nz_get x)" "unat (nz_get x) \<noteq> 0"
  using nz_get_neq_0 [of x] by (metis unat_eq_zero gr0I)+

lemma nz_get_eq_iff [simp]: "nz_get x = nz_get y \<longleftrightarrow> x = y"
  by (rule nz_get_inject)

lemma nz_nz_get [simp]: "nz (nz_get x) = x"
  by (simp add: nz_def nz_get_inverse)

lemma nz_new_simps [simp]: "nz_new 0 = None" "w \<noteq> 0 \<Longrightarrow> nz_new w = Some (nz w)"
  by (simp_all add: nz_new_def)

lemma nz_new_eq_None_iff [simp]: "nz_new w = None \<longleftrightarrow> w = 0"
  by (simp add: nz_new_def)

lemma nz_new_eq_Some_iff: "nz_new w = Some x \<longleftrightarrow> w = nz_get x"
  by (auto simp: nz_new_def)

lemma nz_eq_iff [simp]: "nz v = nz w \<longleftrightarrow> (if v = 0 then 1 else v) = (if w = 0 then 1 else w)"
  by (simp flip: nz_get_eq_iff)

lemma nz_less_iff: "x < y \<longleftrightarrow> nz_get x < nz_get y" "x \<le> y \<longleftrightarrow> nz_get x \<le> nz_get y"
  by (simp_all add: less_NonZeroU32_def less_eq_NonZeroU32_def)

lemma nz_order_simps [simp]:
  "nz v < nz w \<longleftrightarrow> (if v = 0 then 1 else v) < (if w = 0 then 1 else w)"
  "nz v \<le> nz w \<longleftrightarrow> (if v = 0 then 1 else v) \<le> (if w = 0 then 1 else w)"
  by (simp_all add: nz_less_iff)

section \<open>Vectors\<close>

text \<open>
  A vector is the list of its elements. \<open>insert\<close> panics beyond the end and \<open>remove\<close>
  at or beyond it; \<open>shrink_to_fit\<close> moves the storage and leaves the contents alone.
\<close>

definition vec_insert :: "nat \<Rightarrow> 'a \<Rightarrow> 'a list \<Rightarrow> 'a list run" where
  "vec_insert i x xs =
     (if i \<le> length xs then Ret (take i xs @ x # drop i xs) else Panic OutOfRange)"

definition vec_remove :: "nat \<Rightarrow> 'a list \<Rightarrow> ('a \<times> 'a list) run" where
  "vec_remove i xs =
     (if i < length xs then Ret (xs ! i, take i xs @ drop (Suc i) xs) else Panic OutOfRange)"

definition shrink_to_fit :: "'a list \<Rightarrow> 'a list" where
  "shrink_to_fit xs = xs"

text \<open>\<open>get_mut(i)\<close> on a vector: the position is the reference.\<close>

definition vec_get :: "nat \<Rightarrow> 'a list \<Rightarrow> 'a option" where
  "vec_get i xs = (if i < length xs then Some (xs ! i) else None)"

text \<open>\<open>Iterator::position\<close> over an iterator whose \<open>next\<close> may panic.\<close>

fun position_run :: "('a \<Rightarrow> bool) \<Rightarrow> 'a run list \<Rightarrow> nat option run" where
  "position_run P [] = Ret None"
| "position_run P (x # xs) =
     bind_run x (\<lambda>v. if P v then Ret (Some 0)
                     else bind_run (position_run P xs) (\<lambda>i. Ret (map_option Suc i)))"

text \<open>\<open>Iterator::find\<close> over slots, as the position of the slot found.\<close>

fun find_index :: "('a \<Rightarrow> bool) \<Rightarrow> 'a list \<Rightarrow> nat option" where
  "find_index P [] = None"
| "find_index P (x # xs) = (if P x then Some 0 else map_option Suc (find_index P xs))"

declare shrink_to_fit_def [simp]

lemma position_run_Ret: "position_run P (map Ret xs) = Ret (find_index P xs)"
  by (induction xs) auto

lemma find_index_None_iff: "find_index P xs = None \<longleftrightarrow> (\<forall>x\<in>set xs. \<not> P x)"
  by (induction xs) auto

lemma find_index_SomeD:
  "find_index P xs = Some i \<Longrightarrow> i < length xs \<and> P (xs ! i) \<and> (\<forall>j<i. \<not> P (xs ! j))"
proof (induction xs arbitrary: i)
  case (Cons x xs)
  then show ?case by (cases i) (auto split: if_splits simp: less_Suc_eq_0_disj)
qed simp

lemma find_index_eq_SomeI:
  "i < length xs \<Longrightarrow> P (xs ! i) \<Longrightarrow> (\<And>j. j < i \<Longrightarrow> \<not> P (xs ! j)) \<Longrightarrow> find_index P xs = Some i"
proof (induction xs arbitrary: i)
  case (Cons x xs)
  show ?case
  proof (cases i)
    case 0
    with Cons.prems show ?thesis by simp
  next
    case (Suc k)
    have "\<not> P x" using Cons.prems(3) [of 0] Suc by simp
    moreover have "find_index P xs = Some k"
      by (rule Cons.IH) (use Cons.prems Suc in force)+
    ultimately show ?thesis using Suc by simp
  qed
qed simp

lemma find_index_map: "find_index P (map f xs) = find_index (P \<circ> f) xs"
  by (induction xs) auto

section \<open>Lists\<close>

lemma sorted_wrt_insert_at:
  assumes "sorted_wrt (<) (map f xs)" and "i \<le> length xs"
    and "\<forall>j<i. f (xs ! j) < f x" and "\<forall>j. i \<le> j \<and> j < length xs \<longrightarrow> f x < f (xs ! j)"
  shows "sorted_wrt (<) (map (f :: 'a \<Rightarrow> 'b :: linorder) (take i xs @ x # drop i xs))"
proof -
  have split: "sorted_wrt (<) (map f (take i xs) @ map f (drop i xs))"
    using assms(1) by (simp flip: map_append)
  have lo: "\<forall>y\<in>set (take i xs). f y < f x"
    using assms(2,3) by (auto simp: in_set_conv_nth)
  have hi: "\<forall>y\<in>set (drop i xs). f x < f y"
    using assms(2,4) by (auto simp: in_set_conv_nth)
  from split lo hi show ?thesis
    by (auto simp: sorted_wrt_append)
qed

lemma sorted_wrt_delete_at:
  assumes "sorted_wrt P (map f xs)"
  shows "sorted_wrt P (map f (take i xs @ drop (Suc i) xs))"
proof -
  have "sorted_wrt P (map f (take i xs) @ map f (drop i xs))"
    using assms by (simp flip: map_append)
  moreover have "set (drop (Suc i) xs) \<subseteq> set (drop i xs)"
    by (rule set_drop_subset_set_drop) simp
  moreover have "sorted_wrt P (map f (drop (Suc i) xs))"
    using assms by (metis drop_map sorted_wrt_drop)
  ultimately show ?thesis
    by (auto simp: sorted_wrt_append)
qed

lemma delete_at_eq_filter:
  assumes "i < length xs" and "\<And>j. j < length xs \<Longrightarrow> P (xs ! j) \<longleftrightarrow> j = i"
  shows "take i xs @ drop (Suc i) xs = filter (\<lambda>x. \<not> P x) xs"
proof -
  have "filter (\<lambda>x. \<not> P x) (take i xs) = take i xs"
    "filter (\<lambda>x. \<not> P x) (drop (Suc i) xs) = drop (Suc i) xs"
    using assms by (auto simp: filter_id_conv in_set_conv_nth)
  then have "filter (\<lambda>x. \<not> P x) (take i xs @ xs ! i # drop (Suc i) xs) = take i xs @ drop (Suc i) xs"
    using assms by simp
  then show ?thesis using id_take_nth_drop [OF assms(1)] by simp
qed

lemma update_eq_map:
  assumes "i < length xs" and "\<And>j. j < length xs \<Longrightarrow> P (xs ! j) \<longleftrightarrow> j = i"
  shows "xs[i := y] = map (\<lambda>x. if P x then y else x) xs"
  using assms by (auto simp: list_eq_iff_nth_eq nth_list_update)

lemma find_Some_mem: "find P xs = Some x \<Longrightarrow> x \<in> set xs \<and> P x"
  by (induction xs) (auto split: if_splits)

lemma find_distinct_key: "distinct (map f xs) \<Longrightarrow> x \<in> set xs \<Longrightarrow> find (\<lambda>z. f z = f x) xs = Some x"
  by (induction xs) (auto simp: image_iff)

lemma filter_key_notin: "k \<notin> f ` set xs \<Longrightarrow> filter (\<lambda>z. f z \<noteq> k) xs = xs"
  by (auto simp: filter_id_conv)

lemma map_key_notin: "k \<notin> f ` set xs \<Longrightarrow> map (\<lambda>z. if f z = k then y else z) xs = xs"
  by (auto intro!: map_idI)

lemma distinct_map_sorted_wrt: "distinct (map f xs) \<longleftrightarrow> sorted_wrt (\<lambda>x y. f x \<noteq> f y) xs"
  by (induction xs) auto

lemma sum_list_update_int: "j < length xs \<Longrightarrow> sum_list (xs[j := x]) = sum_list xs + x - (xs ! j :: int)"
proof (induction xs arbitrary: j)
  case (Cons y ys)
  then show ?case by (cases j) simp_all
qed simp

section \<open>Runs of a system\<close>

text \<open>
  A system whose invariant may depend on the number of steps taken and holds up to a bound: what each step keeps, every run
  keeps.
\<close>

locale counted_system =
  fixes step :: "'s \<Rightarrow> 's \<Rightarrow> bool" and inv :: "nat \<Rightarrow> 's \<Rightarrow> bool" and bound :: nat
  assumes inv_step: "inv k s \<Longrightarrow> k < bound \<Longrightarrow> step s s' \<Longrightarrow> inv (Suc k) s'"
begin

lemma inv_run: "(step ^^ n) s s' \<Longrightarrow> inv k s \<Longrightarrow> k + n \<le> bound \<Longrightarrow> inv (k + n) s'"
proof (induction n arbitrary: s')
  case (Suc n)
  then obtain t where "(step ^^ n) s t" "step t s'" by auto
  with Suc inv_step [of "k + n" t s'] show ?case by simp
qed simp

end

text \<open>A system driven by commands, none of which can panic while the invariant holds.\<close>

locale total_system =
  fixes exec :: "'c \<Rightarrow> 's \<Rightarrow> ('s \<times> 'o) run" and inv :: "nat \<Rightarrow> 's \<Rightarrow> bool" and bound :: nat
  assumes exec_ok: "inv k s \<Longrightarrow> k < bound \<Longrightarrow> \<exists>s' x. exec c s = Ret (s', x) \<and> inv (Suc k) s'"
begin

lemma exec_returns: "inv k s \<Longrightarrow> k < bound \<Longrightarrow> returns (exec c s)"
  using exec_ok [of k s c] by auto

end

sublocale total_system \<subseteq> counted_system "\<lambda>s s'. \<exists>c x. exec c s = Ret (s', x)" inv bound
proof unfold_locales
  fix k s s'
  assume "inv k s" "k < bound" "\<exists>c x. exec c s = Ret (s', x)"
  then obtain c x where "exec c s = Ret (s', x)" by blast
  with exec_ok [OF \<open>inv k s\<close> \<open>k < bound\<close>, of c] show "inv (Suc k) s'" by auto
qed

text \<open>
  Tasks that take turns on a shared state. Each task keeps an assertion of its own that the others cannot break, because a step only
  moves the state forward, and accounts for its share of every amount; then all that the pool holds is accounted for, whichever task runs.
\<close>

locale task_pool =
  fixes step :: "'s \<Rightarrow> 't \<Rightarrow> 's \<Rightarrow> 't \<Rightarrow> bool" and ok :: "'s \<Rightarrow> bool" and local_ok :: "'s \<Rightarrow> 't \<Rightarrow> bool"
    and later :: "'s \<Rightarrow> 's \<Rightarrow> bool" and amount :: "'s \<Rightarrow> 'i \<Rightarrow> int" and share :: "'s \<Rightarrow> 't \<Rightarrow> 'i \<Rightarrow> int"
  assumes step_ok: "ok s \<Longrightarrow> local_ok s t \<Longrightarrow> step s t s' t' \<Longrightarrow> ok s' \<and> local_ok s' t' \<and> later s s'"
    and stable: "local_ok s t \<Longrightarrow> later s s' \<Longrightarrow> local_ok s' t"
    and share_stable: "later s s' \<Longrightarrow> share s' t i = share s t i"
    and step_moves: "ok s \<Longrightarrow> local_ok s t \<Longrightarrow> step s t s' t' \<Longrightarrow> amount s' i - share s' t' i = amount s i - share s t i"
begin

lemma pool_step:
  assumes "ok s" and "\<forall>t\<in>set ts. local_ok s t" and "j < length ts" and "step s (ts ! j) s' t'"
  shows "ok s'" and "\<forall>t\<in>set (ts[j := t']). local_ok s' t" and "later s s'"
    and "amount s' i - (\<Sum>t\<leftarrow>ts[j := t']. share s' t i) = amount s i - (\<Sum>t\<leftarrow>ts. share s t i)"
proof -
  have j: "ok s" "local_ok s (ts ! j)" using assms(1-3) by auto
  note new = step_ok [OF j assms(4)]
  show "ok s'" "later s s'" using new by simp_all
  have "local_ok s' t" if "t \<in> set ts" for t using that assms(2) new stable by auto
  with new show "\<forall>t\<in>set (ts[j := t']). local_ok s' t" by (auto dest!: set_update_subset_insert [THEN subsetD])
  have "(\<Sum>t\<leftarrow>ts[j := t']. share s' t i) = (\<Sum>t\<leftarrow>ts[j := t']. share s t i) + share s' t' i - share s t' i"
    using new share_stable [of s s' _ i] by simp
  also have "(\<Sum>t\<leftarrow>ts[j := t']. share s t i) = (\<Sum>t\<leftarrow>ts. share s t i) + share s t' i - share s (ts ! j) i"
    using assms(3) by (simp add: map_update sum_list_update_int)
  finally show "amount s' i - (\<Sum>t\<leftarrow>ts[j := t']. share s' t i) = amount s i - (\<Sum>t\<leftarrow>ts. share s t i)"
    using step_moves [OF j assms(4), of i] new share_stable [of s s' t' i] by simp
qed

end

text \<open>Events one after the other, each of which must be possible.\<close>

primrec exec_list :: "('e \<Rightarrow> 's \<Rightarrow> 's option) \<Rightarrow> 'e list \<Rightarrow> 's \<Rightarrow> 's option" where
  "exec_list exec [] s = Some s"
| "exec_list exec (e # es) s = Option.bind (exec e s) (exec_list exec es)"

lemma exec_list_append: "exec_list exec (es @ fs) s = Option.bind (exec_list exec es s) (exec_list exec fs)"
  by (induction es arbitrary: s) (auto split: Option.bind_splits)

text \<open>
  A system whose every event lowers a rank, and in which some event is possible until it is done: no run is longer than the rank of its
  first state, and a run that cannot go on is done.
\<close>

locale terminating_system =
  fixes exec :: "'e \<Rightarrow> 's \<Rightarrow> 's option" and inv :: "'s \<Rightarrow> bool" and rank :: "'s \<Rightarrow> nat" and final :: "'s \<Rightarrow> bool"
  assumes inv_exec: "inv s \<Longrightarrow> exec e s = Some s' \<Longrightarrow> inv s'"
    and decreases: "inv s \<Longrightarrow> exec e s = Some s' \<Longrightarrow> rank s' < rank s"
    and progress: "inv s \<Longrightarrow> \<not> final s \<Longrightarrow> \<exists>e s'. exec e s = Some s'"
begin

lemma inv_run: "exec_list exec es s = Some s' \<Longrightarrow> inv s \<Longrightarrow> inv s'"
proof (induction es arbitrary: s)
  case (Cons e es)
  then show ?case using inv_exec by (auto split: Option.bind_splits)
qed simp

lemma run_bounded: "exec_list exec es s = Some s' \<Longrightarrow> inv s \<Longrightarrow> length es + rank s' \<le> rank s"
proof (induction es arbitrary: s)
  case (Cons e es)
  then obtain s1 where s1: "exec e s = Some s1" "exec_list exec es s1 = Some s'" by (auto split: Option.bind_splits)
  from Cons.IH [OF s1(2) inv_exec [OF Cons.prems(2) s1(1)]] decreases [OF Cons.prems(2) s1(1)] show ?case by simp
qed simp

lemma stuck_is_final: "inv s \<Longrightarrow> \<forall>e. exec e s = None \<Longrightarrow> final s"
  using progress [of s] by auto

lemma run_finishes: "inv s \<Longrightarrow> \<exists>es s'. exec_list exec es s = Some s' \<and> final s'"
proof (induction "rank s" arbitrary: s rule: less_induct)
  case less
  show ?case
  proof (cases "final s")
    case True
    then show ?thesis by (intro exI [of _ "[]"]) simp
  next
    case False
    with progress less.prems obtain e s1 where s1: "exec e s = Some s1" by blast
    with less.hyps [OF decreases [OF less.prems s1] inv_exec [OF less.prems s1]] obtain es s' where
      "exec_list exec es s1 = Some s'" "final s'" by blast
    with s1 show ?thesis by (intro exI [of _ "e # es"]) simp
  qed
qed

end

end
