(* ===== verification/Slice_Search.thy ===== *)
theory Slice_Search
  imports Prelude
begin

text \<open>
  The binary search of the standard library's slices, which every access of the order book to
  a price level goes through. \<open>bs_loop\<close> is the loop, \<open>binary_search_by_key\<close> the
  call. The locale \<open>ordered_search\<close> is the contract the book relies on (what \<open>Ok\<close> and
  \<open>Err\<close> mean on a strictly ascending slice); the loop is shown to provide it.
\<close>

section \<open>The search loop\<close>

text \<open>
  \<^verbatim>\<open>
  let mut size = self.len(); let mut left = 0; let mut right = size;
  while left < right {
      let mid = left + size / 2;
      match f(&self[mid]).cmp(key) {
          Less => left = mid + 1, Greater => right = mid, Equal => return Ok(mid) }
      size = right - left;
  }
  Err(left)
  \<close>
\<close>

function bs_loop :: "'k::linorder \<Rightarrow> ('a \<Rightarrow> 'k) \<Rightarrow> 'a list \<Rightarrow> nat \<Rightarrow> nat \<Rightarrow> (nat, nat) result" where
  "bs_loop k key xs left right =
     (if left < right then
        let mid = left + (right - left) div 2 in
        if key (xs ! mid) < k then bs_loop k key xs (mid + 1) right
        else if k < key (xs ! mid) then bs_loop k key xs left mid
        else Ok mid
      else Err left)"
  by pat_completeness auto
termination
  by (relation "measure (\<lambda>(k, key, xs, left, right). right - left)") (auto simp: Let_def)

declare bs_loop.simps [simp del]

definition binary_search_by_key :: "'k::linorder \<Rightarrow> ('a \<Rightarrow> 'k) \<Rightarrow> 'a list \<Rightarrow> (nat, nat) result" where
  "binary_search_by_key k key xs = bs_loop k key xs 0 (length xs)"

section \<open>The contract of an ordered search\<close>

locale ordered_search =
  fixes search :: "'k::linorder \<Rightarrow> ('a \<Rightarrow> 'k) \<Rightarrow> 'a list \<Rightarrow> (nat, nat) result"
  assumes search_Ok: "sorted_wrt (<) (map key xs) \<Longrightarrow> search k key xs = Ok i \<Longrightarrow>
      i < length xs \<and> key (xs ! i) = k"
    and search_Err: "sorted_wrt (<) (map key xs) \<Longrightarrow> search k key xs = Err i \<Longrightarrow>
      i \<le> length xs \<and> (\<forall>j<i. key (xs ! j) < k) \<and> (\<forall>j. i \<le> j \<and> j < length xs \<longrightarrow> k < key (xs ! j))"
begin

lemma found_iff:
  assumes "sorted_wrt (<) (map key xs)"
  shows "(\<exists>i. search k key xs = Ok i) \<longleftrightarrow> k \<in> key ` set xs"
proof
  assume "\<exists>i. search k key xs = Ok i"
  then show "k \<in> key ` set xs" using search_Ok [OF assms] by force
next
  assume "k \<in> key ` set xs"
  then obtain j where j: "j < length xs" "key (xs ! j) = k"
    by (auto simp: in_set_conv_nth)
  show "\<exists>i. search k key xs = Ok i"
  proof (cases "search k key xs")
    case (Err i)
    from search_Err [OF assms Err] j show ?thesis
      by (metis less_irrefl not_le)
  qed blast
qed

lemma found_unique:
  assumes "sorted_wrt (<) (map key xs)" and "i < length xs" and "key (xs ! i) = k"
  shows "search k key xs = Ok i"
proof -
  from assms have "k \<in> key ` set xs" by auto
  with found_iff [OF assms(1)] obtain j where j: "search k key xs = Ok j" by blast
  from search_Ok [OF assms(1) j] have j': "j < length xs" "key (xs ! j) = k" by auto
  have "distinct (map key xs)"
    using assms(1) by (simp add: strict_sorted_iff)
  then have "i = j"
    using assms(2,3) j' by (metis distinct_conv_nth length_map nth_map)
  with j show ?thesis by simp
qed

lemma insert_sorted:
  assumes "sorted_wrt (<) (map key xs)" and "search k key xs = Err i" and "key x = k"
  shows "sorted_wrt (<) (map key (take i xs @ x # drop i xs))"
  using search_Err [OF assms(1,2)] assms(1,3) by (intro sorted_wrt_insert_at) auto

lemma not_found_split:
  assumes "sorted_wrt (<) (map key xs)" and "search k key xs = Err i"
  shows "(\<forall>y\<in>set (take i xs). key y < k) \<and> (\<forall>y\<in>set (drop i xs). k < key y)"
  using search_Err [OF assms] by (auto simp: in_set_conv_nth)

end

section \<open>The loop provides the contract\<close>

lemma bs_loop_Ok:
  "right \<le> length xs \<Longrightarrow> bs_loop k key xs left right = Ok i \<Longrightarrow> i < length xs \<and> key (xs ! i) = k"
proof (induction k key xs left right rule: bs_loop.induct)
  case (1 k key xs left right)
  then show ?case
    by (subst (asm) (3) bs_loop.simps) (auto simp: Let_def not_less split: if_splits)
qed

lemma bs_loop_Err:
  assumes "sorted_wrt (<) (map key xs)"
    and "left \<le> right" and "right \<le> length xs"
    and "\<forall>j<left. key (xs ! j) < k" and "\<forall>j. right \<le> j \<and> j < length xs \<longrightarrow> k < key (xs ! j)"
    and "bs_loop k key xs left right = Err i"
  shows "i \<le> length xs \<and> (\<forall>j<i. key (xs ! j) < k) \<and> (\<forall>j. i \<le> j \<and> j < length xs \<longrightarrow> k < key (xs ! j))"
  using assms
proof (induction k key xs left right rule: bs_loop.induct)
  case (1 k key xs left right)
  let ?mid = "left + (right - left) div 2"
  have mono: "key (xs ! a) \<le> key (xs ! b)" if "a \<le> b" "b < length xs" for a b
    using "1.prems"(1) that sorted_nth_mono [of "map key xs" a b] by (simp add: strict_sorted_iff)
  show ?case
  proof (cases "left < right")
    case False
    then have "left = i" using "1.prems"(6) by (simp add: bs_loop.simps [of k key xs left right])
    with False "1.prems" show ?thesis by simp
  next
    case True
    then have mid: "left \<le> ?mid" "?mid < right" by auto
    consider (lt) "key (xs ! ?mid) < k" | (gt) "k < key (xs ! ?mid)" | (eq) "key (xs ! ?mid) = k"
      by (metis linorder_neqE)
    then show ?thesis
    proof cases
      case lt
      have lo: "\<forall>j<?mid + 1. key (xs ! j) < k"
        using lt mono mid "1.prems"(3) by (metis Suc_eq_plus1 less_Suc_eq_le order.strict_trans1 order.strict_trans2)
      have "bs_loop k key xs (?mid + 1) right = Err i"
        using True lt "1.prems"(6) by (simp add: bs_loop.simps [of k key xs left right] Let_def)
      moreover have "?mid + 1 \<le> right" using mid by simp
      ultimately show ?thesis
        by (intro "1.IH"(1) [OF True refl lt "1.prems"(1) _ "1.prems"(3) lo "1.prems"(5)])
    next
      case gt
      then have nlt: "\<not> key (xs ! ?mid) < k" by simp
      have hi: "\<forall>j. ?mid \<le> j \<and> j < length xs \<longrightarrow> k < key (xs ! j)"
        using gt mono by (metis order.strict_trans2)
      have "bs_loop k key xs left ?mid = Err i"
        using True gt nlt "1.prems"(6)
        by (auto simp: bs_loop.simps [of k key xs left right] Let_def split: if_splits)
      moreover have "?mid \<le> length xs" using mid "1.prems"(3) by simp
      ultimately show ?thesis
        by (intro "1.IH"(2) [OF True refl nlt gt "1.prems"(1) mid(1) _ "1.prems"(4) hi])
    next
      case eq
      with True "1.prems"(6) show ?thesis
        by (simp add: bs_loop.simps [of k key xs left right] Let_def)
    qed
  qed
qed

interpretation bs: ordered_search
  "binary_search_by_key :: 'k::linorder \<Rightarrow> ('a \<Rightarrow> 'k) \<Rightarrow> 'a list \<Rightarrow> (nat, nat) result"
proof
  fix key :: "'a \<Rightarrow> 'k" and xs k i
  assume sorted: "sorted_wrt (<) (map key xs)"
  show "i < length xs \<and> key (xs ! i) = k" if "binary_search_by_key k key xs = Ok i"
    using that bs_loop_Ok [of "length xs" xs k key 0 i] by (simp add: binary_search_by_key_def)
  show "i \<le> length xs \<and> (\<forall>j<i. key (xs ! j) < k) \<and> (\<forall>j. i \<le> j \<and> j < length xs \<longrightarrow> k < key (xs ! j))"
    if "binary_search_by_key k key xs = Err i"
    by (rule bs_loop_Err [OF sorted _ _ _ _ that [unfolded binary_search_by_key_def]]) auto
qed

end
