(* ===== verification/Orderbook.thy ===== *)
theory Orderbook
  imports Slice_Search
begin

text \<open>
  The order book (\<open>trading/orderbook.rs\<close>): orders, price levels, the two sides of the
  book and every operation on them. Definitions first, in the order of the source; then the
  well-formedness predicates, the list of resting orders a level, a side and a book stand for
  (\<open>level_orders\<close>, \<open>orders_of\<close>, \<open>side_orders\<close>), and, for every operation, what it does to
  that list. The locale \<open>order_store\<close> is the contract the matching engine relies on.
\<close>

section \<open>Data\<close>

datatype OrderSide = Buy | Sell

datatype OrderType = Limit | Market

record Order =
  memo :: u32
  quantity :: NonZeroU32
  price :: NonZeroU32

definition PRICE_LEVEL_INNER_CAPACITY :: nat where
  "PRICE_LEVEL_INNER_CAPACITY = 64"

text \<open>\<open>TinyVec\<close> keeps up to its capacity inline and then spills to the heap; as a vector it is
  the list of its elements. Its elements are \<open>Option<Order>\<close>, as in the source.\<close>

record PriceLevel =
  level_price :: u32
  memo_seq :: u32
  inner :: "Order option list"

definition MULTIPLE_PRICE_LEVEL_INNER_CAPACITY :: nat where
  "MULTIPLE_PRICE_LEVEL_INNER_CAPACITY = 64"

type_synonym MultiplePriceLevels = "PriceLevel list"

record OrderIndex =
  ix_side :: OrderSide
  ix_price :: NonZeroU32
  ix_memo :: u32

record Orderbook =
  bids :: MultiplePriceLevels
  asks :: MultiplePriceLevels

section \<open>Price levels\<close>

text \<open>The iterator is lazy: a slot that is \<open>None\<close> panics when it is reached, not before.\<close>

definition level_iter :: "PriceLevel \<Rightarrow> Order run list" where
  "level_iter lv = map (expect ''all valid orders are always Some'') (inner lv)"

definition push_order :: "bool \<Rightarrow> PriceLevel \<Rightarrow> Order \<Rightarrow> (PriceLevel \<times> (NonZeroU32 \<times> u32)) run" where
  "push_order oc lv t =
     bind_run (expect ''price for price-level should not be zero'' (nz_new (level_price lv))) (\<lambda>p.
     let m = memo_seq lv in
     bind_run (add_u32 oc (memo_seq lv) 1) (\<lambda>seq.
     let t' = t\<lparr>memo := m\<rparr> in
     Ret (lv\<lparr>memo_seq := seq, inner := inner lv @ [Some t']\<rparr>, (p, m))))"

definition remove_order :: "PriceLevel \<Rightarrow> u32 \<Rightarrow> (PriceLevel \<times> Order option) run" where
  "remove_order lv m =
     bind_run (position_run (\<lambda>x. memo x = m) (level_iter lv)) (\<lambda>pos.
     case pos of
       None \<Rightarrow> Ret (lv, None)
     | Some i \<Rightarrow>
         bind_run (vec_remove i (inner lv)) (\<lambda>(rval, xs).
         let xs' = (if length xs \<le> PRICE_LEVEL_INNER_CAPACITY then shrink_to_fit xs else xs) in
         Ret (lv\<lparr>inner := xs'\<rparr>, rval)))"

section \<open>Sides of the book\<close>

definition iter_inner_rev :: "MultiplePriceLevels \<Rightarrow> PriceLevel list" where
  "iter_inner_rev ls = rev ls"

definition iter_inner :: "MultiplePriceLevels \<Rightarrow> PriceLevel list" where
  "iter_inner ls = ls"

text \<open>The returned reference is the position of the level.\<close>

definition get_or_insert_price_level :: "MultiplePriceLevels \<Rightarrow> NonZeroU32 \<Rightarrow> (MultiplePriceLevels \<times> nat) run" where
  "get_or_insert_price_level ls p =
     (case binary_search_by_key (nz_get p) level_price ls of
        Ok i \<Rightarrow> bind_run (expect ''checked index'' (vec_get i ls)) (\<lambda>_. Ret (ls, i))
      | Err i \<Rightarrow>
          bind_run (vec_insert i \<lparr>level_price = nz_get p, memo_seq = 0, inner = []\<rparr> ls) (\<lambda>ls'.
          bind_run (expect ''checked index'' (vec_get i ls')) (\<lambda>_. Ret (ls', i))))"

definition push_order_to_level ::
  "bool \<Rightarrow> MultiplePriceLevels \<Rightarrow> Order \<Rightarrow> (MultiplePriceLevels \<times> (NonZeroU32 \<times> u32)) run" where
  "push_order_to_level oc ls t =
     (case binary_search_by_key (nz_get (price t)) level_price ls of
        Ok i \<Rightarrow>
          bind_run (expect ''checked index'' (vec_get i ls)) (\<lambda>lv.
          bind_run (push_order oc lv t) (\<lambda>(lv', ret).
          Ret (ls[i := lv'], ret)))
      | Err i \<Rightarrow>
          bind_run (push_order oc \<lparr>level_price = nz_get (price t), memo_seq = 0, inner = []\<rparr> t) (\<lambda>(lv, ret).
          bind_run (vec_insert i lv ls) (\<lambda>ls'.
          Ret (ls', ret))))"

definition remove_order_from_level ::
  "MultiplePriceLevels \<Rightarrow> NonZeroU32 \<times> u32 \<Rightarrow> (MultiplePriceLevels \<times> Order option) run" where
  "remove_order_from_level ls pm =
     (case binary_search_by_key (nz_get (fst pm)) level_price ls of
        Err _ \<Rightarrow> Ret (ls, None)
      | Ok i \<Rightarrow>
          (case vec_get i ls of
             None \<Rightarrow> Ret (ls, None)
           | Some lv \<Rightarrow>
               bind_run (remove_order lv (snd pm)) (\<lambda>(lv', ord).
               let ls' = ls[i := lv'] in
               if inner lv' = [] then
                 bind_run (vec_remove i ls') (\<lambda>(_, ls'').
                 Ret (if length ls'' \<le> MULTIPLE_PRICE_LEVEL_INNER_CAPACITY
                      then shrink_to_fit ls'' else ls'', ord))
               else Ret (ls', ord))))"

text \<open>
  \<open>get_mut\<close> returns a mutable reference: here the place (level, slot) together with the order
  it holds. \<open>levels_write\<close> is the assignment through that reference.
\<close>

definition levels_get_mut :: "MultiplePriceLevels \<Rightarrow> NonZeroU32 \<times> u32 \<Rightarrow> ((nat \<times> nat) \<times> Order) option run" where
  "levels_get_mut ls pm =
     (case binary_search_by_key (nz_get (fst pm)) level_price ls of
        Err _ \<Rightarrow> Ret None
      | Ok i \<Rightarrow>
          (case vec_get i ls of
             None \<Rightarrow> Ret None
           | Some lv \<Rightarrow>
               (case find_index (\<lambda>s. case s of Some x \<Rightarrow> memo x = snd pm | None \<Rightarrow> False) (inner lv) of
                  None \<Rightarrow> Ret None
                | Some j \<Rightarrow>
                    bind_run (expect ''checked order'' (inner lv ! j)) (\<lambda>x. Ret (Some ((i, j), x))))))"

definition levels_write :: "MultiplePriceLevels \<Rightarrow> nat \<times> nat \<Rightarrow> Order \<Rightarrow> MultiplePriceLevels" where
  "levels_write ls r x =
     ls[fst r := (ls ! fst r)\<lparr>inner := (inner (ls ! fst r))[snd r := Some x]\<rparr>]"

section \<open>The book\<close>

definition Orderbook_new :: Orderbook where
  "Orderbook_new = \<lparr>bids = [], asks = []\<rparr>"

definition push_bid :: "bool \<Rightarrow> Orderbook \<Rightarrow> Order \<Rightarrow> (Orderbook \<times> OrderIndex) run" where
  "push_bid oc ob t =
     bind_run (push_order_to_level oc (bids ob) t) (\<lambda>(ls, p, m).
     Ret (ob\<lparr>bids := ls\<rparr>, \<lparr>ix_side = Buy, ix_price = p, ix_memo = m\<rparr>))"

definition push_ask :: "bool \<Rightarrow> Orderbook \<Rightarrow> Order \<Rightarrow> (Orderbook \<times> OrderIndex) run" where
  "push_ask oc ob t =
     bind_run (push_order_to_level oc (asks ob) t) (\<lambda>(ls, p, m).
     Ret (ob\<lparr>asks := ls\<rparr>, \<lparr>ix_side = Sell, ix_price = p, ix_memo = m\<rparr>))"

definition remove :: "Orderbook \<Rightarrow> OrderIndex \<Rightarrow> (Orderbook \<times> Order option) run" where
  "remove ob ix =
     (case ix_side ix of
        Buy \<Rightarrow> bind_run (remove_order_from_level (bids ob) (ix_price ix, ix_memo ix))
                 (\<lambda>(ls, x). Ret (ob\<lparr>bids := ls\<rparr>, x))
      | Sell \<Rightarrow> bind_run (remove_order_from_level (asks ob) (ix_price ix, ix_memo ix))
                 (\<lambda>(ls, x). Ret (ob\<lparr>asks := ls\<rparr>, x)))"

definition wrap_iter :: "OrderSide \<Rightarrow> PriceLevel list \<Rightarrow> (OrderIndex \<times> Order) run list" where
  "wrap_iter side lvs =
     concat (map (\<lambda>lv. map (\<lambda>r. bind_run r (\<lambda>x.
       Ret (\<lparr>ix_side = side, ix_price = price x, ix_memo = memo x\<rparr>, x))) (level_iter lv)) lvs)"

definition iter_rel :: "Orderbook \<Rightarrow> OrderSide \<Rightarrow> (OrderIndex \<times> Order) run list" where
  "iter_rel ob side =
     (case side of
        Buy \<Rightarrow> wrap_iter side (iter_inner_rev (bids ob))
      | Sell \<Rightarrow> wrap_iter side (iter_inner (asks ob)))"

type_synonym order_ref = "OrderSide \<times> nat \<times> nat"

definition get_mut :: "Orderbook \<Rightarrow> OrderIndex \<Rightarrow> (order_ref \<times> Order) option run" where
  "get_mut ob ix =
     (let levels = (case ix_side ix of Buy \<Rightarrow> bids ob | Sell \<Rightarrow> asks ob) in
      bind_run (levels_get_mut levels (ix_price ix, ix_memo ix)) (\<lambda>r.
      Ret (map_option (\<lambda>(r, x). ((ix_side ix, r), x)) r)))"

definition write_order :: "Orderbook \<Rightarrow> order_ref \<Rightarrow> Order \<Rightarrow> Orderbook" where
  "write_order ob r x =
     (case fst r of
        Buy \<Rightarrow> ob\<lparr>bids := levels_write (bids ob) (snd r) x\<rparr>
      | Sell \<Rightarrow> ob\<lparr>asks := levels_write (asks ob) (snd r) x\<rparr>)"

section \<open>Well-formedness and the orders a book holds\<close>

definition level_orders :: "PriceLevel \<Rightarrow> Order list" where
  "level_orders lv = map the (inner lv)"

definition level_wf :: "PriceLevel \<Rightarrow> bool" where
  [wf_simps]: "level_wf lv \<longleftrightarrow>
     level_price lv \<noteq> 0 \<and> None \<notin> set (inner lv) \<and>
     sorted_wrt (<) (map memo (level_orders lv)) \<and>
     (\<forall>x\<in>set (level_orders lv). nz_get (price x) = level_price lv \<and> memo x < memo_seq lv)"

definition levels_wf :: "MultiplePriceLevels \<Rightarrow> bool" where
  [wf_simps]: "levels_wf ls \<longleftrightarrow> sorted_wrt (<) (map level_price ls) \<and> (\<forall>lv\<in>set ls. level_wf lv)"

definition no_empty_level :: "MultiplePriceLevels \<Rightarrow> bool" where
  "no_empty_level ls \<longleftrightarrow> (\<forall>lv\<in>set ls. inner lv \<noteq> [])"

definition book_wf :: "Orderbook \<Rightarrow> bool" where
  [wf_simps]: "book_wf ob \<longleftrightarrow>
     levels_wf (bids ob) \<and> levels_wf (asks ob) \<and> no_empty_level (bids ob) \<and> no_empty_level (asks ob)"

definition orders_of :: "PriceLevel list \<Rightarrow> Order list" where
  "orders_of lvs = concat (map level_orders lvs)"

text \<open>The resting orders of a side, best price first and oldest first within a price.\<close>

definition side_orders :: "Orderbook \<Rightarrow> OrderSide \<Rightarrow> Order list" where
  "side_orders ob side =
     (case side of Buy \<Rightarrow> orders_of (rev (bids ob)) | Sell \<Rightarrow> orders_of (asks ob))"

definition okey :: "Order \<Rightarrow> NonZeroU32 \<times> u32" where
  "okey x = (price x, memo x)"

definition index_of :: "OrderSide \<Rightarrow> Order \<Rightarrow> OrderIndex" where
  "index_of side x = \<lparr>ix_side = side, ix_price = price x, ix_memo = memo x\<rparr>"

text \<open>The sequence number the next order at a price gets.\<close>

definition next_memo :: "MultiplePriceLevels \<Rightarrow> NonZeroU32 \<Rightarrow> u32" where
  "next_memo ls p = (case find (\<lambda>lv. level_price lv = nz_get p) ls of None \<Rightarrow> 0 | Some lv \<Rightarrow> memo_seq lv)"

definition side_levels :: "Orderbook \<Rightarrow> OrderSide \<Rightarrow> MultiplePriceLevels" where
  "side_levels ob side = (case side of Buy \<Rightarrow> bids ob | Sell \<Rightarrow> asks ob)"

section \<open>Lemmas on levels\<close>

lemma level_orders_simps [simp]:
  "level_orders (lv\<lparr>inner := map Some xs\<rparr>) = xs"
  "level_orders (lv\<lparr>memo_seq := n\<rparr>) = level_orders lv"
  "level_orders \<lparr>level_price = p, memo_seq = n, inner = []\<rparr> = []"
  by (simp_all add: level_orders_def comp_def)

lemma orders_of_simps [simp]:
  "orders_of [] = []"
  "orders_of (lv # lvs) = level_orders lv @ orders_of lvs"
  "orders_of (lvs @ lvs') = orders_of lvs @ orders_of lvs'"
  by (simp_all add: orders_of_def)

lemma set_orders_of: "set (orders_of lvs) = (\<Union>lv\<in>set lvs. set (level_orders lv))"
  by (simp add: orders_of_def)

lemma level_wf_inner: "level_wf lv \<Longrightarrow> inner lv = map Some (level_orders lv)"
  by (auto simp: level_wf_def level_orders_def intro!: nth_equalityI)
    (metis not_None_eq nth_mem option.sel)

lemma level_iter_wf: "level_wf lv \<Longrightarrow> level_iter lv = map Ret (level_orders lv)"
  by (subst level_iter_def) (simp add: level_wf_inner comp_def)

lemma level_wf_memo_unique:
  assumes "level_wf lv" and "i < length (level_orders lv)" and "j < length (level_orders lv)"
    and "memo (level_orders lv ! i) = memo (level_orders lv ! j)"
  shows "i = j"
proof -
  have "distinct (map memo (level_orders lv))"
    using assms(1) by (simp add: level_wf_def strict_sorted_iff)
  with assms(2-4) show ?thesis by (metis distinct_conv_nth length_map nth_map)
qed

lemma push_order_wf:
  assumes "level_wf lv" and "nz_get (price t) = level_price lv" and "memo_seq lv \<noteq> u32_MAX"
  shows "\<exists>lv'. push_order oc lv t = Ret (lv', (price t, memo_seq lv)) \<and> level_wf lv' \<and>
           level_price lv' = level_price lv \<and> memo_seq lv' = memo_seq lv + 1 \<and>
           level_orders lv' = level_orders lv @ [t\<lparr>memo := memo_seq lv\<rparr>] \<and> inner lv' \<noteq> []"
proof -
  let ?lv' = "lv\<lparr>memo_seq := memo_seq lv + 1, inner := inner lv @ [Some (t\<lparr>memo := memo_seq lv\<rparr>)]\<rparr>"
  have run: "push_order oc lv t = Ret (?lv', (price t, memo_seq lv))"
    using assms(3) by (simp add: push_order_def add_u32_one Let_def flip: assms(2))
  have orders: "level_orders ?lv' = level_orders lv @ [t\<lparr>memo := memo_seq lv\<rparr>]"
    by (simp add: level_orders_def)
  have "level_wf ?lv'"
    using assms less_Suc_u32 [OF assms(3)] unfolding level_wf_def orders
    by (auto simp: sorted_wrt_append dest: order.strict_trans)
  with run orders show ?thesis by simp
qed

lemma remove_order_wf:
  assumes "level_wf lv"
  shows "\<exists>lv'. remove_order lv m = Ret (lv', find (\<lambda>x. memo x = m) (level_orders lv)) \<and> level_wf lv' \<and>
           level_price lv' = level_price lv \<and> memo_seq lv' = memo_seq lv \<and>
           level_orders lv' = filter (\<lambda>x. memo x \<noteq> m) (level_orders lv)"
proof (cases "find_index (\<lambda>x. memo x = m) (level_orders lv)")
  case None
  then have "\<forall>x\<in>set (level_orders lv). memo x \<noteq> m"
    by (simp add: find_index_None_iff)
  then have "find (\<lambda>x. memo x = m) (level_orders lv) = None"
    "filter (\<lambda>x. memo x \<noteq> m) (level_orders lv) = level_orders lv"
    by (auto simp: find_None_iff filter_id_conv)
  with None assms show ?thesis
    by (simp add: remove_order_def level_iter_wf position_run_Ret)
next
  case (Some i)
  let ?xs = "level_orders lv"
  from find_index_SomeD [OF Some] have i: "i < length ?xs" "memo (?xs ! i) = m" by auto
  have uniq: "memo (?xs ! j) = m \<longleftrightarrow> j = i" if "j < length ?xs" for j
    using level_wf_memo_unique [OF assms that i(1)] i(2) by auto
  have del: "take i ?xs @ drop (Suc i) ?xs = filter (\<lambda>x. memo x \<noteq> m) ?xs"
    using delete_at_eq_filter [of i ?xs "\<lambda>x. memo x = m"] i uniq by simp
  have find: "find (\<lambda>x. memo x = m) ?xs = Some (?xs ! i)"
    unfolding find_Some_iff using i uniq by (intro exI [of _ i]) auto
  let ?lv' = "lv\<lparr>inner := map Some (filter (\<lambda>x. memo x \<noteq> m) ?xs)\<rparr>"
  have "remove_order lv m = Ret (?lv', Some (?xs ! i))"
    using Some i assms
    by (simp add: remove_order_def level_iter_wf position_run_Ret vec_remove_def level_wf_inner
        take_map drop_map flip: del)
  moreover have "level_wf ?lv'"
  proof -
    have "sorted_wrt (<) (map memo (filter (\<lambda>x. memo x \<noteq> m) ?xs))"
      using assms by (simp add: level_wf_def sorted_wrt_map sorted_wrt_filter)
    with assms show ?thesis
      by (simp only: level_wf_def level_orders_simps) auto
  qed
  ultimately show ?thesis using find by simp
qed

section \<open>Splitting a side at a price\<close>

lemma levels_wf_price:
  "levels_wf ls \<Longrightarrow> x \<in> set (orders_of ls) \<Longrightarrow> \<exists>lv\<in>set ls. nz_get (price x) = level_price lv"
  by (auto simp: wf_simps set_orders_of)

lemma levels_wf_append:
  "levels_wf (as @ bs) \<longleftrightarrow> levels_wf as \<and> levels_wf bs \<and>
     (\<forall>a\<in>set as. \<forall>b\<in>set bs. level_price a < level_price b)"
  by (auto simp: levels_wf_def sorted_wrt_append)

lemma levels_wf_Cons:
  "levels_wf (lv # bs) \<longleftrightarrow> level_wf lv \<and> levels_wf bs \<and> (\<forall>b\<in>set bs. level_price lv < level_price b)"
  by (auto simp: levels_wf_def)

lemmas levels_wf_split = levels_wf_append levels_wf_Cons

lemma level_orders_price:
  "level_wf lv \<Longrightarrow> level_price lv = nz_get p \<Longrightarrow> x \<in> set (level_orders lv) \<Longrightarrow> price x = p"
  by (auto simp: level_wf_def)

lemma orders_of_rev_set [simp]: "set (orders_of (rev lvs)) = set (orders_of lvs)"
  by (simp add: set_orders_of)

text \<open>What is below a price and what is above it, levels and orders.\<close>

definition below :: "NonZeroU32 \<Rightarrow> PriceLevel list \<Rightarrow> bool" where
  "below p as \<longleftrightarrow> levels_wf as \<and> (\<forall>l\<in>set as. level_price l < nz_get p) \<and> (\<forall>x\<in>set (orders_of as). price x < p)"

definition above :: "NonZeroU32 \<Rightarrow> PriceLevel list \<Rightarrow> bool" where
  "above p bs \<longleftrightarrow> levels_wf bs \<and> (\<forall>l\<in>set bs. nz_get p < level_price l) \<and> (\<forall>x\<in>set (orders_of bs). p < price x)"

lemma belowI: "levels_wf as \<Longrightarrow> \<forall>l\<in>set as. level_price l < nz_get p \<Longrightarrow> below p as"
  using levels_wf_price by (force simp: below_def nz_less_iff)

lemma aboveI: "levels_wf bs \<Longrightarrow> \<forall>l\<in>set bs. nz_get p < level_price l \<Longrightarrow> above p bs"
  using levels_wf_price by (force simp: above_def nz_less_iff)

lemma side_cases [consumes 1, case_names found missing]:
  assumes wf: "levels_wf ls"
  obtains (found) as lv bs where "binary_search_by_key (nz_get p) level_price ls = Ok (length as)"
      and "ls = as @ lv # bs" and "level_wf lv" and "level_price lv = nz_get p" and "below p as" and "above p bs"
    | (missing) as bs where "binary_search_by_key (nz_get p) level_price ls = Err (length as)"
      and "ls = as @ bs" and "below p as" and "above p bs"
proof (cases "binary_search_by_key (nz_get p) level_price ls")
  case (Ok i)
  from wf have sorted: "sorted_wrt (<) (map level_price ls)" by (simp add: levels_wf_def)
  from bs.search_Ok [OF this Ok] have i: "i < length ls" "level_price (ls ! i) = nz_get p" by auto
  have split: "ls = take i ls @ ls ! i # drop (Suc i) ls" by (rule id_take_nth_drop [OF i(1)])
  have "levels_wf (take i ls @ ls ! i # drop (Suc i) ls)" using wf split by simp
  with i(2) have "level_wf (ls ! i)" "below p (take i ls)" "above p (drop (Suc i) ls)"
    by (auto simp: levels_wf_split intro!: belowI aboveI)
  with found Ok split i show ?thesis by (metis length_take less_imp_le min.absorb2)
next
  case (Err i)
  from wf have sorted: "sorted_wrt (<) (map level_price ls)" by (simp add: levels_wf_def)
  have "levels_wf (take i ls)" "levels_wf (drop i ls)"
    using wf levels_wf_append [of "take i ls" "drop i ls"] by simp_all
  with bs.not_found_split [OF sorted Err] have "below p (take i ls)" "above p (drop i ls)"
    by (auto intro: belowI aboveI)
  with missing Err bs.search_Err [OF sorted Err] show ?thesis
    by (metis append_take_drop_id length_take min.absorb2)
qed

lemma levels_wf_middle:
  assumes "below p as" and "above p bs"
  shows "levels_wf (as @ bs)"
    and "level_wf lv \<Longrightarrow> level_price lv = nz_get p \<Longrightarrow> levels_wf (as @ lv # bs)"
  using assms order.strict_trans [where b = "nz_get p"] by (auto simp: levels_wf_split below_def above_def)

lemma find_append: "find P (xs @ ys) = (case find P xs of None \<Rightarrow> find P ys | Some x \<Rightarrow> Some x)"
  by (induction xs) auto

lemma next_memo_split:
  assumes "below p as" and "above p bs"
  shows "level_price lv = nz_get p \<Longrightarrow>
      next_memo (as @ lv # bs) q = (if q = p then memo_seq lv else next_memo (as @ bs) q)"
    and "next_memo (as @ bs) p = 0"
proof -
  have none: "find (\<lambda>l. level_price l = nz_get p) as = None" "find (\<lambda>l. level_price l = nz_get p) bs = None"
    using assms by (auto simp: find_None_iff below_def above_def)
  then show "level_price lv = nz_get p \<Longrightarrow>
      next_memo (as @ lv # bs) q = (if q = p then memo_seq lv else next_memo (as @ bs) q)"
    and "next_memo (as @ bs) p = 0"
    by (auto simp: next_memo_def find_append split: option.splits)
qed

section \<open>Pushing an order onto a side\<close>

text \<open>Where an order goes in the ascending and the descending list of a side.\<close>

definition insert_asc :: "Order \<Rightarrow> Order list \<Rightarrow> Order list" where
  "insert_asc t xs = filter (\<lambda>x. price x \<le> price t) xs @ [t] @ filter (\<lambda>x. price t < price x) xs"

definition insert_desc :: "Order \<Rightarrow> Order list \<Rightarrow> Order list" where
  "insert_desc t xs = filter (\<lambda>x. price t \<le> price x) xs @ [t] @ filter (\<lambda>x. price x < price t) xs"

lemma insert_at_split:
  assumes "\<forall>x\<in>set lo. price x < price t" and "\<forall>x\<in>set mid. price x = price t"
    and "\<forall>x\<in>set hi. price t < price x"
  shows "insert_asc t (lo @ mid @ hi) = lo @ mid @ t # hi"
    and "insert_desc t (hi @ mid @ lo) = hi @ mid @ t # lo"
proof -
  have lo: "price x \<le> price t" "\<not> price t \<le> price x" "price x < price t" "\<not> price t < price x"
    if "x \<in> set lo" for x using assms(1) that by auto
  have hi: "price t \<le> price x" "\<not> price x \<le> price t" "price t < price x" "\<not> price x < price t"
    if "x \<in> set hi" for x using assms(3) that by auto
  have mid: "price t \<le> price x" "price x \<le> price t" "\<not> price t < price x" "\<not> price x < price t"
    if "x \<in> set mid" for x using assms(2) that by auto
  show "insert_asc t (lo @ mid @ hi) = lo @ mid @ t # hi"
    and "insert_desc t (hi @ mid @ lo) = hi @ mid @ t # lo"
    by (simp_all add: insert_asc_def insert_desc_def lo hi mid cong: filter_cong)
qed

lemma insert_side_split:
  assumes "below (price t) as" and "above (price t) bs" and "\<forall>x\<in>set mid. price x = price t"
  shows "orders_of as @ mid @ t # orders_of bs = insert_asc t (orders_of as @ mid @ orders_of bs)"
    and "orders_of (rev bs) @ mid @ t # orders_of (rev as) =
         insert_desc t (orders_of (rev bs) @ mid @ orders_of (rev as))"
  using assms insert_at_split(1) [of "orders_of as" t mid "orders_of bs"]
    insert_at_split(2) [of "orders_of (rev as)" t mid "orders_of (rev bs)"]
  by (simp_all add: below_def above_def)

text \<open>A side whose level at the order's price has got the order as its last one.\<close>

lemma pushed_level:
  fixes t m
  defines "x \<equiv> t\<lparr>memo := m\<rparr>"
  assumes around: "below (price t) as" "above (price t) bs" and mid: "\<And>y. y \<in> set mid \<Longrightarrow> price y = price t"
    and lv: "level_wf lv" "level_price lv = nz_get (price t)" "memo_seq lv = m + 1" "level_orders lv = mid @ [x]" "inner lv \<noteq> []"
  shows "levels_wf (as @ lv # bs)" and "no_empty_level (as @ bs) \<Longrightarrow> no_empty_level (as @ lv # bs)"
    and "orders_of (as @ lv # bs) = insert_asc x (orders_of as @ mid @ orders_of bs)"
    and "orders_of (rev (as @ lv # bs)) = insert_desc x (orders_of (rev bs) @ mid @ orders_of (rev as))"
    and "next_memo (as @ lv # bs) = (next_memo (as @ bs))(price t := m + 1)"
proof -
  show "levels_wf (as @ lv # bs)" by (rule levels_wf_middle(2) [OF around lv(1,2)])
  show "no_empty_level (as @ bs) \<Longrightarrow> no_empty_level (as @ lv # bs)" using lv(5) by (simp add: no_empty_level_def)
  show "orders_of (as @ lv # bs) = insert_asc x (orders_of as @ mid @ orders_of bs)"
    "orders_of (rev (as @ lv # bs)) = insert_desc x (orders_of (rev bs) @ mid @ orders_of (rev as))"
    using insert_side_split [of x as bs mid] around mid by (simp_all add: lv(4) x_def)
  show "next_memo (as @ lv # bs) = (next_memo (as @ bs))(price t := m + 1)"
    using next_memo_split(1) [OF around lv(2)] by (auto simp: lv(3))
qed

lemma push_order_to_level_wf:
  assumes "levels_wf ls" and "next_memo ls (price t) \<noteq> u32_MAX"
  defines "m \<equiv> next_memo ls (price t)"
  shows "\<exists>ls'. push_order_to_level oc ls t = Ret (ls', (price t, m)) \<and>
     levels_wf ls' \<and> (no_empty_level ls \<longrightarrow> no_empty_level ls') \<and>
     orders_of ls' = insert_asc (t\<lparr>memo := m\<rparr>) (orders_of ls) \<and>
     orders_of (rev ls') = insert_desc (t\<lparr>memo := m\<rparr>) (orders_of (rev ls)) \<and>
     next_memo ls' = (next_memo ls)(price t := m + 1)"
  using assms(1)
proof (cases rule: side_cases [where p = "price t"])
  case (found as lv bs)
  note memo = next_memo_split(1) [OF found(5,6,4)]
  have m: "m = memo_seq lv" using memo by (simp add: m_def found(2))
  from push_order_wf [OF found(3) found(4) [symmetric], of oc] assms(2) obtain lv' where
    lv': "push_order oc lv t = Ret (lv', (price t, m))" "level_wf lv'"
    "level_price lv' = nz_get (price t)" "memo_seq lv' = m + 1"
    "level_orders lv' = level_orders lv @ [t\<lparr>memo := m\<rparr>]" "inner lv' \<noteq> []"
    using found(4) m by (auto simp: m_def)
  note pushed = pushed_level [OF found(5,6) level_orders_price [OF found(3,4)] lv'(2-6)]
  have "push_order_to_level oc ls t = Ret (as @ lv' # bs, (price t, m))"
    using found(1) lv'(1) by (simp add: push_order_to_level_def found(2) vec_get_def)
  moreover have "next_memo (as @ lv' # bs) = (next_memo ls)(price t := m + 1)" using pushed(5) memo by (auto simp: found(2))
  ultimately show ?thesis using pushed(1-4) by (auto simp: found(2) no_empty_level_def)
next
  case (missing as bs)
  have m: "m = 0" using next_memo_split(2) [OF missing(3,4)] by (simp add: m_def missing(2))
  let ?new = "\<lparr>level_price = nz_get (price t), memo_seq = 0, inner = []\<rparr>"
  have "level_wf ?new" by (simp add: level_wf_def)
  from push_order_wf [OF this, of t oc] obtain lv' where
    lv': "push_order oc ?new t = Ret (lv', (price t, m))" "level_wf lv'"
    "level_price lv' = nz_get (price t)" "memo_seq lv' = m + 1"
    "level_orders lv' = [] @ [t\<lparr>memo := m\<rparr>]" "inner lv' \<noteq> []"
    by (auto simp: u32_MAX_def m)
  have "push_order_to_level oc ls t = Ret (as @ lv' # bs, (price t, m))"
    using missing(1) lv'(1) by (simp add: push_order_to_level_def missing(2) vec_insert_def)
  with pushed_level [OF missing(3,4) _ lv'(2-6)] show ?thesis by (auto simp: missing(2))
qed

section \<open>Removing an order from a side\<close>

lemma okey_iff: "okey x = (p, m) \<longleftrightarrow> price x = p \<and> memo x = m"
  by (simp add: okey_def)

lemma filter_okey_split:
  assumes "below p as" and "above p bs" and "\<forall>x\<in>set mid. price x = p"
  shows "filter (\<lambda>x. okey x \<noteq> (p, m)) (orders_of as @ mid @ orders_of bs) =
         orders_of as @ filter (\<lambda>x. memo x \<noteq> m) mid @ orders_of bs"
    and "filter (\<lambda>x. okey x \<noteq> (p, m)) (orders_of (rev bs) @ mid @ orders_of (rev as)) =
         orders_of (rev bs) @ filter (\<lambda>x. memo x \<noteq> m) mid @ orders_of (rev as)"
    and "find (\<lambda>x. okey x = (p, m)) (orders_of as @ mid @ orders_of bs) = find (\<lambda>x. memo x = m) mid"
proof -
  have out: "\<not> (price x = p \<and> memo x = m)" if "x \<in> set (orders_of as) \<or> x \<in> set (orders_of bs)" for x
    using assms(1,2) that by (auto simp: below_def above_def)
  have f: "filter (\<lambda>x. okey x \<noteq> (p, m)) (orders_of zs) = orders_of zs"
    if "set zs \<subseteq> set as \<or> set zs \<subseteq> set bs" for zs
    using that out by (force simp: filter_id_conv okey_iff set_orders_of)
  have mid: "filter (\<lambda>x. okey x \<noteq> (p, m)) mid = filter (\<lambda>x. memo x \<noteq> m) mid"
    using assms(3) by (simp add: okey_iff cong: filter_cong)
  show "filter (\<lambda>x. okey x \<noteq> (p, m)) (orders_of as @ mid @ orders_of bs) =
         orders_of as @ filter (\<lambda>x. memo x \<noteq> m) mid @ orders_of bs"
    and "filter (\<lambda>x. okey x \<noteq> (p, m)) (orders_of (rev bs) @ mid @ orders_of (rev as)) =
         orders_of (rev bs) @ filter (\<lambda>x. memo x \<noteq> m) mid @ orders_of (rev as)"
    using f mid by simp_all
  have "find (\<lambda>x. okey x = (p, m)) (orders_of as) = None" "find (\<lambda>x. okey x = (p, m)) (orders_of bs) = None"
    using out by (auto simp: find_None_iff okey_iff)
  moreover have "find (\<lambda>x. okey x = (p, m)) mid = find (\<lambda>x. memo x = m) mid"
    using assms(3) by (intro find_cong) (auto simp: okey_iff)
  ultimately show "find (\<lambda>x. okey x = (p, m)) (orders_of as @ mid @ orders_of bs) = find (\<lambda>x. memo x = m) mid"
    by (simp add: find_append split: option.splits)
qed

lemma remove_order_from_level_wf:
  assumes "levels_wf ls"
  shows "\<exists>ls'. remove_order_from_level ls pm = Ret (ls', find (\<lambda>x. okey x = pm) (orders_of ls)) \<and>
     levels_wf ls' \<and> (no_empty_level ls \<longrightarrow> no_empty_level ls') \<and>
     orders_of ls' = filter (\<lambda>x. okey x \<noteq> pm) (orders_of ls) \<and>
     orders_of (rev ls') = filter (\<lambda>x. okey x \<noteq> pm) (orders_of (rev ls)) \<and>
     (\<forall>q. next_memo ls' q = next_memo ls q \<or> next_memo ls' q = 0)"
proof -
  obtain p m where pm: "pm = (p, m)" by force
  from assms show ?thesis
  proof (cases rule: side_cases [where p = p])
    case (found as lv bs)
    note split = filter_okey_split [OF found(5,6), of "level_orders lv" m]
    note prices = level_orders_price [OF found(3,4)]
    from remove_order_wf [OF found(3), of m] found(4) obtain lv' where
      lv': "remove_order lv m = Ret (lv', find (\<lambda>x. memo x = m) (level_orders lv))" "level_wf lv'"
      "level_price lv' = nz_get p" "memo_seq lv' = memo_seq lv"
      "level_orders lv' = filter (\<lambda>x. memo x \<noteq> m) (level_orders lv)"
      by auto
    have empty: "inner lv' = [] \<longleftrightarrow> level_orders lv' = []"
      by (simp add: level_orders_def)
    define ls' where "ls' = (if inner lv' = [] then as @ bs else as @ lv' # bs)"
    have "remove_order_from_level ls pm = Ret (ls', find (\<lambda>x. okey x = pm) (orders_of ls))"
      using found(1) lv'(1) split(3) prices
      by (simp add: remove_order_from_level_def pm found(2) vec_get_def vec_remove_def ls'_def Let_def)
    moreover have "levels_wf ls'"
      using levels_wf_middle [OF found(5,6)] lv'(2,3) by (simp add: ls'_def)
    moreover have "no_empty_level ls \<longrightarrow> no_empty_level ls'"
      by (auto simp: found(2) ls'_def no_empty_level_def)
    moreover have "orders_of ls' = filter (\<lambda>x. okey x \<noteq> pm) (orders_of ls)"
      "orders_of (rev ls') = filter (\<lambda>x. okey x \<noteq> pm) (orders_of (rev ls))"
      using split(1,2) prices lv'(5) empty by (simp_all add: found(2) ls'_def pm)
    moreover have "next_memo ls' q = next_memo ls q \<or> next_memo ls' q = 0" for q
      using next_memo_split(1) [OF found(5,6) lv'(3)] next_memo_split [OF found(5,6)] found(4) lv'(4)
      by (simp add: found(2) ls'_def)
    ultimately show ?thesis by blast
  next
    case (missing as bs)
    from filter_okey_split [OF missing(3,4), of "[]" m] missing assms show ?thesis
      by (simp add: remove_order_from_level_def pm)
  qed
qed

section \<open>Access to an order of a side\<close>

lemma find_slot_wf:
  assumes "level_wf lv"
  shows "find_index (\<lambda>s. case s of Some x \<Rightarrow> memo x = m | None \<Rightarrow> False) (inner lv) =
         find_index (\<lambda>x. memo x = m) (level_orders lv)"
  by (subst level_wf_inner [OF assms]) (simp add: find_index_map comp_def)

lemma level_write_wf:
  assumes "level_wf lv" and "find_index (\<lambda>x. memo x = m) (level_orders lv) = Some j"
    and "memo y = m" and "nz_get (price y) = level_price lv"
  defines "lv' \<equiv> lv\<lparr>inner := (inner lv)[j := Some y]\<rparr>"
  shows "level_wf lv'" and "level_orders lv' = map (\<lambda>z. if memo z = m then y else z) (level_orders lv)"
proof -
  let ?xs = "level_orders lv"
  from find_index_SomeD [OF assms(2)] have j: "j < length ?xs" "memo (?xs ! j) = m" by auto
  have uniq: "memo (?xs ! i) = m \<longleftrightarrow> i = j" if "i < length ?xs" for i
    using level_wf_memo_unique [OF assms(1) that j(1)] j(2) by auto
  have upd: "?xs[j := y] = map (\<lambda>z. if memo z = m then y else z) ?xs"
    by (rule update_eq_map [OF j(1)]) (rule uniq)
  have lv': "lv' = lv\<lparr>inner := map Some (?xs[j := y])\<rparr>"
    unfolding lv'_def by (subst level_wf_inner [OF assms(1)]) (simp add: map_update)
  have memos: "map memo (?xs[j := y]) = map memo ?xs"
    using j assms(3) by (simp add: map_update list_update_same_conv)
  have "memo y < memo_seq lv"
    using assms(1,3) j(2) nth_mem [OF j(1)] by (metis level_wf_def)
  then have "\<forall>x\<in>set (?xs[j := y]). nz_get (price x) = level_price lv \<and> memo x < memo_seq lv"
    using assms(1,4) set_update_subset_insert [of ?xs j y] by (auto simp: level_wf_def)
  then show "level_wf lv'"
    using assms(1) memos by (simp add: level_wf_def lv')
  show "level_orders lv' = map (\<lambda>z. if memo z = m then y else z) ?xs"
    unfolding upd [symmetric] by (simp add: lv')
qed

lemma map_okey_split:
  fixes m :: u32 and y :: Order
  assumes "below p as" and "above p bs" and "\<forall>x\<in>set mid. price x = p"
  defines "f \<equiv> \<lambda>z. if okey z = (p, m) then y else z"
  shows "map f (orders_of as @ mid @ orders_of bs) =
         orders_of as @ map (\<lambda>z. if memo z = m then y else z) mid @ orders_of bs"
    and "map f (orders_of (rev bs) @ mid @ orders_of (rev as)) =
         orders_of (rev bs) @ map (\<lambda>z. if memo z = m then y else z) mid @ orders_of (rev as)"
proof -
  have "f x = x" if "x \<in> set (orders_of as) \<or> x \<in> set (orders_of bs)" for x
    using assms(1,2) that by (auto simp: below_def above_def f_def okey_iff)
  then have "map f (orders_of zs) = orders_of zs" if "zs = as \<or> zs = bs \<or> zs = rev as \<or> zs = rev bs" for zs
    using that by (auto intro!: map_idI)
  moreover have "map f mid = map (\<lambda>z. if memo z = m then y else z) mid"
    using assms(3) by (simp add: f_def okey_iff)
  ultimately show "map f (orders_of as @ mid @ orders_of bs) =
         orders_of as @ map (\<lambda>z. if memo z = m then y else z) mid @ orders_of bs"
    and "map f (orders_of (rev bs) @ mid @ orders_of (rev as)) =
         orders_of (rev bs) @ map (\<lambda>z. if memo z = m then y else z) mid @ orders_of (rev as)"
    by simp_all
qed

lemma levels_get_mut_None:
  assumes "levels_wf ls" and "find (\<lambda>x. okey x = pm) (orders_of ls) = None"
  shows "levels_get_mut ls pm = Ret None"
proof -
  obtain p m where pm: "pm = (p, m)" by force
  from assms(1) show ?thesis
  proof (cases rule: side_cases [where p = p])
    case (found as lv bs)
    then have "find (\<lambda>x. memo x = m) (level_orders lv) = None"
      using assms(2) filter_okey_split(3) [OF found(5,6), of "level_orders lv" m]
        level_orders_price [OF found(3,4)] by (simp add: pm)
    then have "find_index (\<lambda>x. memo x = m) (level_orders lv) = None"
      by (simp add: find_index_None_iff find_None_iff)
    with found show ?thesis
      by (simp add: levels_get_mut_def pm vec_get_def find_slot_wf)
  next
    case missing
    then show ?thesis by (simp add: levels_get_mut_def pm)
  qed
qed

text \<open>Overwriting the order in slot \<open>j\<close> of a level.\<close>

lemma levels_write_middle:
  fixes as lv bs j y
  defines "ls \<equiv> as @ lv # bs"
  defines "ls' \<equiv> levels_write ls (length as, j) y"
  assumes lv: "level_wf lv" "level_price lv = nz_get p" and around: "below p as" "above p bs"
    and j: "find_index (\<lambda>x. memo x = m) (level_orders lv) = Some j" and y: "okey y = (p, m)"
  shows "levels_wf ls'" and "no_empty_level ls \<Longrightarrow> no_empty_level ls'" and "next_memo ls' = next_memo ls"
    and "orders_of ls' = map (\<lambda>z. if okey z = (p, m) then y else z) (orders_of ls)"
    and "orders_of (rev ls') = map (\<lambda>z. if okey z = (p, m) then y else z) (orders_of (rev ls))"
proof -
  let ?lv' = "lv\<lparr>inner := (inner lv)[j := Some y]\<rparr>"
  have lv': "level_wf ?lv'" "level_orders ?lv' = map (\<lambda>z. if memo z = m then y else z) (level_orders lv)"
    using level_write_wf [OF lv(1) j, of y] y lv(2) by (simp_all add: okey_iff)
  have eq: "ls' = as @ ?lv' # bs" by (simp add: ls'_def ls_def levels_write_def)
  show "levels_wf ls'" unfolding eq by (rule levels_wf_middle(2) [OF around lv'(1)]) (simp add: lv(2))
  show "next_memo ls' = next_memo ls" by (rule ext) (simp add: ls_def eq next_memo_def find_append split: option.splits)
  show "no_empty_level ls \<Longrightarrow> no_empty_level ls'" by (auto simp: ls_def eq no_empty_level_def)
  show "orders_of ls' = map (\<lambda>z. if okey z = (p, m) then y else z) (orders_of ls)"
    "orders_of (rev ls') = map (\<lambda>z. if okey z = (p, m) then y else z) (orders_of (rev ls))"
    using map_okey_split [OF around, of "level_orders lv" m y] level_orders_price [OF lv] by (simp_all add: ls_def eq lv'(2))
qed

lemma levels_get_mut_Some:
  assumes "levels_wf ls" and "find (\<lambda>x. okey x = pm) (orders_of ls) = Some x"
  shows "\<exists>r. levels_get_mut ls pm = Ret (Some (r, x)) \<and> (\<forall>y. okey y = pm \<longrightarrow>
     levels_wf (levels_write ls r y) \<and> (no_empty_level ls \<longrightarrow> no_empty_level (levels_write ls r y)) \<and>
     orders_of (levels_write ls r y) = map (\<lambda>z. if okey z = pm then y else z) (orders_of ls) \<and>
     orders_of (rev (levels_write ls r y)) = map (\<lambda>z. if okey z = pm then y else z) (orders_of (rev ls)) \<and>
     next_memo (levels_write ls r y) = next_memo ls)"
proof -
  obtain p m where pm: "pm = (p, m)" by force
  from assms(1) show ?thesis
  proof (cases rule: side_cases [where p = p])
    case (found as lv bs)
    note prices = level_orders_price [OF found(3,4)]
    have x: "find (\<lambda>x. memo x = m) (level_orders lv) = Some x"
      using assms(2) filter_okey_split(3) [OF found(5,6), of "level_orders lv" m] prices
      by (simp add: found(2) pm)
    then obtain j where j: "find_index (\<lambda>x. memo x = m) (level_orders lv) = Some j"
      by (metis find_Some_mem find_index_None_iff option.exhaust)
    have xj: "j < length (level_orders lv)" "level_orders lv ! j = x"
      using x find_index_SomeD [OF j] by (auto simp: find_Some_iff) (metis linorder_neqE_nat)
    have run: "levels_get_mut ls pm = Ret (Some ((length as, j), x))"
      using found(1-3) j xj by (simp add: levels_get_mut_def pm vec_get_def find_slot_wf)
        (simp add: level_wf_inner [OF found(3)])
    with levels_write_middle [OF found(3-6) j] show ?thesis by (auto simp: found(2) pm)
  next
    case (missing as bs)
    with filter_okey_split(3) [OF missing(3,4), of "[]" m] assms(2) show ?thesis by (simp add: pm)
  qed
qed

end
