(* ===== verification/Book_Store.thy ===== *)
theory Book_Store
  imports Orderbook
begin

text \<open>
  The order book as the matching engine sees it: two queues of orders, each best first. The
  locale \<open>order_store\<close> states what lookup, removal and update in place mean for the queues;
  the book's operations are shown to provide it, and iteration (\<open>iter_rel\<close>), insertion
  (\<open>push_bid\<close>, \<open>push_ask\<close>) and the price-time order of the queues are lemmas on them.
\<close>

section \<open>The contract of a store of orders\<close>

definition ix_key :: "OrderIndex \<Rightarrow> NonZeroU32 \<times> u32" where
  "ix_key ix = (ix_price ix, ix_memo ix)"

lemma ix_key_index_of [simp]: "ix_key (index_of s x) = okey x" "ix_side (index_of s x) = s"
  by (simp_all add: ix_key_def index_of_def okey_def)

locale order_store =
  fixes wf :: "'b \<Rightarrow> bool"
    and queue :: "'b \<Rightarrow> OrderSide \<Rightarrow> Order list"
    and bounded :: "nat \<Rightarrow> 'b \<Rightarrow> bool"
    and lookup :: "'b \<Rightarrow> OrderIndex \<Rightarrow> ('r \<times> Order) option run"
    and delete :: "'b \<Rightarrow> OrderIndex \<Rightarrow> ('b \<times> Order option) run"
    and store :: "'b \<Rightarrow> 'r \<Rightarrow> Order \<Rightarrow> 'b"
  assumes keys_distinct: "wf b \<Longrightarrow> distinct (map okey (queue b s))"
    and lookup_None: "wf b \<Longrightarrow> find (\<lambda>x. okey x = ix_key ix) (queue b (ix_side ix)) = None \<Longrightarrow>
      lookup b ix = Ret None"
    and lookup_Some: "wf b \<Longrightarrow> find (\<lambda>x. okey x = ix_key ix) (queue b (ix_side ix)) = Some x \<Longrightarrow>
      \<exists>r. lookup b ix = Ret (Some (r, x)) \<and>
        (\<forall>y. okey y = ix_key ix \<longrightarrow> wf (store b r y) \<and> (\<forall>n. bounded n b \<longrightarrow> bounded n (store b r y)) \<and>
           queue (store b r y) = (queue b)(ix_side ix :=
             map (\<lambda>z. if okey z = ix_key ix then y else z) (queue b (ix_side ix))))"
    and delete_law: "wf b \<Longrightarrow>
      \<exists>b'. delete b ix = Ret (b', find (\<lambda>x. okey x = ix_key ix) (queue b (ix_side ix))) \<and>
        wf b' \<and> (\<forall>n. bounded n b \<longrightarrow> bounded n b') \<and>
        queue b' = (queue b)(ix_side ix := filter (\<lambda>x. okey x \<noteq> ix_key ix) (queue b (ix_side ix)))"
begin

lemma find_mem: "wf b \<Longrightarrow> x \<in> set (queue b s) \<Longrightarrow> find (\<lambda>z. okey z = okey x) (queue b s) = Some x"
  by (rule find_distinct_key [OF keys_distinct])

lemma lookup_mem:
  assumes "wf b" and "x \<in> set (queue b s)"
  shows "\<exists>r. lookup b (index_of s x) = Ret (Some (r, x))"
  using lookup_Some [OF assms(1), of "index_of s x" x] find_mem [OF assms] by auto

lemma lookup_total:
  assumes "wf b"
  shows "returns (lookup b ix)"
  using lookup_None [OF assms, of ix] lookup_Some [OF assms, of ix]
  by (cases "find (\<lambda>x. okey x = ix_key ix) (queue b (ix_side ix))") auto

lemma delete_head:
  assumes "wf b" and "queue b s = x # ys"
  shows "\<exists>b'. delete b (index_of s x) = Ret (b', Some x) \<and> wf b' \<and> (\<forall>n. bounded n b \<longrightarrow> bounded n b') \<and>
      queue b' = (queue b)(s := ys)"
proof -
  from keys_distinct [OF assms(1), of s] assms(2) have "okey x \<notin> okey ` set ys" by simp
  then have "filter (\<lambda>z. okey z \<noteq> okey x) (queue b s) = ys"
    using assms(2) by (simp add: filter_key_notin)
  with delete_law [OF assms(1), of "index_of s x"] assms(2) show ?thesis by simp
qed

lemma update_head:
  assumes "wf b" and "queue b s = x # ys" and "okey y = okey x"
  shows "\<exists>r. lookup b (index_of s x) = Ret (Some (r, x)) \<and> wf (store b r y) \<and>
      (\<forall>n. bounded n b \<longrightarrow> bounded n (store b r y)) \<and> queue (store b r y) = (queue b)(s := y # ys)"
proof -
  from keys_distinct [OF assms(1), of s] assms(2) have "okey x \<notin> okey ` set ys" by simp
  then have "map (\<lambda>z. if okey z = okey x then y else z) (queue b s) = y # ys"
    using assms(2) by (simp add: map_key_notin)
  with lookup_Some [OF assms(1), of "index_of s x" x] assms(2,3) show ?thesis by auto
qed

lemma delete_missing:
  assumes "wf b" and "\<forall>x\<in>set (queue b (ix_side ix)). okey x \<noteq> ix_key ix"
  shows "\<exists>b'. delete b ix = Ret (b', None) \<and> wf b' \<and> queue b' = queue b"
proof -
  have "find (\<lambda>x. okey x = ix_key ix) (queue b (ix_side ix)) = None"
    "filter (\<lambda>x. okey x \<noteq> ix_key ix) (queue b (ix_side ix)) = queue b (ix_side ix)"
    using assms(2) by (auto simp: find_None_iff filter_id_conv)
  with delete_law [OF assms(1), of ix] show ?thesis by auto
qed

end

section \<open>The book provides the contract\<close>

text \<open>No price level has handed out more than \<open>n\<close> sequence numbers.\<close>

definition memo_bound :: "nat \<Rightarrow> Orderbook \<Rightarrow> bool" where
  "memo_bound n ob \<longleftrightarrow> (\<forall>s p. unat (next_memo (side_levels ob s) p) \<le> n)"

text \<open>\<open>x\<close> is served before \<open>y\<close>: a better price, or the same price and earlier.\<close>

definition outranks :: "OrderSide \<Rightarrow> Order \<Rightarrow> Order \<Rightarrow> bool" where
  "outranks s x y \<longleftrightarrow>
     (case s of Buy \<Rightarrow> price y < price x | Sell \<Rightarrow> price x < price y) \<or> price x = price y \<and> memo x < memo y"

lemma side_simps [simp]:
  "side_orders ob Buy = orders_of (rev (bids ob))" "side_orders ob Sell = orders_of (asks ob)"
  "side_levels ob Buy = bids ob" "side_levels ob Sell = asks ob"
  by (simp_all add: side_orders_def side_levels_def)

lemma level_outranks:
  assumes "level_wf lv"
  shows "sorted_wrt (outranks s) (level_orders lv)"
proof -
  have memos: "sorted_wrt (\<lambda>x y. memo x < memo y) (level_orders lv)"
    using assms by (simp add: level_wf_def sorted_wrt_map)
  have same: "price x = price y" if "x \<in> set (level_orders lv)" "y \<in> set (level_orders lv)" for x y
    using assms that by (metis level_wf_def nz_get_eq_iff)
  from memos show ?thesis
    by (rule sorted_wrt_mono_rel [rotated]) (metis outranks_def same)
qed

lemma orders_of_asc: "levels_wf ls \<Longrightarrow> sorted_wrt (outranks Sell) (orders_of ls)"
proof (induction ls)
  case (Cons lv ls)
  then have wf: "level_wf lv" "levels_wf ls" "\<forall>b\<in>set ls. level_price lv < level_price b"
    by (simp_all add: levels_wf_Cons)
  have "outranks Sell x y" if "x \<in> set (level_orders lv)" "y \<in> set (orders_of ls)" for x y
    using that wf levels_wf_price [OF wf(2), of y] by (auto simp: outranks_def level_wf_def nz_less_iff)
  with Cons.IH [OF wf(2)] level_outranks [OF wf(1)] show ?case
    by (simp add: sorted_wrt_append)
qed simp

lemma orders_of_desc: "levels_wf ls \<Longrightarrow> sorted_wrt (outranks Buy) (orders_of (rev ls))"
proof (induction ls)
  case (Cons lv ls)
  then have wf: "level_wf lv" "levels_wf ls" "\<forall>b\<in>set ls. level_price lv < level_price b"
    by (simp_all add: levels_wf_Cons)
  have "outranks Buy y x" if "x \<in> set (level_orders lv)" "y \<in> set (orders_of ls)" for x y
    using that wf levels_wf_price [OF wf(2), of y] by (auto simp: outranks_def level_wf_def nz_less_iff)
  with Cons.IH [OF wf(2)] level_outranks [OF wf(1)] show ?case
    by (simp add: sorted_wrt_append)
qed simp

lemma side_orders_outranks: "book_wf ob \<Longrightarrow> sorted_wrt (outranks s) (side_orders ob s)"
  by (cases s) (simp_all add: book_wf_def orders_of_asc orders_of_desc)

lemma outranks_distinct: "sorted_wrt (outranks s) xs \<Longrightarrow> distinct (map okey xs)"
  unfolding distinct_map_sorted_wrt
  by (erule sorted_wrt_mono_rel [rotated]) (auto simp: outranks_def okey_def split: OrderSide.splits)

lemma side_orders_distinct: "book_wf ob \<Longrightarrow> distinct (map okey (side_orders ob s))"
  by (rule outranks_distinct [OF side_orders_outranks])

lemma find_orders_rev:
  assumes "levels_wf ls"
  shows "find (\<lambda>x. okey x = k) (orders_of (rev ls)) = find (\<lambda>x. okey x = k) (orders_of ls)"
proof (cases "find (\<lambda>x. okey x = k) (orders_of ls)")
  case None
  then have "find (\<lambda>x. okey x = k) (orders_of (rev ls)) = None" by (simp add: find_None_iff)
  with None show ?thesis by simp
next
  case (Some x)
  with find_Some_mem [OF Some] show ?thesis
    using find_distinct_key [OF outranks_distinct [OF orders_of_desc [OF assms]], of x] by auto
qed

lemma memo_bound_update:
  assumes "memo_bound n ob" and "\<forall>p. unat (next_memo ls p) \<le> n"
  shows "memo_bound n (ob\<lparr>bids := ls\<rparr>)" and "memo_bound n (ob\<lparr>asks := ls\<rparr>)"
proof -
  have "unat (next_memo (side_levels (ob\<lparr>bids := ls\<rparr>) s) p) \<le> n"
    "unat (next_memo (side_levels (ob\<lparr>asks := ls\<rparr>) s) p) \<le> n" for s p
    using assms by (cases s; simp add: memo_bound_def; metis side_simps(3,4))+
  then show "memo_bound n (ob\<lparr>bids := ls\<rparr>)" and "memo_bound n (ob\<lparr>asks := ls\<rparr>)"
    by (simp_all add: memo_bound_def)
qed

lemma memo_boundD: "memo_bound n ob \<Longrightarrow> unat (next_memo (bids ob) p) \<le> n"
  "memo_bound n ob \<Longrightarrow> unat (next_memo (asks ob) p) \<le> n"
  unfolding memo_bound_def by (metis side_simps(3), metis side_simps(4))

lemma side_orders_update:
  "side_orders (ob\<lparr>bids := ls\<rparr>) = (side_orders ob)(Buy := orders_of (rev ls))"
  "side_orders (ob\<lparr>asks := ls\<rparr>) = (side_orders ob)(Sell := orders_of ls)"
  by (auto simp: fun_eq_iff side_orders_def split: OrderSide.splits)

lemma remove_law:
  assumes "book_wf ob"
  shows "\<exists>ob'. remove ob ix = Ret (ob', find (\<lambda>x. okey x = ix_key ix) (side_orders ob (ix_side ix))) \<and>
     book_wf ob' \<and> (\<forall>n. memo_bound n ob \<longrightarrow> memo_bound n ob') \<and>
     side_orders ob' = (side_orders ob)(ix_side ix :=
       filter (\<lambda>x. okey x \<noteq> ix_key ix) (side_orders ob (ix_side ix)))"
proof (cases "ix_side ix")
  case Buy
  from assms have wf: "levels_wf (bids ob)" by (simp add: book_wf_def)
  from remove_order_from_level_wf [OF wf, of "ix_key ix"] obtain ls where
    ls: "remove_order_from_level (bids ob) (ix_key ix) =
           Ret (ls, find (\<lambda>x. okey x = ix_key ix) (orders_of (rev (bids ob))))"
      "levels_wf ls" "no_empty_level (bids ob) \<longrightarrow> no_empty_level ls"
      "orders_of (rev ls) = filter (\<lambda>x. okey x \<noteq> ix_key ix) (orders_of (rev (bids ob)))"
      "\<forall>q. next_memo ls q = next_memo (bids ob) q \<or> next_memo ls q = 0"
    by (auto simp: find_orders_rev [OF wf])
  have "memo_bound n (ob\<lparr>bids := ls\<rparr>)" if "memo_bound n ob" for n
    using that ls(5) memo_boundD(1) [OF that] by (intro memo_bound_update) (metis unat_0 le0)+
  with ls assms show ?thesis
    by (simp add: remove_def Buy ix_key_def book_wf_def side_orders_update)
next
  case Sell
  from assms have wf: "levels_wf (asks ob)" by (simp add: book_wf_def)
  from remove_order_from_level_wf [OF wf, of "ix_key ix"] obtain ls where
    ls: "remove_order_from_level (asks ob) (ix_key ix) =
           Ret (ls, find (\<lambda>x. okey x = ix_key ix) (orders_of (asks ob)))"
      "levels_wf ls" "no_empty_level (asks ob) \<longrightarrow> no_empty_level ls"
      "orders_of ls = filter (\<lambda>x. okey x \<noteq> ix_key ix) (orders_of (asks ob))"
      "\<forall>q. next_memo ls q = next_memo (asks ob) q \<or> next_memo ls q = 0"
    by auto
  have "memo_bound n (ob\<lparr>asks := ls\<rparr>)" if "memo_bound n ob" for n
    using that ls(5) memo_boundD(2) [OF that] by (intro memo_bound_update) (metis unat_0 le0)+
  with ls assms show ?thesis
    by (simp add: remove_def Sell ix_key_def book_wf_def side_orders_update)
qed

lemma get_mut_None:
  assumes "book_wf ob" and "find (\<lambda>x. okey x = ix_key ix) (side_orders ob (ix_side ix)) = None"
  shows "get_mut ob ix = Ret None"
proof -
  from assms have "levels_get_mut (side_levels ob (ix_side ix)) (ix_key ix) = Ret None"
    by (cases "ix_side ix") (auto simp: book_wf_def find_orders_rev intro!: levels_get_mut_None)
  then show ?thesis by (simp add: get_mut_def side_levels_def ix_key_def)
qed

lemma get_mut_Some:
  assumes "book_wf ob" and "find (\<lambda>x. okey x = ix_key ix) (side_orders ob (ix_side ix)) = Some x"
  shows "\<exists>r. get_mut ob ix = Ret (Some (r, x)) \<and>
     (\<forall>y. okey y = ix_key ix \<longrightarrow> book_wf (write_order ob r y) \<and>
        (\<forall>n. memo_bound n ob \<longrightarrow> memo_bound n (write_order ob r y)) \<and>
        side_orders (write_order ob r y) = (side_orders ob)(ix_side ix :=
          map (\<lambda>z. if okey z = ix_key ix then y else z) (side_orders ob (ix_side ix))))"
proof -
  let ?ls = "side_levels ob (ix_side ix)"
  have wf: "levels_wf ?ls" and found: "find (\<lambda>x. okey x = ix_key ix) (orders_of ?ls) = Some x"
    using assms by (cases "ix_side ix"; simp add: book_wf_def find_orders_rev)+
  from levels_get_mut_Some [OF wf found] obtain r where
    r: "levels_get_mut ?ls (ix_key ix) = Ret (Some (r, x))"
    and w: "\<And>y. okey y = ix_key ix \<Longrightarrow> levels_wf (levels_write ?ls r y) \<and>
      (no_empty_level ?ls \<longrightarrow> no_empty_level (levels_write ?ls r y)) \<and>
      orders_of (levels_write ?ls r y) = map (\<lambda>z. if okey z = ix_key ix then y else z) (orders_of ?ls) \<and>
      orders_of (rev (levels_write ?ls r y)) =
        map (\<lambda>z. if okey z = ix_key ix then y else z) (orders_of (rev ?ls)) \<and>
      next_memo (levels_write ?ls r y) = next_memo ?ls" by blast
  have "get_mut ob ix = Ret (Some ((ix_side ix, r), x))"
    using r by (simp add: get_mut_def side_levels_def ix_key_def)
  moreover have "book_wf (write_order ob (ix_side ix, r) y) \<and>
        (\<forall>n. memo_bound n ob \<longrightarrow> memo_bound n (write_order ob (ix_side ix, r) y)) \<and>
        side_orders (write_order ob (ix_side ix, r) y) = (side_orders ob)(ix_side ix :=
          map (\<lambda>z. if okey z = ix_key ix then y else z) (side_orders ob (ix_side ix)))"
    if "okey y = ix_key ix" for y
    using w [OF that] assms(1)
    by (cases "ix_side ix")
      (auto simp: write_order_def book_wf_def side_orders_update intro!: memo_bound_update dest: memo_boundD)
  ultimately show ?thesis by blast
qed

interpretation book: order_store book_wf side_orders memo_bound get_mut remove write_order
proof
  show "distinct (map okey (side_orders b s))" if "book_wf b" for b s
    using that by (rule side_orders_distinct)
qed (blast intro: get_mut_None get_mut_Some remove_law)+

section \<open>Iteration and insertion\<close>

text \<open>The two halves of \<open>match side { Buy => push_bid, Sell => push_ask }\<close>, and what both do.\<close>

definition push_side :: "bool \<Rightarrow> Orderbook \<Rightarrow> OrderSide \<Rightarrow> Order \<Rightarrow> (Orderbook \<times> OrderIndex) run" where
  "push_side oc ob side t = (case side of Buy \<Rightarrow> push_bid oc ob t | Sell \<Rightarrow> push_ask oc ob t)"

definition insert_side :: "OrderSide \<Rightarrow> Order \<Rightarrow> Order list \<Rightarrow> Order list" where
  "insert_side side = (case side of Buy \<Rightarrow> insert_desc | Sell \<Rightarrow> insert_asc)"

lemma wrap_iter_wf:
  "\<forall>lv\<in>set lvs. level_wf lv \<Longrightarrow> wrap_iter s lvs = map (\<lambda>x. Ret (index_of s x, x)) (orders_of lvs)"
proof (induction lvs)
  case (Cons lv lvs)
  then show ?case by (auto simp: wrap_iter_def level_iter_wf index_of_def)
qed (simp add: wrap_iter_def)

lemma iter_rel_wf: "book_wf ob \<Longrightarrow> iter_rel ob s = map (\<lambda>x. Ret (index_of s x, x)) (side_orders ob s)"
  by (cases s) (simp_all add: iter_rel_def iter_inner_def iter_inner_rev_def wrap_iter_wf wf_simps)

lemma push_law:
  assumes "book_wf ob" and "next_memo (side_levels ob s) (price t) \<noteq> u32_MAX"
  defines "t' \<equiv> t\<lparr>memo := next_memo (side_levels ob s) (price t)\<rparr>"
  shows "\<exists>ob'. push_side oc ob s t = Ret (ob', index_of s t') \<and> book_wf ob' \<and>
     side_orders ob' = (side_orders ob)(s := insert_side s t' (side_orders ob s)) \<and>
     (\<forall>n. memo_bound n ob \<longrightarrow> memo_bound (Suc n) ob')"
proof -
  let ?ls = "side_levels ob s"
  have wf: "levels_wf ?ls" using assms(1) by (cases s) (simp_all add: book_wf_def)
  from push_order_to_level_wf [OF wf assms(2), of oc] obtain ls where
    ls: "push_order_to_level oc ?ls t = Ret (ls, (price t, memo t'))" "levels_wf ls"
      "no_empty_level ?ls \<longrightarrow> no_empty_level ls" "orders_of ls = insert_asc t' (orders_of ?ls)"
      "orders_of (rev ls) = insert_desc t' (orders_of (rev ?ls))"
      "next_memo ls = (next_memo ?ls)(price t := memo t' + 1)"
    by (auto simp: t'_def)
  have bound: "unat (next_memo ls p) \<le> Suc n" if "memo_bound n ob" for n p
  proof -
    have le: "unat (next_memo ?ls q) \<le> n" for q using that by (simp add: memo_bound_def)
    from le [of p] le [of "price t"] unat_Suc_u32 [OF assms(2)] show ?thesis
      by (simp add: ls(6) t'_def)
  qed
  have mono: "memo_bound n ob \<Longrightarrow> memo_bound (Suc n) ob" for n
    by (auto simp: memo_bound_def intro: le_SucI)
  show ?thesis
  proof (cases s)
    case Buy
    with ls assms(1) show ?thesis
      by (auto simp: push_side_def push_bid_def index_of_def book_wf_def side_orders_update insert_side_def t'_def
          intro!: memo_bound_update mono bound)
  next
    case Sell
    with ls assms(1) show ?thesis
      by (auto simp: push_side_def push_ask_def index_of_def book_wf_def side_orders_update insert_side_def t'_def
          intro!: memo_bound_update mono bound)
  qed
qed

lemma book_wf_new: "book_wf Orderbook_new" "side_orders Orderbook_new = (\<lambda>_. [])" "memo_bound 0 Orderbook_new"
  by (auto simp: Orderbook_new_def wf_simps no_empty_level_def fun_eq_iff side_orders_def memo_bound_def
      side_levels_def next_memo_def split: OrderSide.splits)

lemma memo_bound_next: "memo_bound n ob \<Longrightarrow> n < 2 ^ 32 - 1 \<Longrightarrow> next_memo (side_levels ob s) p \<noteq> u32_MAX"
  using unat_less_u32_MAX [of "next_memo (side_levels ob s) p"] unfolding memo_bound_def
  by (metis order.strict_trans1)

declare side_simps [simp del]

text \<open>A concrete book: one bid at 90, two asks at 100 and one at 110.\<close>

definition sample_book :: Orderbook where
  "sample_book =
     \<lparr>bids = [\<lparr>level_price = 90, memo_seq = 1, inner = [Some \<lparr>memo = 0, quantity = nz 5, price = nz 90\<rparr>]\<rparr>],
      asks = [\<lparr>level_price = 100, memo_seq = 2,
               inner = [Some \<lparr>memo = 0, quantity = nz 30, price = nz 100\<rparr>, Some \<lparr>memo = 1, quantity = nz 20, price = nz 100\<rparr>]\<rparr>,
              \<lparr>level_price = 110, memo_seq = 1, inner = [Some \<lparr>memo = 0, quantity = nz 50, price = nz 110\<rparr>]\<rparr>]\<rparr>"

lemma sample_book_wf: "book_wf sample_book"
  by (simp add: sample_book_def wf_simps no_empty_level_def level_orders_def)

lemma sample_book_orders:
  "side_orders sample_book Sell = [\<lparr>memo = 0, quantity = nz 30, price = nz 100\<rparr>,
     \<lparr>memo = 1, quantity = nz 20, price = nz 100\<rparr>, \<lparr>memo = 0, quantity = nz 50, price = nz 110\<rparr>]"
  "side_orders sample_book Buy = [\<lparr>memo = 0, quantity = nz 5, price = nz 90\<rparr>]"
  by (simp_all add: sample_book_def side_orders_def level_orders_def)

section \<open>Properties\<close>

text \<open>C28: iterating a side of a well-formed book never panics and yields every resting order of that side exactly once
  under the index that identifies it, strictly in price-time priority: bids from the highest price, asks from the
  lowest, and by age within a price.\<close>

theorem iter_rel_price_time:
  assumes "book_wf ob"
  shows "iter_rel ob s = map (\<lambda>x. Ret (index_of s x, x)) (side_orders ob s) \<and>
    sorted_wrt (outranks s) (side_orders ob s) \<and> distinct (map (index_of s) (side_orders ob s))"
proof -
  have "inj_on (index_of s) (set xs)" if "distinct (map okey xs)" for xs
    using that by (auto simp: inj_on_def distinct_map okey_def index_of_def)
  with side_orders_distinct [OF assms, of s] have "distinct (map (index_of s) (side_orders ob s))"
    by (auto simp: distinct_map)
  with assms show ?thesis by (simp add: iter_rel_wf side_orders_outranks)
qed

theorem iter_rel_price_time_witness:
  "book_wf sample_book \<and>
   iter_rel sample_book Sell = map (\<lambda>x. Ret (index_of Sell x, x)) (side_orders sample_book Sell) \<and>
   length (side_orders sample_book Sell) = 3"
  using iter_rel_price_time [OF sample_book_wf, of Sell] sample_book_wf by (simp add: sample_book_orders)

text \<open>C27: adding an order to a book with room for a sequence number does not panic, keeps the book well formed, leaves
  the other side alone and queues the order behind every order with an equal or better price and before every worse one; the
  index it returns finds the order, with its quantity and price.\<close>

theorem push_side_queues_behind_equals:
  assumes "book_wf ob" and "next_memo (side_levels ob s) (price t) \<noteq> u32_MAX"
  shows "\<exists>ob' ix t' r xs ys. (case s of Buy \<Rightarrow> push_bid oc ob t | Sell \<Rightarrow> push_ask oc ob t) = Ret (ob', ix) \<and>
    book_wf ob' \<and> get_mut ob' ix = Ret (Some (r, t')) \<and> price t' = price t \<and> quantity t' = quantity t \<and>
    side_orders ob s = xs @ ys \<and> side_orders ob' s = xs @ t' # ys \<and>
    (\<forall>x\<in>set xs. \<not> (case s of Buy \<Rightarrow> price x < price t | Sell \<Rightarrow> price t < price x)) \<and>
    (\<forall>y\<in>set ys. case s of Buy \<Rightarrow> price y < price t | Sell \<Rightarrow> price t < price y) \<and>
    (\<forall>s'. s' \<noteq> s \<longrightarrow> side_orders ob' s' = side_orders ob s')"
proof -
  let ?t = "t\<lparr>memo := next_memo (side_levels ob s) (price t)\<rparr>"
  let ?P = "\<lambda>x. case s of Buy \<Rightarrow> price x < price t | Sell \<Rightarrow> price t < price x"
  from push_law [OF assms, of oc] obtain ob' where
    ob': "push_side oc ob s t = Ret (ob', index_of s ?t)" "book_wf ob'"
      "side_orders ob' = (side_orders ob)(s := insert_side s ?t (side_orders ob s))" by blast
  have ins: "insert_side s ?t q = filter (\<lambda>x. \<not> ?P x) q @ ?t # filter ?P q" for q
    by (cases s) (simp_all add: insert_side_def insert_asc_def insert_desc_def not_less)
  have sorted: "sorted_wrt (\<lambda>x y. ?P x \<longrightarrow> ?P y) (side_orders ob s)"
    by (rule sorted_wrt_mono_rel [OF _ side_orders_outranks [OF assms(1)]]) (cases s; auto simp: outranks_def)
  have split: "filter (\<lambda>x. \<not> ?P x) q @ filter ?P q = q" if "sorted_wrt (\<lambda>x y. ?P x \<longrightarrow> ?P y) q" for q
    using that
  proof (induction q)
    case (Cons x q)
    then show ?case by (cases "?P x") (auto simp: filter_id_conv filter_empty_conv)
  qed simp
  have "?t \<in> set (side_orders ob' s)" by (simp add: ob'(3) ins)
  from book.lookup_mem [OF ob'(2) this] obtain r where "get_mut ob' (index_of s ?t) = Ret (Some (r, ?t))" by blast
  with ob' split [OF sorted] show ?thesis
    by (intro exI [of _ ob'] exI [of _ "index_of s ?t"] exI [of _ ?t] exI [of _ r]
        exI [of _ "filter (\<lambda>x. \<not> ?P x) (side_orders ob s)"] exI [of _ "filter ?P (side_orders ob s)"])
      (simp add: push_side_def ins)
qed

theorem push_side_queues_behind_equals_witness:
  "\<exists>ob' ix t' xs ys. push_ask True sample_book \<lparr>memo = 7, quantity = nz 4, price = nz 100\<rparr> = Ret (ob', ix) \<and> book_wf ob' \<and>
     side_orders sample_book Sell = xs @ ys \<and> side_orders ob' Sell = xs @ t' # ys"
proof -
  have "next_memo (side_levels sample_book Sell) (price \<lparr>memo = 7, quantity = nz 4, price = nz 100\<rparr>) \<noteq> u32_MAX"
    by (simp add: next_memo_def side_levels_def sample_book_def u32_MAX_def)
  from push_side_queues_behind_equals [OF sample_book_wf this, of True] show ?thesis by auto
qed

text \<open>Removing by index from a well-formed book does not panic and removes exactly the order with that side, price
  and sequence number, which it returns; the book stays well formed, every other order keeps its place, and an
  index that names no order returns \<open>None\<close> and leaves the orders alone.\<close>

lemma remove_exact:
  assumes "book_wf ob"
  shows "\<exists>ob' res. remove ob ix = Ret (ob', res) \<and> book_wf ob' \<and>
    side_orders ob' (ix_side ix) = filter (\<lambda>x. index_of (ix_side ix) x \<noteq> ix) (side_orders ob (ix_side ix)) \<and>
    (\<forall>s. s \<noteq> ix_side ix \<longrightarrow> side_orders ob' s = side_orders ob s) \<and>
    (case res of Some x \<Rightarrow> x \<in> set (side_orders ob (ix_side ix)) \<and> index_of (ix_side ix) x = ix
     | None \<Rightarrow> \<forall>x\<in>set (side_orders ob (ix_side ix)). index_of (ix_side ix) x \<noteq> ix)"
proof -
  have key: "okey x = ix_key ix \<longleftrightarrow> index_of (ix_side ix) x = ix" for x
    by (cases ix) (auto simp: okey_def ix_key_def index_of_def)
  from remove_law [OF assms, of ix] obtain ob' where
    "remove ob ix = Ret (ob', find (\<lambda>x. index_of (ix_side ix) x = ix) (side_orders ob (ix_side ix)))" "book_wf ob'"
    "side_orders ob' = (side_orders ob)(ix_side ix := filter (\<lambda>x. index_of (ix_side ix) x \<noteq> ix) (side_orders ob (ix_side ix)))"
    by (auto simp: key)
  then show ?thesis by (auto simp: find_None_iff dest: find_Some_mem split: option.splits)
qed

lemma remove_exact_witness:
  "\<exists>ob' res. remove sample_book \<lparr>ix_side = Sell, ix_price = nz 100, ix_memo = 1\<rparr> = Ret (ob', res) \<and> book_wf ob' \<and>
     length (side_orders ob' Sell) = 2"
proof -
  let ?ix = "\<lparr>ix_side = Sell, ix_price = nz 100, ix_memo = 1\<rparr>"
  have "length (filter (\<lambda>x. index_of Sell x \<noteq> ?ix) (side_orders sample_book Sell)) = 2"
    by (simp add: sample_book_orders index_of_def)
  with remove_exact [OF sample_book_wf, of ?ix] show ?thesis by auto
qed

text \<open>The sequence counter of a level is bounded. The \<open>2^32\<close>-th order of a level panics when overflow checks are
  on; when they are off the counter wraps to zero and the next order is handed a number that may already be in use.\<close>

lemma push_order_counter_overflow:
  assumes "level_price lv \<noteq> 0" and "memo_seq lv = u32_MAX"
  shows "push_order True lv t = Panic ArithOverflow \<and>
    (\<exists>lv'. push_order False lv t = Ret (lv', (nz (level_price lv), u32_MAX)) \<and> memo_seq lv' = 0 \<and>
      (\<forall>oc t2. \<exists>lv''. push_order oc lv' t2 = Ret (lv'', (nz (level_price lv), 0))))"
proof -
  have "add_u32 oc 0 1 = Ret 1" for oc by (simp add: add_u32_def)
  with assms show ?thesis by (simp add: push_order_def add_u32_one_max Let_def)
qed

lemma push_order_counter_overflow_witness:
  "push_order True \<lparr>level_price = 5, memo_seq = u32_MAX, inner = []\<rparr> \<lparr>memo = 0, quantity = nz 1, price = nz 5\<rparr> = Panic ArithOverflow"
  using push_order_counter_overflow [of "\<lparr>level_price = 5, memo_seq = u32_MAX, inner = []\<rparr>"] by simp

text \<open>An index can be reused. When the only order of a price is removed, its level disappears with its counter, so
  that the next order at that price gets the very index the removed order had.\<close>

theorem removed_index_is_reused:
  assumes "price t2 = price t1"
  shows "\<exists>ob1 ob2 ix. push_side oc Orderbook_new s t1 = Ret (ob1, ix) \<and>
    remove ob1 ix = Ret (Orderbook_new, Some (t1\<lparr>memo := 0\<rparr>)) \<and>
    push_side oc Orderbook_new s t2 = Ret (ob2, ix) \<and> ix_memo ix = 0"
proof -
  have one: "binary_search_by_key k level_price [lv] = Ok 0" if "level_price lv = k" for k and lv :: PriceLevel
    using that bs.found_unique [of level_price "[lv]" 0 k] by simp
  have none: "binary_search_by_key k level_price ([] :: PriceLevel list) = Err 0" for k
    by (simp add: binary_search_by_key_def bs_loop.simps)
  let ?lv = "\<lambda>t. \<lparr>level_price = nz_get (price t), memo_seq = 1, inner = [Some (t\<lparr>memo := 0\<rparr>)]\<rparr>"
  have push: "push_order_to_level oc [] t = Ret ([?lv t], (price t, 0))" for t
    by (simp add: push_order_to_level_def none push_order_def add_u32_def vec_insert_def Let_def)
  have "remove_order_from_level [?lv t1] (price t1, 0) = Ret ([], Some (t1\<lparr>memo := 0\<rparr>))"
    by (simp add: remove_order_from_level_def one vec_get_def remove_order_def level_iter_def vec_remove_def Let_def)
  with assms push show ?thesis
    by (cases s) (simp_all add: push_side_def push_bid_def push_ask_def remove_def Orderbook_new_def)
qed

theorem removed_index_is_reused_witness:
  "\<exists>ob1 ob2 ix. push_side True Orderbook_new Buy \<lparr>memo = 0, quantity = nz 3, price = nz 7\<rparr> = Ret (ob1, ix) \<and>
     push_side True Orderbook_new Buy \<lparr>memo = 0, quantity = nz 9, price = nz 7\<rparr> = Ret (ob2, ix)"
  using removed_index_is_reused [of "\<lparr>memo = 0, quantity = nz 9, price = nz 7\<rparr>" "\<lparr>memo = 0, quantity = nz 3, price = nz 7\<rparr>" True Buy]
  by auto

end
