(* ===== verification/Pending_Fill.thy ===== *)
theory Pending_Fill
  imports Book_Store
begin

text \<open>
  Pending fills (\<open>trading/pending_fill.rs\<close>): the record a matching pass produces and its
  \<open>commit\<close> on the book. A fill list is judged against the queue of the maker side: \<open>fill_list\<close>
  is what taking \<open>r\<close> units from the front of a queue amounts to, \<open>consume\<close> is the queue that is
  left, and \<open>commit_loop_fill_list\<close> shows that committing the one yields the other.
\<close>

section \<open>Data\<close>

datatype ExecutePendingFillError = InvalidOrderIndex OrderIndex

datatype FillType = FillComplete | FillPartial | FillNone

record MakerFill =
  oix :: OrderIndex
  maker :: Order
  fill_type :: FillType
  fill_amount :: u32

record PendingFill =
  pf_orderbook :: Orderbook
  pf_taker :: Order
  pf_side :: OrderSide
  pf_order_type :: OrderType
  pf_maker_fills :: "MakerFill list"
  pf_taker_fill_outcome :: FillType

definition PendingFill_new ::
  "Orderbook \<Rightarrow> Order \<Rightarrow> OrderSide \<Rightarrow> OrderType \<Rightarrow> MakerFill list \<Rightarrow> FillType \<Rightarrow> PendingFill" where
  "PendingFill_new ob t s ty fs out =
     \<lparr>pf_orderbook = ob, pf_taker = t, pf_side = s, pf_order_type = ty, pf_maker_fills = fs,
      pf_taker_fill_outcome = out\<rparr>"

definition taker_side :: "PendingFill \<Rightarrow> OrderSide" where
  "taker_side pf = pf_side pf"

definition taker_order_type :: "PendingFill \<Rightarrow> OrderType" where
  "taker_order_type pf = pf_order_type pf"

definition taker_fill_outcome :: "PendingFill \<Rightarrow> FillType" where
  "taker_fill_outcome pf = pf_taker_fill_outcome pf"

section \<open>Abort and commit\<close>

text \<open>Dropping a pending fill releases the borrowed book as it is.\<close>

definition abort :: "PendingFill \<Rightarrow> Orderbook" where
  "abort pf = pf_orderbook pf"

text \<open>The first loop of \<open>commit\<close>: the first index that is not in the book, if any.\<close>

fun commit_check :: "Orderbook \<Rightarrow> MakerFill list \<Rightarrow> OrderIndex option run" where
  "commit_check ob [] = Ret None"
| "commit_check ob (f # fs) =
     bind_run (get_mut ob (oix f)) (\<lambda>r.
     case r of
       None \<Rightarrow> Ret (Some (oix f))
     | Some _ \<Rightarrow> commit_check ob fs)"

text \<open>
  The second loop, on the book and the taker's remaining quantity. A failing \<open>?\<close> leaves the
  loop with the book as modified so far.
\<close>

fun commit_loop :: "bool \<Rightarrow> MakerFill list \<Rightarrow> Orderbook \<Rightarrow> u32 \<Rightarrow> (Orderbook \<times> (u32, ExecutePendingFillError) result) run" where
  "commit_loop oc [] ob rem = Ret (ob, Ok rem)"
| "commit_loop oc (f # fs) ob rem =
     (case fill_type f of
        FillComplete \<Rightarrow>
          bind_run (remove ob (oix f)) (\<lambda>(ob', removed).
          case removed of
            None \<Rightarrow> Ret (ob', Err (InvalidOrderIndex (oix f)))
          | Some maker_order \<Rightarrow>
              bind_run (assert_run (maker_order = maker f)) (\<lambda>_.
              bind_run (sub_u32 oc rem (nz_get (quantity maker_order))) (\<lambda>rem'.
              commit_loop oc fs ob' rem')))
      | FillPartial \<Rightarrow>
          bind_run (get_mut ob (oix f)) (\<lambda>found.
          case found of
            None \<Rightarrow> Ret (ob, Err (InvalidOrderIndex (oix f)))
          | Some (r, maker_order) \<Rightarrow>
              bind_run (assert_run (maker_order = maker f)) (\<lambda>_.
              bind_run (assert_run (rem < nz_get (quantity maker_order))) (\<lambda>_.
              bind_run (sub_u32 oc (nz_get (quantity maker_order)) rem) (\<lambda>d.
              bind_run (expect ''partial fills of maker orders will always have a quantity greater than zero''
                (nz_new d)) (\<lambda>q.
              commit_loop oc fs (write_order ob r (maker_order\<lparr>quantity := q\<rparr>)) 0)))))
      | FillNone \<Rightarrow> Panic Unreachable)"

definition commit ::
  "bool \<Rightarrow> PendingFill \<Rightarrow> (Orderbook \<times> (FillType \<times> Order option, ExecutePendingFillError) result) run" where
  "commit oc pf =
     (let taker_quantity = nz_get (quantity (pf_taker pf)) in
      bind_run (commit_check (pf_orderbook pf) (pf_maker_fills pf)) (\<lambda>missing.
      case missing of
        Some ix \<Rightarrow> Ret (pf_orderbook pf, Err (InvalidOrderIndex ix))
      | None \<Rightarrow>
          bind_run (commit_loop oc (pf_maker_fills pf) (pf_orderbook pf) taker_quantity) (\<lambda>(ob, res).
          case res of
            Err e \<Rightarrow> Ret (ob, Err e)
          | Ok rem \<Rightarrow>
              bind_run (case pf_taker_fill_outcome pf of
                  FillComplete \<Rightarrow> assert_run (rem = 0)
                | FillPartial \<Rightarrow> assert_run (taker_quantity > rem)
                | FillNone \<Rightarrow> assert_run (rem = taker_quantity)) (\<lambda>_.
              Ret (ob, Ok (pf_taker_fill_outcome pf,
                map_option (\<lambda>q. (pf_taker pf)\<lparr>quantity := q\<rparr>) (nz_new rem)))))))"

section \<open>Taking a quantity from the front of a queue\<close>

definition qty :: "Order \<Rightarrow> nat" where
  "qty x = unat (nz_get (quantity x))"

definition volume :: "Order list \<Rightarrow> nat" where
  "volume xs = sum_list (map qty xs)"

definition reduce :: "nat \<Rightarrow> Order \<Rightarrow> Order" where
  "reduce n x = x\<lparr>quantity := nz (of_nat (qty x - n))\<rparr>"

text \<open>The abstract effect: \<open>n\<close> units leave the queue from its head.\<close>

fun consume :: "nat \<Rightarrow> Order list \<Rightarrow> Order list" where
  "consume n [] = []"
| "consume n (x # xs) =
     (if n = 0 then x # xs
      else if qty x \<le> n then consume (n - qty x) xs
      else reduce n x # xs)"

text \<open>The fills that take \<open>r > 0\<close> units from the head of a queue of side \<open>s\<close>.\<close>

fun fill_list :: "OrderSide \<Rightarrow> u32 \<Rightarrow> Order list \<Rightarrow> MakerFill list" where
  "fill_list s r [] = []"
| "fill_list s r (x # xs) =
     (let a = min (nz_get (quantity x)) r in
      \<lparr>oix = index_of s x, maker = x,
       fill_type = (if a = nz_get (quantity x) then FillComplete else FillPartial), fill_amount = a\<rparr> #
      (if r = a then [] else fill_list s (r - a) xs))"

lemma qty_pos [simp]: "0 < qty x" "qty x \<noteq> 0"
  by (simp_all add: qty_def)

lemma volume_simps [simp]: "volume [] = 0" "volume (x # xs) = qty x + volume xs"
  "volume (xs @ ys) = volume xs + volume ys"
  by (simp_all add: volume_def)

lemma volume_0_iff [simp]: "volume xs = 0 \<longleftrightarrow> xs = []"
  by (cases xs) auto

lemma consume_0 [simp]: "consume 0 xs = xs"
  by (cases xs) auto

lemma unat_min: "unat (min a b :: u32) = min (unat a) (unat b)"
  by (simp add: min_def word_le_nat_alt)

lemma unat_nz_nat:
  assumes "0 < n" and "n < 2 ^ 32"
  shows "unat (nz_get (nz (of_nat n))) = n"
proof -
  have "unat (of_nat n :: u32) = n" using assms(2) by (simp add: unat_of_nat)
  moreover from this assms(1) have "(of_nat n :: u32) \<noteq> 0" by auto
  ultimately show ?thesis by simp
qed

lemma qty_reduce: "n < qty x \<Longrightarrow> qty (reduce n x) = qty x - n"
proof -
  assume "n < qty x"
  moreover have "qty x < 2 ^ 32" using unsigned_less [where 'a = nat, of "nz_get (quantity x)"] by (simp add: qty_def)
  ultimately have "unat (nz_get (nz (of_nat (qty x - n)))) = qty x - n" by (intro unat_nz_nat) auto
  then show ?thesis unfolding reduce_def by (subst qty_def) (simp del: nz_get_nz)
qed

lemma reduce_simps [simp]: "okey (reduce n x) = okey x" "price (reduce n x) = price x" "memo (reduce n x) = memo x"
  by (simp_all add: reduce_def okey_def)

lemma volume_consume: "volume (consume n xs) = volume xs - n"
proof (induction n xs rule: consume.induct)
  case (2 n x xs)
  then show ?case by (auto simp: qty_reduce)
qed simp

lemma consume_keys: "set (map okey (consume n xs)) \<subseteq> set (map okey xs)"
  by (induction n xs rule: consume.induct) (auto split: if_splits)

lemma consume_price_mem: "x \<in> set (consume n xs) \<Longrightarrow> \<exists>y\<in>set xs. price y = price x"
  using consume_keys [of n xs] by (force simp: okey_def image_iff)

lemma consume_all: "volume xs \<le> n \<Longrightarrow> consume n xs = []"
  by (metis volume_consume volume_0_iff diff_is_0_eq)

lemma consume_append: "consume n (xs @ ys) = consume n xs @ (consume (n - volume xs) ys)"
  by (induction n xs rule: consume.induct) auto

lemma fill_list_subset: "f \<in> set (fill_list s r q) \<Longrightarrow> oix f = index_of s (maker f) \<and> maker f \<in> set q"
  by (induction s r q rule: fill_list.induct) (auto simp: Let_def split: if_splits)

lemma fill_list_prefix: "map maker (fill_list s r q) = take (length (fill_list s r q)) q"
  by (induction s r q rule: fill_list.induct) (auto simp: Let_def)

lemma fill_list_length: "length (fill_list s r q) \<le> length q"
  by (induction s r q rule: fill_list.induct) (auto simp: Let_def)

section \<open>Committing a fill list\<close>

lemma commit_check_present:
  assumes "book_wf ob" and "\<And>f. f \<in> set fs \<Longrightarrow> oix f = index_of s (maker f) \<and> maker f \<in> set (side_orders ob s)"
  shows "commit_check ob fs = Ret None"
  using assms(2)
proof (induction fs)
  case (Cons f fs)
  then obtain r where "get_mut ob (oix f) = Ret (Some (r, maker f))"
    using book.lookup_mem [OF assms(1), of "maker f" s] by auto
  with Cons show ?case by simp
qed simp

lemma commit_check_append: "commit_check ob fs = Ret None \<Longrightarrow> commit_check ob (fs @ gs) = commit_check ob gs"
proof (induction fs)
  case (Cons f fs)
  then show ?case by (auto simp: bind_run_Ret_iff split: option.splits)
qed simp

lemma sub_u32_unat: "(b :: u32) \<le> a \<Longrightarrow> a - b = of_nat (unat a - unat b)"
  by (simp flip: unat_sub)

text \<open>The taker ends within the first maker.\<close>

lemma commit_loop_partial:
  assumes "book_wf ob" and "side_orders ob s = x # rest" and "r < nz_get (quantity x)" and "r \<noteq> 0"
  shows "\<exists>ob'. commit_loop oc (fill_list s r (x # xs)) ob r = Ret (ob', Ok 0) \<and> book_wf ob' \<and>
    (\<forall>n. memo_bound n ob \<longrightarrow> memo_bound n ob') \<and> side_orders ob' = (side_orders ob)(s := reduce (unat r) x # rest)"
proof -
  let ?y = "reduce (unat r) x"
  have y: "x\<lparr>quantity := nz (nz_get (quantity x) - r)\<rparr> = ?y" "nz_get (quantity x) - r \<noteq> 0"
    using sub_u32_unat [OF less_imp_le [OF assms(3)]] assms(3) by (auto simp: reduce_def qty_def)
  have "unat r < qty x" using assms(3) by (simp add: qty_def word_less_nat_alt)
  with book.update_head [OF assms(1), of s x rest ?y] assms(2) obtain p where
    p: "get_mut ob (index_of s x) = Ret (Some (p, x))" "book_wf (write_order ob p ?y)"
      "\<forall>n. memo_bound n ob \<longrightarrow> memo_bound n (write_order ob p ?y)"
      "side_orders (write_order ob p ?y) = (side_orders ob)(s := ?y # rest)"
    by auto
  have "commit_loop oc (fill_list s r (x # xs)) ob r = Ret (write_order ob p ?y, Ok 0)"
    using assms(3) iffD2 [OF not_le assms(3)] p(1) y by (simp add: Let_def min_def sub_u32_no_underflow)
  with p show ?thesis by blast
qed

lemma commit_loop_fill_list:
  assumes "book_wf ob" and "side_orders ob s = q @ rest" and "r \<noteq> 0"
  shows "\<exists>ob'. commit_loop oc (fill_list s r q) ob r = Ret (ob', Ok (of_nat (unat r - volume q))) \<and>
    book_wf ob' \<and> (\<forall>n. memo_bound n ob \<longrightarrow> memo_bound n ob') \<and>
    side_orders ob' = (side_orders ob)(s := consume (unat r) q @ rest)"
  using assms
proof (induction q arbitrary: ob r)
  case Nil
  then show ?case by auto
next
  case (Cons x xs)
  show ?case
  proof (cases "nz_get (quantity x) \<le> r")
    case True
    then have le: "qty x \<le> unat r" by (simp add: qty_def word_le_nat_alt)
    from book.delete_head [OF Cons.prems(1), of s x "xs @ rest"] Cons.prems(2) obtain ob1 where
      ob1: "remove ob (index_of s x) = Ret (ob1, Some x)" "book_wf ob1"
        "\<forall>n. memo_bound n ob \<longrightarrow> memo_bound n ob1" "side_orders ob1 = (side_orders ob)(s := xs @ rest)"
      by auto
    let ?r = "r - nz_get (quantity x)"
    have r: "unat ?r = unat r - qty x" using True by (simp add: unat_sub_u32 qty_def)
    have step: "commit_loop oc (fill_list s r (x # xs)) ob r =
        commit_loop oc (if r = nz_get (quantity x) then [] else fill_list s ?r xs) ob1 ?r"
      using True ob1(1) by (simp add: Let_def min_def sub_u32_no_underflow)
    show ?thesis
    proof (cases "r = nz_get (quantity x)")
      case True
      then have u: "unat (nz_get (quantity x)) = qty x" by (simp add: qty_def)
      from True ob1 step show ?thesis by (simp add: u del: fun_upd_apply)
    next
      case False
      then have "?r \<noteq> 0" by simp
      moreover have "side_orders ob1 s = xs @ rest" using ob1(4) by simp
      ultimately obtain ob' where
        "commit_loop oc (fill_list s ?r xs) ob1 ?r = Ret (ob', Ok (of_nat (unat ?r - volume xs)))" "book_wf ob'"
        "\<forall>n. memo_bound n ob1 \<longrightarrow> memo_bound n ob'"
        "side_orders ob' = (side_orders ob1)(s := consume (unat ?r) xs @ rest)"
        using Cons.IH [OF ob1(2)] by blast
      with False step le ob1(3,4) Cons.prems(3) r show ?thesis
        by (simp add: unat_eq_zero del: fun_upd_apply)
    qed
  next
    case False
    then have lt: "r < nz_get (quantity x)" and n: "unat r < qty x"
      by (simp_all add: qty_def word_le_nat_alt word_less_nat_alt)
    from commit_loop_partial [OF Cons.prems(1) _ lt Cons.prems(3), of s "xs @ rest" oc xs] Cons.prems(2) n Cons.prems(3) show ?thesis
      by (simp add: unat_eq_zero del: fun_upd_apply fill_list.simps)
  qed
qed

end
