(* ===== verification/Try_Fill.thy ===== *)
theory Try_Fill
  imports Pending_Fill
begin

text \<open>
  The matching pass (\<open>trading/try_fill_order.rs\<close>). \<open>try_fill_orders\<close> walks the opposite side
  best first and collects maker fills; the lemmas relate it to the orders the taker's price
  accepts (\<open>eligible\<close>), which are a prefix of the queue, and follow a pending fill through
  its \<open>commit\<close>.
\<close>

section \<open>The loop\<close>

definition maker_side :: "OrderSide \<Rightarrow> OrderSide" where
  "maker_side side = (case side of Buy \<Rightarrow> Sell | Sell \<Rightarrow> Buy)"

text \<open>The \<open>continue\<close> condition of the loop.\<close>

definition skip_order :: "OrderType \<Rightarrow> OrderSide \<Rightarrow> Order \<Rightarrow> Order \<Rightarrow> bool" where
  "skip_order order_type side taker order \<longleftrightarrow>
     order_type = Limit \<and>
     ((side = Buy \<and> price order > price taker) \<or> (side = Sell \<and> price order < price taker))"

fun try_fill_loop ::
  "bool \<Rightarrow> Order \<Rightarrow> OrderSide \<Rightarrow> OrderType \<Rightarrow> (OrderIndex \<times> Order) run list \<Rightarrow>
   MakerFill list \<Rightarrow> FillType \<Rightarrow> u32 \<Rightarrow> (MakerFill list \<times> FillType \<times> u32) run" where
  "try_fill_loop oc taker side order_type [] maker_fills outcome rem_q =
     Ret (maker_fills, outcome, rem_q)"
| "try_fill_loop oc taker side order_type (it # its) maker_fills outcome rem_q =
     bind_run it (\<lambda>(ix, order).
     if skip_order order_type side taker order
     then try_fill_loop oc taker side order_type its maker_fills outcome rem_q
     else
       let amount = min (nz_get (quantity order)) rem_q;
           ftype = (if amount = nz_get (quantity order) then FillComplete else FillPartial);
           maker_fills' = maker_fills @ [\<lparr>oix = ix, maker = order, fill_type = ftype, fill_amount = amount\<rparr>]
       in if rem_q = amount then Ret (maker_fills', FillComplete, 0)
          else bind_run (sub_u32 oc rem_q amount)
                 (try_fill_loop oc taker side order_type its maker_fills' FillPartial))"

text \<open>The source's error type is \<open>Infallible\<close>: the result is always the pending fill.\<close>

definition try_fill_orders :: "bool \<Rightarrow> Orderbook \<Rightarrow> Order \<Rightarrow> OrderSide \<Rightarrow> OrderType \<Rightarrow> PendingFill run" where
  "try_fill_orders oc orderbook taker side order_type =
     bind_run (try_fill_loop oc taker side order_type (iter_rel orderbook (maker_side side))
       [] FillNone (nz_get (quantity taker))) (\<lambda>(maker_fills, outcome, rem_q).
     let outcome' = (if rem_q = nz_get (quantity taker) then FillNone else outcome) in
     Ret (PendingFill_new orderbook taker side order_type maker_fills outcome'))"

section \<open>Orders a taker accepts\<close>

definition eligible :: "Orderbook \<Rightarrow> Order \<Rightarrow> OrderSide \<Rightarrow> OrderType \<Rightarrow> Order list" where
  "eligible ob t s ty = filter (\<lambda>x. \<not> skip_order ty s t x) (side_orders ob (maker_side s))"

definition ineligible :: "Orderbook \<Rightarrow> Order \<Rightarrow> OrderSide \<Rightarrow> OrderType \<Rightarrow> Order list" where
  "ineligible ob t s ty = filter (skip_order ty s t) (side_orders ob (maker_side s))"

definition outcome_of :: "nat \<Rightarrow> Order list \<Rightarrow> FillType" where
  "outcome_of n q = (if q = [] then FillNone else if n \<le> volume q then FillComplete else FillPartial)"

definition remainder_of :: "Order \<Rightarrow> Order list \<Rightarrow> Order option" where
  "remainder_of t q = (if qty t \<le> volume q then None else Some (reduce (volume q) t))"

lemma maker_side_simps [simp]: "maker_side Buy = Sell" "maker_side Sell = Buy" "maker_side s \<noteq> s"
  "s \<noteq> maker_side s"
  "maker_side (maker_side s) = s"
  by (cases s; simp add: maker_side_def)+

lemma filter_partition_sorted:
  "sorted_wrt (\<lambda>x y. P y \<longrightarrow> P x) xs \<Longrightarrow> filter P xs @ filter (\<lambda>x. \<not> P x) xs = xs"
proof (induction xs)
  case (Cons x xs)
  then show ?case by (cases "P x") (auto simp: filter_empty_conv filter_id_conv)
qed simp

lemma skip_order_mono: "outranks (maker_side s) x y \<Longrightarrow> skip_order ty s t x \<Longrightarrow> skip_order ty s t y"
  by (cases s) (auto simp: skip_order_def outranks_def)

lemma eligible_split:
  assumes "book_wf ob"
  shows "side_orders ob (maker_side s) = eligible ob t s ty @ ineligible ob t s ty"
proof -
  have "sorted_wrt (\<lambda>x y. \<not> skip_order ty s t y \<longrightarrow> \<not> skip_order ty s t x) (side_orders ob (maker_side s))"
    by (rule sorted_wrt_mono_rel [OF _ side_orders_outranks [OF assms]]) (blast dest: skip_order_mono)
  from filter_partition_sorted [OF this] show ?thesis by (simp add: eligible_def ineligible_def)
qed

section \<open>The fills of a matching pass\<close>

lemma try_fill_loop_correct:
  assumes "r \<noteq> 0"
  shows "try_fill_loop oc t s ty (map (\<lambda>x. Ret (index_of m x, x)) q) fs out r =
    Ret (fs @ fill_list m r (filter (\<lambda>x. \<not> skip_order ty s t x) q),
         (let e = filter (\<lambda>x. \<not> skip_order ty s t x) q in if e = [] then out else outcome_of (unat r) e),
         of_nat (unat r - volume (filter (\<lambda>x. \<not> skip_order ty s t x) q)))"
  using assms
proof (induction q arbitrary: fs out r)
  case (Cons x q)
  show ?case
  proof (cases "skip_order ty s t x \<or> r \<le> nz_get (quantity x)")
    case True
    then consider "skip_order ty s t x" | "\<not> skip_order ty s t x" "r \<le> nz_get (quantity x)" by auto
    then show ?thesis
      using Cons by cases (simp_all add: Let_def min_absorb2 outcome_of_def qty_def word_le_nat_alt)
  next
    case False
    let ?a = "nz_get (quantity x)"
    from False have a: "?a \<le> r" "min ?a r = ?a" "r \<noteq> ?a" "r - ?a \<noteq> 0" "qty x < unat r"
      by (auto simp: qty_def word_le_nat_alt min_def)
    have u: "unat (r - ?a) = unat r - qty x" using a(1) by (simp add: unat_sub_u32 qty_def)
    from Cons.IH [OF a(4), of "fs @ [\<lparr>oix = index_of m x, maker = x, fill_type = FillComplete, fill_amount = ?a\<rparr>]"
        FillPartial] False a u show ?thesis
      by (auto simp: Let_def sub_u32_no_underflow outcome_of_def)
  qed
qed simp

lemma unat_of_nat_u32_le: "n \<le> unat (r :: u32) \<Longrightarrow> unat (of_nat n :: u32) = n"
  using unsigned_less [where 'a = nat, of r] by (simp add: unat_of_nat)

lemma try_fill_orders_wf:
  assumes "book_wf ob"
  shows "try_fill_orders oc ob t s ty = Ret (PendingFill_new ob t s ty
    (fill_list (maker_side s) (nz_get (quantity t)) (eligible ob t s ty)) (outcome_of (qty t) (eligible ob t s ty)))"
proof -
  let ?q = "nz_get (quantity t)" and ?e = "eligible ob t s ty"
  have "?e \<noteq> [] \<Longrightarrow> of_nat (unat ?q - volume ?e) \<noteq> ?q"
  proof
    assume "?e \<noteq> []" and eq: "of_nat (unat ?q - volume ?e) = ?q"
    then have "volume ?e \<noteq> 0" by simp
    moreover from eq have "unat ?q - volume ?e = unat ?q"
      using unat_of_nat_u32_le [of "unat ?q - volume ?e" ?q] by simp
    ultimately show False using unat_nz_get_pos [of "quantity t"] by linarith
  qed
  then show ?thesis
    using assms by (auto simp: try_fill_orders_def iter_rel_wf try_fill_loop_correct Let_def outcome_of_def qty_def
        simp flip: eligible_def)
qed

lemma commit_try_fill:
  assumes "book_wf ob" and "try_fill_orders oc ob t s ty = Ret pf"
  shows "\<exists>ob'. commit oc pf = Ret (ob', Ok (outcome_of (qty t) (eligible ob t s ty), remainder_of t (eligible ob t s ty))) \<and>
    book_wf ob' \<and> (\<forall>n. memo_bound n ob \<longrightarrow> memo_bound n ob') \<and>
    side_orders ob' = (side_orders ob)(maker_side s := consume (qty t) (eligible ob t s ty) @ ineligible ob t s ty)"
proof -
  let ?q = "nz_get (quantity t)" and ?e = "eligible ob t s ty" and ?m = "maker_side s"
  let ?rem = "unat ?q - volume ?e"
  from assms have pf: "pf = PendingFill_new ob t s ty (fill_list ?m ?q ?e) (outcome_of (qty t) ?e)"
    by (simp add: try_fill_orders_wf)
  have check: "commit_check ob (fill_list ?m ?q ?e) = Ret None"
    by (rule commit_check_present [OF assms(1), of _ ?m]) (auto simp: eligible_def dest: fill_list_subset)
  from commit_loop_fill_list [OF assms(1) eligible_split [OF assms(1), of s t ty] nz_get_neq_0(1) [of "quantity t"], of oc]
  obtain ob' where
    ob': "commit_loop oc (fill_list ?m ?q ?e) ob ?q = Ret (ob', Ok (of_nat ?rem))"
      "book_wf ob'" "\<forall>n. memo_bound n ob \<longrightarrow> memo_bound n ob'"
      "side_orders ob' = (side_orders ob)(?m := consume (unat ?q) ?e @ ineligible ob t s ty)" by blast
  have rem: "unat (of_nat ?rem :: u32) = ?rem" by (rule unat_of_nat_u32_le [of _ ?q]) simp
  have outcome: "(case outcome_of (qty t) ?e of FillComplete \<Rightarrow> assert_run (of_nat ?rem = (0 :: u32))
      | FillPartial \<Rightarrow> assert_run (?q > of_nat ?rem) | FillNone \<Rightarrow> assert_run (of_nat ?rem = ?q)) = Ret ()"
    using rem volume_0_iff [of ?e] unat_nz_get_pos [of "quantity t"]
    by (auto simp: outcome_of_def assert_run_def word_less_nat_alt qty_def simp del: volume_0_iff)
  have result: "map_option (\<lambda>q. t\<lparr>quantity := q\<rparr>) (nz_new (of_nat ?rem)) = remainder_of t ?e"
  proof (cases "?rem = 0")
    case True
    then show ?thesis by (simp add: remainder_of_def qty_def)
  next
    case False
    then have "(of_nat ?rem :: u32) \<noteq> 0" using rem by (metis unat_0)
    with False show ?thesis by (simp add: remainder_of_def qty_def reduce_def del: of_nat_diff)
  qed
  show ?thesis
    using ob' check outcome result
    by (simp add: commit_def PendingFill_new_def pf Let_def qty_def)
qed

section \<open>What a pending fill contains\<close>

lemma fill_list_amounts: "r \<noteq> 0 \<Longrightarrow> f \<in> set (fill_list s r q) \<Longrightarrow>
    0 < fill_amount f \<and> fill_amount f \<le> nz_get (quantity (maker f)) \<and>
    (fill_type f = FillComplete \<longleftrightarrow> fill_amount f = nz_get (quantity (maker f))) \<and> fill_type f \<noteq> FillNone"
proof (induction s r q rule: fill_list.induct)
  case (2 s r x xs)
  let ?a = "min (nz_get (quantity x)) r"
  have "0 < ?a" using 2(2) by (simp add: min_def word_neq_0_conv)
  moreover have "r - ?a \<noteq> 0" if "r \<noteq> ?a" using that by simp
  ultimately show ?case
    using 2(1) [OF refl] 2(3) by (auto simp: Let_def split: if_splits) (metis min.cobounded1)
qed simp

lemma fill_list_total: "r \<noteq> 0 \<Longrightarrow> (\<Sum>f\<leftarrow>fill_list s r q. unat (fill_amount f)) = min (unat r) (volume q)"
proof (induction s r q rule: fill_list.induct)
  case (2 s r x xs)
  let ?a = "min (nz_get (quantity x)) r"
  have a: "unat ?a = min (qty x) (unat r)" by (simp add: unat_min qty_def)
  have d: "unat (r - ?a) = unat r - unat ?a" by (simp add: unat_sub_u32)
  show ?case
  proof (cases "r = ?a")
    case True
    with a show ?thesis by (simp add: Let_def)
  next
    case False
    then have "?a = nz_get (quantity x)" "unat ?a = qty x" "qty x \<le> unat r"
      using a by (auto simp: min_def qty_def word_le_nat_alt split: if_splits)
    with False 2(1) [OF refl] d show ?thesis by (simp add: Let_def)
  qed
qed simp

lemma fill_list_butlast: "f \<in> set (butlast (fill_list s r q)) \<Longrightarrow> fill_type f = FillComplete"
proof (induction s r q rule: fill_list.induct)
  case (2 s r x xs)
  then show ?case by (cases "fill_list s (r - min (nz_get (quantity x)) r) xs") (auto simp: Let_def min_def split: if_splits)
qed simp

section \<open>Properties\<close>

text \<open>C10: on a well-formed book the matching pass returns, and its fills are price-time fair: the
  makers are the first orders of the opposite side, in queue order, each at a price the taker's
  limit accepts; every fill takes between one unit and the maker's quantity and is
  marked complete exactly when it takes all; only the last may be partial; and the amounts
  sum to the taker's quantity or, when less, to everything the limit accepts. The outcome
  announced to the caller is complete, partial or none accordingly.\<close>

theorem try_fill_orders_price_time:
  assumes "book_wf ob"
  shows "\<exists>pf. try_fill_orders oc ob t s ty = Ret pf \<and> pf_orderbook pf = ob \<and>
    map maker (pf_maker_fills pf) = take (length (pf_maker_fills pf)) (side_orders ob (maker_side s)) \<and>
    sorted_wrt (outranks (maker_side s)) (map maker (pf_maker_fills pf)) \<and>
    (\<forall>f\<in>set (pf_maker_fills pf).
       oix f = index_of (maker_side s) (maker f) \<and> \<not> skip_order ty s t (maker f) \<and>
       0 < fill_amount f \<and> fill_amount f \<le> nz_get (quantity (maker f)) \<and>
       (fill_type f = FillComplete \<longleftrightarrow> fill_amount f = nz_get (quantity (maker f))) \<and>
       fill_type f \<noteq> FillNone) \<and>
    (\<forall>f\<in>set (butlast (pf_maker_fills pf)). fill_type f = FillComplete) \<and>
    (\<Sum>f\<leftarrow>pf_maker_fills pf. unat (fill_amount f)) = min (qty t) (volume (eligible ob t s ty)) \<and>
    taker_fill_outcome pf = outcome_of (qty t) (eligible ob t s ty)"
proof -
  let ?m = "maker_side s" and ?e = "eligible ob t s ty"
  let ?fs = "fill_list ?m (nz_get (quantity t)) ?e"
  have prefix: "map maker ?fs = take (length ?fs) (side_orders ob ?m)"
    using fill_list_prefix [of ?m "nz_get (quantity t)" ?e] eligible_split [OF assms, of s t ty]
      fill_list_length [of ?m "nz_get (quantity t)" ?e] by simp
  have sorted: "sorted_wrt (outranks ?m) (map maker ?fs)"
    unfolding prefix by (rule sorted_wrt_take [OF side_orders_outranks [OF assms]])
  have fills: "oix f = index_of ?m (maker f) \<and> \<not> skip_order ty s t (maker f)" if "f \<in> set ?fs" for f
    using fill_list_subset [OF that] by (simp add: eligible_def)
  show ?thesis
    using prefix sorted fills fill_list_amounts [of "nz_get (quantity t)" _ ?m ?e]
      fill_list_butlast [of _ ?m "nz_get (quantity t)" ?e] fill_list_total [of "nz_get (quantity t)" ?m ?e]
    by (simp add: try_fill_orders_wf [OF assms] PendingFill_new_def taker_fill_outcome_def qty_def)
qed

theorem try_fill_orders_price_time_witness:
  "\<exists>pf. try_fill_orders True sample_book \<lparr>memo = 0, quantity = nz 75, price = nz 110\<rparr> Buy Limit = Ret pf \<and>
     (\<Sum>f\<leftarrow>pf_maker_fills pf. unat (fill_amount f)) = 75 \<and> taker_fill_outcome pf = FillComplete"
proof -
  let ?t = "\<lparr>memo = 0, quantity = nz 75, price = nz 110\<rparr>"
  have "volume (eligible sample_book ?t Buy Limit) = 100" "qty ?t = 75" "eligible sample_book ?t Buy Limit \<noteq> []"
    by (simp_all add: eligible_def sample_book_orders skip_order_def qty_def)
  with try_fill_orders_price_time [OF sample_book_wf, of True ?t Buy Limit] show ?thesis by (auto simp: outcome_of_def)
qed

text \<open>C11: matching and committing refines taking the quantity off the opposite queue. On a
  well-formed book both steps return without panic, the commit succeeds, the book stays well
  formed, the taker's own side is untouched, the opposite side is its old queue less the taker's
  quantity taken from the front of the accepted orders, and the remainder handed back is the
  taker with exactly the quantity the accepted orders could not supply.\<close>

theorem try_fill_then_commit:
  assumes "book_wf ob"
  shows "\<exists>pf ob'. try_fill_orders oc ob t s ty = Ret pf \<and>
    commit oc pf = Ret (ob', Ok (outcome_of (qty t) (eligible ob t s ty), remainder_of t (eligible ob t s ty))) \<and>
    book_wf ob' \<and> side_orders ob' s = side_orders ob s \<and>
    side_orders ob' (maker_side s) = consume (qty t) (eligible ob t s ty) @ ineligible ob t s ty"
proof -
  from try_fill_orders_wf [OF assms] obtain pf where pf: "try_fill_orders oc ob t s ty = Ret pf" by blast
  from commit_try_fill [OF assms pf] pf show ?thesis by auto
qed

theorem try_fill_then_commit_witness:
  "\<exists>pf ob'. try_fill_orders True sample_book \<lparr>memo = 0, quantity = nz 40, price = nz 100\<rparr> Buy Limit = Ret pf \<and>
     commit True pf = Ret (ob', Ok (FillComplete, None)) \<and> volume (side_orders ob' Sell) = 60"
proof -
  let ?t = "\<lparr>memo = 0, quantity = nz 40, price = nz 100\<rparr>"
  have e: "volume (eligible sample_book ?t Buy Limit) = 50" "qty ?t = 40" "eligible sample_book ?t Buy Limit \<noteq> []"
    "volume (ineligible sample_book ?t Buy Limit) = 50"
    by (simp_all add: eligible_def ineligible_def sample_book_orders skip_order_def qty_def)
  from try_fill_then_commit [OF sample_book_wf, of True ?t Buy Limit] e show ?thesis
    by (auto simp: outcome_of_def remainder_of_def volume_consume)
qed

text \<open>Commit is all or nothing when a fill names an order the book does not hold: the error
  carries the first such index and the book is unchanged, whatever the other fills are.\<close>

theorem commit_invalid_index:
  assumes "book_wf (pf_orderbook pf)" and "pf_maker_fills pf = fs @ f # gs"
    and "\<And>g. g \<in> set fs \<Longrightarrow> oix g = index_of s (maker g) \<and> maker g \<in> set (side_orders (pf_orderbook pf) s)"
    and "\<forall>x\<in>set (side_orders (pf_orderbook pf) (ix_side (oix f))). okey x \<noteq> ix_key (oix f)"
  shows "commit oc pf = Ret (pf_orderbook pf, Err (InvalidOrderIndex (oix f)))"
proof -
  have miss: "get_mut (pf_orderbook pf) (oix f) = Ret None"
    using assms(1,4) by (intro get_mut_None) (auto simp: find_None_iff)
  have "commit_check (pf_orderbook pf) (fs @ f # gs) = commit_check (pf_orderbook pf) (f # gs)"
    by (rule commit_check_append [OF commit_check_present [OF assms(1,3)]])
  with miss show ?thesis by (simp add: commit_def assms(2))
qed

theorem commit_invalid_index_witness:
  "commit True \<lparr>pf_orderbook = sample_book, pf_taker = \<lparr>memo = 0, quantity = nz 1, price = nz 1\<rparr>, pf_side = Buy,
       pf_order_type = Limit, pf_maker_fills = [\<lparr>oix = \<lparr>ix_side = Sell, ix_price = nz 3, ix_memo = 0\<rparr>,
         maker = \<lparr>memo = 0, quantity = nz 1, price = nz 3\<rparr>, fill_type = FillComplete, fill_amount = 1\<rparr>],
       pf_taker_fill_outcome = FillComplete\<rparr> =
     Ret (sample_book, Err (InvalidOrderIndex \<lparr>ix_side = Sell, ix_price = nz 3, ix_memo = 0\<rparr>))"
proof -
  define f :: MakerFill where "f = \<lparr>oix = \<lparr>ix_side = Sell, ix_price = nz 3, ix_memo = 0\<rparr>,
     maker = \<lparr>memo = 0, quantity = nz 1, price = nz 3\<rparr>, fill_type = FillComplete, fill_amount = 1\<rparr>"
  have f: "oix f = \<lparr>ix_side = Sell, ix_price = nz 3, ix_memo = 0\<rparr>" by (simp add: f_def)
  define pf where "pf = \<lparr>pf_orderbook = sample_book, pf_taker = \<lparr>memo = 0, quantity = nz 1, price = nz 1\<rparr>, pf_side = Buy,
     pf_order_type = Limit, pf_maker_fills = [f], pf_taker_fill_outcome = FillComplete\<rparr>"
  have "commit True pf = Ret (pf_orderbook pf, Err (InvalidOrderIndex (oix f)))"
    by (rule commit_invalid_index [where fs = "[]" and s = Sell])
      (simp_all add: pf_def f sample_book_wf sample_book_orders okey_def ix_key_def)
  then show ?thesis by (simp add: pf_def f f_def [symmetric])
qed

end
