(* ===== verification/Asset.thy ===== *)
theory Asset
  imports Prelude "HOL-Library.List_Lexorder" "HOL-Library.Char_ord"
begin

text \<open>
  The assets of the exchange (\<open>asset.rs\<close>): the enumeration with its derived order, parsing and
  printing, and the list of names under which the web interface knows an asset.
\<close>

datatype Asset = Bitcoin | Ether

datatype AssetKey = Static string | ByValue Asset

text \<open>The orders \<open>derive(PartialOrd, Ord)\<close> generates: by constructor, then by field.\<close>

instantiation Asset :: linorder
begin

definition less_eq_Asset :: "Asset \<Rightarrow> Asset \<Rightarrow> bool" where
  "less_eq_Asset a b \<longleftrightarrow> a = Bitcoin \<or> b = Ether"

definition less_Asset :: "Asset \<Rightarrow> Asset \<Rightarrow> bool" where
  "less_Asset a b \<longleftrightarrow> a = Bitcoin \<and> b = Ether"

instance
proof
  fix x y :: Asset
  show "x \<le> x" by (cases x) (simp_all add: less_eq_Asset_def)
  show "x \<le> y \<or> y \<le> x" by (cases x; cases y) (simp_all add: less_eq_Asset_def)
  show "(x < y) = (x \<le> y \<and> \<not> y \<le> x)"
    by (cases x; cases y) (simp_all add: less_eq_Asset_def less_Asset_def)
qed (auto simp: less_eq_Asset_def)

end

instantiation AssetKey :: linorder
begin

definition less_eq_AssetKey :: "AssetKey \<Rightarrow> AssetKey \<Rightarrow> bool" where
  "less_eq_AssetKey k l \<longleftrightarrow>
     (case k of
        Static s \<Rightarrow> (case l of Static t \<Rightarrow> s \<le> t | ByValue _ \<Rightarrow> True)
      | ByValue a \<Rightarrow> (case l of Static _ \<Rightarrow> False | ByValue b \<Rightarrow> a \<le> b))"

definition less_AssetKey :: "AssetKey \<Rightarrow> AssetKey \<Rightarrow> bool" where
  "less_AssetKey k l \<longleftrightarrow> k \<le> l \<and> \<not> l \<le> (k :: AssetKey)"

instance
  by standard (auto simp: less_AssetKey_def less_eq_AssetKey_def split: AssetKey.splits)

end

definition AssetKey_from_Asset :: "Asset \<Rightarrow> AssetKey" where
  "AssetKey_from_Asset a = ByValue a"

definition AssetKey_from_str :: "string \<Rightarrow> AssetKey" where
  "AssetKey_from_str s = Static s"

definition Asset_from_str :: "string \<Rightarrow> (Asset, unit) result" where
  "Asset_from_str s =
     (if s = ''btc'' \<or> s = ''BTC'' then Ok Bitcoin
      else if s = ''etc'' \<or> s = ''ETH'' then Ok Ether
      else Err ())"

primrec Asset_to_string :: "Asset \<Rightarrow> string" where
  "Asset_to_string Bitcoin = ''BTC''"
| "Asset_to_string Ether = ''ETH''"

fun contains_asset :: "(AssetKey \<times> Asset) list \<Rightarrow> AssetKey \<Rightarrow> bool" where
  "contains_asset [] key = False"
| "contains_asset ((k, v) # rest) key = (if k = key then True else contains_asset rest key)"

definition internal_asset_list :: "(AssetKey \<times> Asset) list" where
  "internal_asset_list =
     [(ByValue Bitcoin, Bitcoin), (Static ''btc'', Bitcoin), (Static ''BTC'', Bitcoin),
      (ByValue Ether, Ether), (Static ''eth'', Ether), (Static ''ETH'', Ether)]"

section \<open>Properties\<close>

lemma contains_asset_iff: "contains_asset ls key \<longleftrightarrow> key \<in> fst ` set ls"
  by (induction ls key rule: contains_asset.induct) auto

text \<open>Printing an asset and parsing it back is the identity, and the printed name and the
  asset itself are both keys of the exchange's asset list.\<close>

lemma Asset_roundtrip:
  "Asset_from_str (Asset_to_string a) = Ok a \<and>
   contains_asset internal_asset_list (AssetKey_from_str (Asset_to_string a)) \<and>
   contains_asset internal_asset_list (AssetKey_from_Asset a)"
  by (cases a)
    (simp_all add: Asset_from_str_def contains_asset_iff internal_asset_list_def AssetKey_from_str_def
      AssetKey_from_Asset_def)

text \<open>Parsing and the asset list disagree on exactly two names: the list has \<open>eth\<close>, which
  \<open>from_str\<close> refuses, and \<open>from_str\<close> accepts \<open>etc\<close>, which the list does not have.\<close>

theorem Asset_from_str_disagrees:
  "{s. (\<exists>a. Asset_from_str s = Ok a) \<noteq> contains_asset internal_asset_list (Static s)} = {''eth'', ''etc''}"
  by (auto simp: Asset_from_str_def contains_asset_iff internal_asset_list_def split: if_splits)

end
