(* ===== verification/Trading.thy ===== *)
theory Trading
  imports Try_Fill Asset
begin

text \<open>
  Placing and cancelling orders on the books of the exchange (\<open>trading/mod.rs\<close>,
  \<open>self_trade_protection.rs\<close>, \<open>timeinforce.rs\<close>). \<open>do_place_order\<close> composes the matching pass,
  the time-in-force rules, the commit and the insertion of the remainder.
\<close>

section \<open>Data\<close>

datatype SelfTradeProtection = DecreaseCancel | CancelOldest | CancelNewest | CancelBoth

definition SelfTradeProtection_default :: SelfTradeProtection where
  "SelfTradeProtection_default = DecreaseCancel"

datatype TimeInForce = GoodTilCanceled | GoodTilDate | ImmediateOrCancel | FillOrKill

definition TimeInForce_default :: TimeInForce where
  "TimeInForce_default = GoodTilCanceled"

datatype OrderUuid = OrderUuid Uuid

record PlaceOrder =
  po_asset :: Asset
  po_user_uuid :: Uuid
  po_price :: NonZeroU32
  po_quantity :: NonZeroU32
  po_order_type :: OrderType
  po_stp :: SelfTradeProtection
  po_time_in_force :: TimeInForce
  po_side :: OrderSide

definition PlaceOrder_new ::
  "Asset \<Rightarrow> Uuid \<Rightarrow> NonZeroU32 \<Rightarrow> NonZeroU32 \<Rightarrow> OrderType \<Rightarrow> SelfTradeProtection \<Rightarrow> TimeInForce \<Rightarrow>
   OrderSide \<Rightarrow> PlaceOrder" where
  "PlaceOrder_new asset user_uuid p q order_type stp time_in_force side =
     \<lparr>po_asset = asset, po_user_uuid = user_uuid, po_price = p, po_quantity = q,
      po_order_type = order_type, po_stp = stp, po_time_in_force = time_in_force, po_side = side\<rparr>"

record CancelOrder =
  co_user_uuid :: Uuid
  co_order_uuid :: OrderUuid

definition CancelOrder_new :: "Uuid \<Rightarrow> OrderUuid \<Rightarrow> CancelOrder" where
  "CancelOrder_new user_uuid order_uuid = \<lparr>co_user_uuid = user_uuid, co_order_uuid = order_uuid\<rparr>"

datatype PlaceOrderError =
    FillOrKillFailed
  | InsufficientLiquidity
  | ExecutePendingFill ExecutePendingFillError

record PlaceOrderResult =
  r_asset :: Asset
  r_user_uuid :: Uuid
  r_price :: NonZeroU32
  r_quantity :: NonZeroU32
  r_order_type :: OrderType
  r_stp :: SelfTradeProtection
  r_time_in_force :: TimeInForce
  r_side :: OrderSide
  r_order_uuid :: OrderUuid
  r_order_index :: "OrderIndex option"
  r_fill_type :: FillType
  r_quantity_filled :: u32
  r_quantity_remaining :: u32

text \<open>The payload of \<open>Database\<close> is the driver's error value, which the engine never inspects.\<close>

datatype TradingEngineError =
    Suspended
  | UnserializableInput
  | OrderNotFound Uuid OrderUuid
  | Database
  | PlaceOrderFailed PlaceOrderError

record AssetBook =
  ab_asset :: Asset
  ab_orderbook :: Orderbook

definition AssetBook_new :: "Asset \<Rightarrow> AssetBook" where
  "AssetBook_new a = \<lparr>ab_asset = a, ab_orderbook = Orderbook_new\<rparr>"

record Assets =
  order_uuids :: "OrderUuid \<rightharpoonup> (OrderIndex \<times> Asset)"
  eth :: AssetBook
  btc :: AssetBook

text \<open>\<open>match_asset_mut\<close> hands out a mutable reference: reading it is \<open>match_asset\<close>, assigning the
  order book behind it is \<open>write_asset\<close>.\<close>

definition match_asset :: "Assets \<Rightarrow> Asset \<Rightarrow> AssetBook" where
  "match_asset assets asset = (case asset of Ether \<Rightarrow> eth assets | Bitcoin \<Rightarrow> btc assets)"

definition write_asset :: "Assets \<Rightarrow> Asset \<Rightarrow> Orderbook \<Rightarrow> Assets" where
  "write_asset assets asset ob =
     (case asset of
        Ether \<Rightarrow> assets\<lparr>eth := (eth assets)\<lparr>ab_orderbook := ob\<rparr>\<rparr>
      | Bitcoin \<Rightarrow> assets\<lparr>btc := (btc assets)\<lparr>ab_orderbook := ob\<rparr>\<rparr>)"

section \<open>Placing an order\<close>

text \<open>The \<open>match (taker_fill_outcome, time_in_force)\<close> of \<open>do_place_order\<close>: the error of its early
  returns, or \<open>None\<close> to go on.\<close>

fun enforce_time_in_force :: "FillType \<Rightarrow> TimeInForce \<Rightarrow> PlaceOrderError option" where
  "enforce_time_in_force FillComplete _ = None"
| "enforce_time_in_force FillPartial GoodTilCanceled = None"
| "enforce_time_in_force FillPartial GoodTilDate = None"
| "enforce_time_in_force FillPartial ImmediateOrCancel = None"
| "enforce_time_in_force FillPartial FillOrKill = Some FillOrKillFailed"
| "enforce_time_in_force FillNone GoodTilCanceled = None"
| "enforce_time_in_force FillNone GoodTilDate = None"
| "enforce_time_in_force FillNone ImmediateOrCancel = Some InsufficientLiquidity"
| "enforce_time_in_force FillNone FillOrKill = Some FillOrKillFailed"

definition place_result ::
  "PlaceOrder \<Rightarrow> Uuid \<Rightarrow> OrderIndex option \<Rightarrow> FillType \<Rightarrow> u32 \<Rightarrow> u32 \<Rightarrow> PlaceOrderResult" where
  "place_result po uuid ix ft filled remaining =
     \<lparr>r_asset = po_asset po, r_user_uuid = po_user_uuid po, r_price = po_price po,
      r_quantity = po_quantity po, r_order_type = po_order_type po, r_stp = po_stp po,
      r_time_in_force = po_time_in_force po, r_side = po_side po, r_order_uuid = OrderUuid uuid,
      r_order_index = ix, r_fill_type = ft, r_quantity_filled = filled, r_quantity_remaining = remaining\<rparr>"

text \<open>\<open>uuid\<close> is the value \<open>Uuid::new_v4\<close> draws.\<close>

definition do_place_order ::
  "bool \<Rightarrow> Uuid \<Rightarrow> Assets \<Rightarrow> PlaceOrder \<Rightarrow> (Assets \<times> (PlaceOrderResult, TradingEngineError) result) run" where
  "do_place_order oc uuid assets po =
     (let asset = po_asset po; side = po_side po; q = po_quantity po;
          ob = ab_orderbook (match_asset assets asset);
          taker = \<lparr>memo = u32_MAX, quantity = q, price = po_price po\<rparr> in
      bind_run (try_fill_orders oc ob taker side (po_order_type po)) (\<lambda>pending_fill.
      case enforce_time_in_force (taker_fill_outcome pending_fill) (po_time_in_force po) of
        Some e \<Rightarrow> Ret (write_asset assets asset (abort pending_fill), Err (PlaceOrderFailed e))
      | None \<Rightarrow>
          bind_run (commit oc pending_fill) (\<lambda>(ob', committed).
          case committed of
            Ok (ft, Some order) \<Rightarrow>
              bind_run
                (if po_time_in_force po = ImmediateOrCancel then Ret (ob', None)
                 else bind_run (case side of Buy \<Rightarrow> push_bid oc ob' order | Sell \<Rightarrow> push_ask oc ob' order)
                        (\<lambda>(ob'', ix). Ret (ob'', Some ix))) (\<lambda>(ob'', order_index).
              bind_run (assert_run (nz_get q \<ge> nz_get (quantity order))) (\<lambda>_.
              bind_run (sub_u32 oc (nz_get q) (nz_get (quantity order))) (\<lambda>filled.
              Ret (write_asset assets asset ob'',
                Ok (place_result po uuid order_index ft filled (nz_get (quantity order)))))))
          | Ok (ft, None) \<Rightarrow>
              Ret (write_asset assets asset ob', Ok (place_result po uuid None ft (nz_get q) 0))
          | Err e \<Rightarrow>
              Ret (write_asset assets asset ob', Err (PlaceOrderFailed (ExecutePendingFill e))))))"

section \<open>Cancelling an order\<close>

definition do_cancel_order :: "Assets \<Rightarrow> CancelOrder \<Rightarrow> (Assets \<times> (unit, TradingEngineError) result) run" where
  "do_cancel_order assets co =
     (case order_uuids assets (co_order_uuid co) of
        None \<Rightarrow> Ret (assets, Err (OrderNotFound (co_user_uuid co) (co_order_uuid co)))
      | Some (order_index, asset) \<Rightarrow>
          bind_run (remove (ab_orderbook (match_asset assets asset)) order_index) (\<lambda>(ob, removed).
          bind_run (expect ''checked order'' removed) (\<lambda>_.
          Ret (write_asset assets asset ob, Ok ()))))"

section \<open>What placing an order does\<close>

definition taker_of :: "PlaceOrder \<Rightarrow> Order" where
  "taker_of po = \<lparr>memo = u32_MAX, quantity = po_quantity po, price = po_price po\<rparr>"

definition book_of :: "Assets \<Rightarrow> Asset \<Rightarrow> Orderbook" where
  "book_of assets a = ab_orderbook (match_asset assets a)"

text \<open>The resting orders an incoming order may trade with, and the ones its limit excludes.\<close>

definition accepted :: "Assets \<Rightarrow> PlaceOrder \<Rightarrow> Order list" where
  "accepted assets po =
     eligible (book_of assets (po_asset po)) (taker_of po) (po_side po) (po_order_type po)"

definition excluded :: "Assets \<Rightarrow> PlaceOrder \<Rightarrow> Order list" where
  "excluded assets po =
     ineligible (book_of assets (po_asset po)) (taker_of po) (po_side po) (po_order_type po)"

lemma taker_of_simps [simp]: "price (taker_of po) = po_price po" "quantity (taker_of po) = po_quantity po"
  "qty (taker_of po) = unat (nz_get (po_quantity po))"
  by (simp_all add: taker_of_def qty_def)

lemma book_of_write [simp]:
  "book_of (write_asset assets a ob) b = (if b = a then ob else book_of assets b)"
  "order_uuids (write_asset assets a ob) = order_uuids assets"
  by (cases a; cases b; simp add: book_of_def match_asset_def write_asset_def)
    (cases a; simp add: write_asset_def)

lemma write_asset_same [simp]: "write_asset assets a (book_of assets a) = assets"
  by (cases a) (simp_all add: book_of_def match_asset_def write_asset_def)

lemma outcome_of_simps:
  "outcome_of n q = FillNone \<longleftrightarrow> q = []"
  "outcome_of n q = FillPartial \<longleftrightarrow> q \<noteq> [] \<and> volume q < n"
  "outcome_of n q = FillComplete \<longleftrightarrow> q \<noteq> [] \<and> n \<le> volume q"
  by (auto simp: outcome_of_def)

lemma reduce_nz_get: "n < qty x \<Longrightarrow> nz_get (quantity (reduce n x)) = of_nat (qty x - n)"
  by (subst qty_reduce [symmetric]) (simp_all add: qty_def)

lemma unat_filled:
  assumes "n < unat (w :: u32)"
  shows "of_nat (unat w - n) \<le> w" and "w - of_nat (unat w - n) = (of_nat n :: u32)"
proof -
  have "unat (of_nat (unat w - n) :: u32) = unat w - n" by (rule unat_of_nat_u32_le [of _ w]) simp
  then show "of_nat (unat w - n) \<le> w" by (simp add: word_le_nat_alt)
  show "w - of_nat (unat w - n) = (of_nat n :: u32)" using assms by simp
qed

lemma place_rejected:
  assumes "book_wf (book_of assets (po_asset po))"
    and "enforce_time_in_force (outcome_of (unat (nz_get (po_quantity po))) (accepted assets po)) (po_time_in_force po)
       = Some err"
  shows "do_place_order oc uuid assets po = Ret (assets, Err (PlaceOrderFailed err))"
  using assms(2) write_asset_same [of assets "po_asset po"] try_fill_orders_wf [OF assms(1)]
  by (simp add: do_place_order_def Let_def PendingFill_new_def taker_fill_outcome_def abort_def qty_def
      accepted_def taker_of_def flip: book_of_def)

text \<open>The order that goes to rest: what is left of the taker, with the number its level gives it.\<close>

definition resting_order :: "Assets \<Rightarrow> PlaceOrder \<Rightarrow> u32 \<Rightarrow> Order" where
  "resting_order assets po m = (reduce (volume (accepted assets po)) (taker_of po))\<lparr>memo := m\<rparr>"

lemma place_committed:
  fixes assets po oc
  defines "e \<equiv> accepted assets po" and "n \<equiv> unat (nz_get (po_quantity po))" and "s \<equiv> po_side po" and "b \<equiv> book_of assets (po_asset po)"
  assumes wf: "book_wf b" and bound: "memo_bound k b"
  obtains pf ob where "try_fill_orders oc b (taker_of po) s (po_order_type po) = Ret pf" "taker_fill_outcome pf = outcome_of n e"
    "commit oc pf = Ret (ob, Ok (outcome_of n e, remainder_of (taker_of po) e))" "book_wf ob" "memo_bound k ob"
    "side_orders ob = (side_orders b)(maker_side s := consume n e @ excluded assets po)"
proof -
  obtain pf where pf: "try_fill_orders oc b (taker_of po) s (po_order_type po) = Ret pf" "taker_fill_outcome pf = outcome_of n e"
    using try_fill_orders_wf [OF wf, of oc "taker_of po" s "po_order_type po"]
    by (simp add: taker_fill_outcome_def PendingFill_new_def e_def accepted_def b_def s_def n_def)
  from commit_try_fill [OF wf pf(1)] bound obtain ob where
    "commit oc pf = Ret (ob, Ok (outcome_of n e, remainder_of (taker_of po) e))" "book_wf ob" "memo_bound k ob"
      "side_orders ob = (side_orders b)(maker_side s := consume n e @ excluded assets po)"
    by (auto simp: e_def n_def accepted_def excluded_def b_def s_def)
  with pf that show thesis by blast
qed

lemma place_cases [consumes 3, case_names rejected filled dropped resting]:
  fixes assets po oc uuid
  defines "e \<equiv> accepted assets po" and "i \<equiv> excluded assets po" and "n \<equiv> unat (nz_get (po_quantity po))"
    and "s \<equiv> po_side po" and "b \<equiv> book_of assets (po_asset po)"
    and "run \<equiv> do_place_order oc uuid assets po"
  assumes wf: "book_wf b" and bound: "memo_bound k b" and k: "k < 2 ^ 32 - 1"
  obtains err where "enforce_time_in_force (outcome_of n e) (po_time_in_force po) = Some err"
      "run = Ret (assets, Err (PlaceOrderFailed err))"
  | ob where "n \<le> volume e" "book_wf ob" "memo_bound k ob"
      "side_orders ob = (side_orders b)(maker_side s := consume n e @ i)"
      "run = Ret (write_asset assets (po_asset po) ob,
        Ok (place_result po uuid None FillComplete (nz_get (po_quantity po)) 0))"
  | ob where "po_time_in_force po = ImmediateOrCancel" "e \<noteq> []" "volume e < n" "book_wf ob" "memo_bound k ob"
      "side_orders ob = (side_orders b)(maker_side s := i)"
      "run = Ret (write_asset assets (po_asset po) ob,
        Ok (place_result po uuid None FillPartial (of_nat (volume e)) (of_nat (n - volume e))))"
  | ob m where "po_time_in_force po \<in> {GoodTilCanceled, GoodTilDate}" "volume e < n" "book_wf ob"
      "memo_bound (Suc k) ob"
      "side_orders ob = (side_orders b)(maker_side s := i,
         s := insert_side s (resting_order assets po m) (side_orders b s))"
      "run = Ret (write_asset assets (po_asset po) ob,
        Ok (place_result po uuid (Some (index_of s (resting_order assets po m))) (outcome_of n e)
          (of_nat (volume e)) (of_nat (n - volume e))))"
proof (cases "enforce_time_in_force (outcome_of n e) (po_time_in_force po)")
  case (Some err)
  then show ?thesis using place_rejected [of assets po err oc uuid] wf that(1) by (simp add: assms(1-6))
next
  case None
  let ?t = "taker_of po"
  obtain pf ob where pf: "try_fill_orders oc b ?t s (po_order_type po) = Ret pf" "taker_fill_outcome pf = outcome_of n e"
    and ob: "commit oc pf = Ret (ob, Ok (outcome_of n e, remainder_of ?t e))" "book_wf ob" "memo_bound k ob"
      "side_orders ob = (side_orders b)(maker_side s := consume n e @ i)"
    using place_committed [OF wf [unfolded b_def] bound [unfolded b_def], of oc] unfolding assms(1-5) by blast
  note start = do_place_order_def Let_def run_def pf(2) None ob(1) pf(1) [unfolded taker_of_def s_def b_def book_of_def]
  show ?thesis
  proof (cases "n \<le> volume e")
    case True
    moreover have "e \<noteq> []" using True unat_nz_get_pos [of "po_quantity po"] by (auto simp: n_def)
    ultimately show ?thesis
      using that(2) [OF True ob(2-4)] by (simp add: start remainder_of_def outcome_of_def flip: n_def)
  next
    case False
    let ?r = "reduce (volume e) ?t"
    have rem: "remainder_of ?t e = Some ?r" using False by (simp add: remainder_of_def n_def)
    have q: "nz_get (quantity ?r) = of_nat (n - volume e)"
      using False reduce_nz_get [of "volume e" ?t] by (simp add: n_def)
    have i: "side_orders ob = (side_orders b)(maker_side s := i)" using ob(4) False by (simp add: consume_all)
    have filled: "of_nat (n - volume e) \<le> nz_get (po_quantity po)"
      "nz_get (po_quantity po) - of_nat (n - volume e) = of_nat (volume e)"
      using False unat_filled [of "volume e" "nz_get (po_quantity po)"] by (simp_all add: n_def not_le)
    show ?thesis
    proof (cases "po_time_in_force po = ImmediateOrCancel")
      case True
      with None have "e \<noteq> []" by (auto simp: outcome_of_def)
      with False have out: "outcome_of n e = FillPartial" by (simp add: outcome_of_simps)
      have "run = Ret (write_asset assets (po_asset po) ob,
          Ok (place_result po uuid None FillPartial (of_nat (volume e)) (of_nat (n - volume e))))"
        using True filled by (simp add: start out rem q sub_u32_no_underflow del: of_nat_diff)
      with False True i ob(2,3) \<open>e \<noteq> []\<close> show ?thesis by (intro that(3)) simp_all
    next
      case tif: False
      from None False tif have gt: "po_time_in_force po \<in> {GoodTilCanceled, GoodTilDate}"
        by (cases "po_time_in_force po") (auto simp: outcome_of_def split: if_splits)
      from push_law [OF ob(2) memo_bound_next [OF ob(3) k], where oc = oc and s = s and t = ?r] obtain ob' m where
        ob': "push_side oc ob s ?r = Ret (ob', index_of s (?r\<lparr>memo := m\<rparr>))" "book_wf ob'" "memo_bound (Suc k) ob'"
          "side_orders ob' = (side_orders ob)(s := insert_side s (?r\<lparr>memo := m\<rparr>) (side_orders ob s))"
        using ob(3) by blast
      have "run = Ret (write_asset assets (po_asset po) ob',
          Ok (place_result po uuid (Some (index_of s (?r\<lparr>memo := m\<rparr>))) (outcome_of n e) (of_nat (volume e))
            (of_nat (n - volume e))))"
        using tif filled ob'(1) by (simp add: start rem q sub_u32_no_underflow push_side_def s_def split: OrderSide.splits)
      with gt False ob' i show ?thesis
        by (intro that(4) [of ob' m]) (simp_all add: resting_order_def e_def)
    qed
  qed
qed

end
