(* ===== verification/Placement.thy ===== *)
theory Placement
  imports Trading
begin

text \<open>
  What placing an order guarantees: the invariant of the books (well formed, never crossed, with
  head room for sequence numbers) is kept and nothing panics; rejections leave the books alone;
  quantities are conserved; and the whole operation refines a specification on plain lists of
  price and quantity (\<open>spec_place\<close>).
\<close>

section \<open>The invariant of the books\<close>

definition uncrossed :: "Orderbook \<Rightarrow> bool" where
  "uncrossed ob \<longleftrightarrow> (\<forall>x\<in>set (side_orders ob Buy). \<forall>y\<in>set (side_orders ob Sell). price x < price y)"

definition book_ok :: "nat \<Rightarrow> Orderbook \<Rightarrow> bool" where
  "book_ok k ob \<longleftrightarrow> book_wf ob \<and> memo_bound k ob \<and> uncrossed ob"

definition assets_ok :: "nat \<Rightarrow> Assets \<Rightarrow> bool" where
  "assets_ok k assets \<longleftrightarrow> (\<forall>a. book_ok k (book_of assets a))"

text \<open>Whether an order at price \<open>p\<close> on side \<open>s\<close> may rest opposite one at price \<open>q\<close>.\<close>

definition apart :: "OrderSide \<Rightarrow> NonZeroU32 \<Rightarrow> NonZeroU32 \<Rightarrow> bool" where
  "apart s p q \<longleftrightarrow> (case s of Buy \<Rightarrow> p < q | Sell \<Rightarrow> q < p)"

lemma uncrossed_apart:
  "uncrossed ob \<longleftrightarrow>
     (\<forall>x\<in>set (side_orders ob s). \<forall>y\<in>set (side_orders ob (maker_side s)). apart s (price x) (price y))"
  by (cases s) (auto simp: uncrossed_def apart_def)

lemma set_insert_side [simp]: "set (insert_side s x xs) = insert x (set xs)"
  by (cases s) (auto simp: insert_side_def insert_asc_def insert_desc_def)

lemma volume_filter_split: "volume (filter P xs) + volume (filter (\<lambda>x. \<not> P x) xs) = volume xs"
  by (induction xs) auto

lemma volume_insert_side [simp]: "volume (insert_side s x xs) = qty x + volume xs"
  using volume_filter_split [of "\<lambda>y. price y \<le> price x" xs] volume_filter_split [of "\<lambda>y. price x \<le> price y" xs]
  by (cases s) (simp_all add: insert_side_def insert_asc_def insert_desc_def not_le)

lemma excluded_apart:
  "y \<in> set (excluded assets po) \<Longrightarrow> apart (po_side po) (po_price po) (price y)"
  by (auto simp: excluded_def ineligible_def skip_order_def apart_def split: OrderSide.splits)

lemma excluded_subset: "set (excluded assets po) \<subseteq> set (side_orders (book_of assets (po_asset po)) (maker_side (po_side po)))"
  by (auto simp: excluded_def ineligible_def)

lemma consumed_price_mem:
  assumes "y \<in> set (consume n (accepted assets po) @ excluded assets po)"
  shows "\<exists>z\<in>set (side_orders (book_of assets (po_asset po)) (maker_side (po_side po))). price z = price y"
  using assms consume_price_mem [of y n "accepted assets po"] excluded_subset [of assets po]
  by (fastforce simp: accepted_def eligible_def)

lemma uncrossed_taken:
  assumes "uncrossed b" and "\<forall>y\<in>set q. \<exists>z\<in>set (side_orders b (maker_side s)). price z = price y"
    and "side_orders ob = (side_orders b)(maker_side s := q)"
  shows "uncrossed ob"
  using assms unfolding uncrossed_apart [where s = s] by simp metis

lemma uncrossed_rested:
  assumes "uncrossed b" and "set i \<subseteq> set (side_orders b (maker_side s))" and "\<forall>y\<in>set i. apart s (price x) (price y)"
    and "side_orders ob = (side_orders b)(maker_side s := i, s := insert_side s x (side_orders b s))"
  shows "uncrossed ob"
  using assms unfolding uncrossed_apart [where s = s] by auto

lemma resting_order_simps [simp]:
  "price (resting_order assets po m) = po_price po" "memo (resting_order assets po m) = m"
  by (simp_all add: resting_order_def)

lemma qty_resting_order:
  "volume (accepted assets po) < unat (nz_get (po_quantity po)) \<Longrightarrow>
   qty (resting_order assets po m) = unat (nz_get (po_quantity po)) - volume (accepted assets po)"
  using qty_reduce [of "volume (accepted assets po)" "taker_of po"] by (simp add: resting_order_def qty_def)

lemma memo_bound_Suc: "memo_bound k ob \<Longrightarrow> memo_bound (Suc k) ob"
  by (auto simp: memo_bound_def le_SucI)

lemma assets_ok_write:
  assumes "assets_ok k assets" and "book_ok (Suc k) ob"
  shows "assets_ok (Suc k) (write_asset assets a ob)"
  using assms by (auto simp: assets_ok_def book_ok_def memo_bound_Suc)

lemma assets_ok_Suc: "assets_ok k assets \<Longrightarrow> assets_ok (Suc k) assets"
  by (auto simp: assets_ok_def book_ok_def memo_bound_Suc)

lemma place_safe:
  assumes "assets_ok k assets" and "k < 2 ^ 32 - 1"
  shows "\<exists>assets' res. do_place_order oc uuid assets po = Ret (assets', res) \<and> assets_ok (Suc k) assets' \<and>
    order_uuids assets' = order_uuids assets \<and> (\<forall>a. a \<noteq> po_asset po \<longrightarrow> book_of assets' a = book_of assets a)"
proof -
  let ?b = "book_of assets (po_asset po)"
  have b: "book_wf ?b" "memo_bound k ?b" "uncrossed ?b" using assms(1) by (auto simp: assets_ok_def book_ok_def)
  from b(1,2) assms(2) show ?thesis
  proof (cases rule: place_cases [where oc = oc and uuid = uuid])
    case (rejected err)
    with assets_ok_Suc [OF assms(1)] show ?thesis by simp
  next
    case (filled ob)
    have "uncrossed ob" by (rule uncrossed_taken [OF b(3) _ filled(4)]) (blast dest: consumed_price_mem)
    with filled assets_ok_write [OF assms(1), of ob] show ?thesis by (simp add: book_ok_def memo_bound_Suc)
  next
    case (dropped ob)
    have "uncrossed ob" by (rule uncrossed_taken [OF b(3) _ dropped(6)]) (use excluded_subset in blast)
    with dropped assets_ok_write [OF assms(1), of ob] show ?thesis by (simp add: book_ok_def memo_bound_Suc)
  next
    case (resting ob m)
    have "uncrossed ob" by (rule uncrossed_rested [OF b(3) excluded_subset _ resting(5)]) (simp add: excluded_apart)
    with resting assets_ok_write [OF assms(1), of ob] show ?thesis by (simp add: book_ok_def)
  qed
qed

interpretation books: total_system "\<lambda>(uuid, po) assets. do_place_order oc uuid assets po" assets_ok "2 ^ 32 - 1" for oc
proof unfold_locales
  fix k assets and c :: "128 word \<times> PlaceOrder"
  assume "assets_ok k assets" "k < 2 ^ 32 - 1"
  from place_safe [OF this, of oc "fst c" "snd c"]
  show "\<exists>assets' res. (case c of (uuid, po) \<Rightarrow> \<lambda>assets. do_place_order oc uuid assets po) assets = Ret (assets', res) \<and>
      assets_ok (Suc k) assets'"
    unfolding case_prod_unfold by blast
qed

section \<open>A concrete state\<close>

definition sample_assets :: Assets where
  "sample_assets = \<lparr>order_uuids = [OrderUuid 5 \<mapsto> (\<lparr>ix_side = Sell, ix_price = nz 110, ix_memo = 0\<rparr>, Bitcoin)],
     eth = AssetBook_new Ether, btc = \<lparr>ab_asset = Bitcoin, ab_orderbook = sample_book\<rparr>\<rparr>"

text \<open>A bitcoin buy order at the limit price 100.\<close>

definition sample_buy :: "TimeInForce \<Rightarrow> u32 \<Rightarrow> PlaceOrder" where
  "sample_buy tif q = \<lparr>po_asset = Bitcoin, po_user_uuid = 1, po_price = nz 100, po_quantity = nz q,
     po_order_type = Limit, po_stp = DecreaseCancel, po_time_in_force = tif, po_side = Buy\<rparr>"

lemma sample_book_of [simp]: "book_of sample_assets Bitcoin = sample_book" "book_of sample_assets Ether = Orderbook_new"
  by (simp_all add: sample_assets_def book_of_def match_asset_def AssetBook_new_def)

lemma sample_book_ok: "book_ok 2 sample_book"
proof -
  have "memo_bound 2 sample_book"
    by (auto simp: memo_bound_def next_memo_def sample_book_def side_levels_def split: OrderSide.splits)
  moreover have "uncrossed sample_book" by (simp add: uncrossed_def sample_book_orders)
  ultimately show ?thesis using sample_book_wf by (simp add: book_ok_def)
qed

lemma sample_assets_ok: "assets_ok 2 sample_assets"
proof -
  note sample_book_ok
  moreover have "book_ok 2 Orderbook_new"
    using book_wf_new by (auto simp: book_ok_def uncrossed_def memo_bound_def)
  ultimately have "book_ok 2 (book_of sample_assets a)" for a by (cases a) simp_all
  then show ?thesis by (simp add: assets_ok_def)
qed

lemma sample_buy_simps [simp]:
  "po_asset (sample_buy tif q) = Bitcoin" "po_price (sample_buy tif q) = nz 100" "po_quantity (sample_buy tif q) = nz q"
  "po_order_type (sample_buy tif q) = Limit" "po_time_in_force (sample_buy tif q) = tif" "po_side (sample_buy tif q) = Buy"
  by (simp_all add: sample_buy_def)

lemma sample_accepted [simp]:
  "volume (accepted sample_assets (sample_buy tif q)) = 50" "accepted sample_assets (sample_buy tif q) \<noteq> []"
  by (simp_all add: accepted_def eligible_def sample_book_orders skip_order_def qty_def)

section \<open>A specification on prices and quantities\<close>

type_synonym spec_book = "OrderSide \<Rightarrow> (NonZeroU32 \<times> nat) list"

fun spec_take :: "nat \<Rightarrow> ('p \<times> nat) list \<Rightarrow> ('p \<times> nat) list" where
  "spec_take n [] = []"
| "spec_take n ((p, q) # xs) =
     (if n = 0 then (p, q) # xs else if q \<le> n then spec_take (n - q) xs else (p, q - n) # xs)"

definition spec_accepts :: "OrderSide \<Rightarrow> OrderType \<Rightarrow> NonZeroU32 \<Rightarrow> NonZeroU32 \<times> nat \<Rightarrow> bool" where
  "spec_accepts s ty p o' \<longleftrightarrow> ty = Market \<or> (case s of Buy \<Rightarrow> fst o' \<le> p | Sell \<Rightarrow> p \<le> fst o')"

definition spec_insert :: "OrderSide \<Rightarrow> NonZeroU32 \<times> nat \<Rightarrow> (NonZeroU32 \<times> nat) list \<Rightarrow> (NonZeroU32 \<times> nat) list" where
  "spec_insert s x xs =
     (let before = (\<lambda>y. case s of Buy \<Rightarrow> fst x \<le> fst y | Sell \<Rightarrow> fst y \<le> fst x) in
      takeWhile before xs @ x # dropWhile before xs)"

text \<open>
  Place an order for \<open>n\<close> units at price \<open>p\<close>: the result is \<open>None\<close> for a rejection, else the
  units filled and the units left over.
\<close>

definition spec_place ::
  "spec_book \<Rightarrow> OrderSide \<Rightarrow> OrderType \<Rightarrow> TimeInForce \<Rightarrow> NonZeroU32 \<Rightarrow> nat \<Rightarrow> spec_book \<times> (nat \<times> nat) option" where
  "spec_place B s ty tif p n =
     (let opp = B (maker_side s); acc = takeWhile (spec_accepts s ty p) opp;
          rest = dropWhile (spec_accepts s ty p) opp; vol = sum_list (map snd acc) in
      if tif = FillOrKill \<and> vol < n \<or> tif = ImmediateOrCancel \<and> acc = [] then (B, None)
      else if n \<le> vol then (B(maker_side s := spec_take n acc @ rest), Some (n, 0))
      else if tif = ImmediateOrCancel then (B(maker_side s := rest), Some (vol, n - vol))
      else (B(maker_side s := rest, s := spec_insert s (p, n - vol) (B s)), Some (vol, n - vol)))"

definition row :: "Order \<Rightarrow> NonZeroU32 \<times> nat" where
  "row x = (price x, qty x)"

definition spec_view :: "Orderbook \<Rightarrow> spec_book" where
  "spec_view ob s = map row (side_orders ob s)"

definition spec_result :: "(PlaceOrderResult, TradingEngineError) result \<Rightarrow> (nat \<times> nat) option" where
  "spec_result r = (case r of Err _ \<Rightarrow> None
     | Ok x \<Rightarrow> Some (unat (r_quantity_filled x), unat (r_quantity_remaining x)))"

lemma row_simps [simp]: "fst (row x) = price x" "snd (row x) = qty x"
  by (simp_all add: row_def)

lemma volume_row: "volume xs = sum_list (map snd (map row xs))"
  by (simp add: volume_def comp_def)

lemma spec_take_row: "map row (consume n xs) = spec_take n (map row xs)"
  by (induction n xs rule: consume.induct) (auto simp: row_def qty_reduce)

lemma takeWhile_filter_sorted:
  "sorted_wrt (\<lambda>x y. P y \<longrightarrow> P x) xs \<Longrightarrow>
   takeWhile P xs = filter P xs \<and> dropWhile P xs = filter (\<lambda>x. \<not> P x) xs"
proof (induction xs)
  case (Cons x xs)
  then show ?case by (cases "P x") (auto simp: filter_empty_conv filter_id_conv)
qed simp

lemma spec_accepts_row: "spec_accepts s ty p (row x) \<longleftrightarrow> \<not> skip_order ty s \<lparr>memo = m, quantity = q, price = p\<rparr> x"
  by (cases s; cases ty) (auto simp: spec_accepts_def skip_order_def)

lemma spec_split:
  assumes "book_wf (book_of assets (po_asset po))"
  defines "Q \<equiv> spec_view (book_of assets (po_asset po)) (maker_side (po_side po))"
  shows "takeWhile (spec_accepts (po_side po) (po_order_type po) (po_price po)) Q = map row (accepted assets po)"
    and "dropWhile (spec_accepts (po_side po) (po_order_type po) (po_price po)) Q = map row (excluded assets po)"
proof -
  let ?P = "\<lambda>x. \<not> skip_order (po_order_type po) (po_side po) (taker_of po) x"
  let ?xs = "side_orders (book_of assets (po_asset po)) (maker_side (po_side po))"
  have P: "spec_accepts (po_side po) (po_order_type po) (po_price po) \<circ> row = ?P"
    by (simp add: fun_eq_iff taker_of_def spec_accepts_row [where m = u32_MAX and q = "po_quantity po"])
  have "sorted_wrt (\<lambda>x y. ?P y \<longrightarrow> ?P x) ?xs"
    by (rule sorted_wrt_mono_rel [OF _ side_orders_outranks [OF assms(1)]]) (blast dest: skip_order_mono)
  from takeWhile_filter_sorted [OF this]
  show "takeWhile (spec_accepts (po_side po) (po_order_type po) (po_price po)) Q = map row (accepted assets po)"
    and "dropWhile (spec_accepts (po_side po) (po_order_type po) (po_price po)) Q = map row (excluded assets po)"
    by (simp_all add: Q_def spec_view_def takeWhile_map dropWhile_map P accepted_def excluded_def eligible_def ineligible_def)
qed

lemma spec_insert_row:
  assumes "book_wf ob"
  shows "map row (insert_side s x (side_orders ob s)) = spec_insert s (row x) (spec_view ob s)"
proof -
  let ?P = "\<lambda>y. case s of Buy \<Rightarrow> price x \<le> price y | Sell \<Rightarrow> price y \<le> price x"
  have "sorted_wrt (\<lambda>a b. ?P b \<longrightarrow> ?P a) (side_orders ob s)"
    by (rule sorted_wrt_mono_rel [OF _ side_orders_outranks [OF assms]])
      (cases s; auto simp: outranks_def)
  from takeWhile_filter_sorted [OF this] show ?thesis
    by (cases s) (simp_all add: insert_side_def insert_asc_def insert_desc_def spec_insert_def spec_view_def
        takeWhile_map dropWhile_map comp_def not_le)
qed

lemma unat_of_nat_diff_u32: "unat (of_nat (unat (w :: u32) - n) :: u32) = unat w - n"
  by (rule unat_of_nat_u32_le [of _ w]) simp

lemma spec_view_upd:
  "side_orders ob = (side_orders b)(m := q) \<Longrightarrow> spec_view ob = (spec_view b)(m := map row q)"
  "side_orders ob = (side_orders b)(m := q, s := q') \<Longrightarrow> spec_view ob = (spec_view b)(m := map row q, s := map row q')"
  by (auto simp: spec_view_def fun_eq_iff)

lemma place_result_simps [simp]: "r_quantity_filled (place_result po uuid ix ft f r) = f"
  "r_quantity_remaining (place_result po uuid ix ft f r) = r" "r_order_index (place_result po uuid ix ft f r) = ix"
  "r_fill_type (place_result po uuid ix ft f r) = ft"
  by (simp_all add: place_result_def)

lemma row_resting_order:
  "volume (accepted assets po) < unat (nz_get (po_quantity po)) \<Longrightarrow>
   row (resting_order assets po m) = (po_price po, unat (nz_get (po_quantity po)) - volume (accepted assets po))"
  by (simp add: row_def qty_resting_order)

text \<open>C2: placing an order refines the specification on prices and quantities. Under the
  invariant, the real operation returns and, read as lists of (price, quantity) in priority order,
  the book it leaves and the filled and remaining quantities it reports are the ones the
  specification gives: take the accepted prefix of the opposite side from its head, reject what
  fill-or-kill and immediate-or-cancel reject, and rest the remainder behind equal prices.\<close>

theorem do_place_order_refines_spec:
  assumes "assets_ok k assets" and "k < 2 ^ 32 - 1"
  shows "\<exists>assets' res. do_place_order oc uuid assets po = Ret (assets', res) \<and>
    (spec_view (book_of assets' (po_asset po)), spec_result res) =
    spec_place (spec_view (book_of assets (po_asset po))) (po_side po) (po_order_type po) (po_time_in_force po)
      (po_price po) (unat (nz_get (po_quantity po)))"
proof -
  let ?b = "book_of assets (po_asset po)" and ?e = "accepted assets po" and ?n = "unat (nz_get (po_quantity po))"
  have b: "book_wf ?b" "memo_bound k ?b" using assms(1) by (auto simp: assets_ok_def book_ok_def)
  note spec = spec_place_def Let_def spec_split [OF b(1)] spec_result_def volume_row [symmetric]
  from b assms(2) show ?thesis
  proof (cases rule: place_cases [where oc = oc and uuid = uuid])
    case (rejected err)
    then have "po_time_in_force po = FillOrKill \<and> volume ?e < ?n \<or> po_time_in_force po = ImmediateOrCancel \<and> ?e = []"
      by (cases "po_time_in_force po") (auto simp: outcome_of_def split: if_splits)
    with rejected show ?thesis by (auto simp: spec simp del: map_map)
  next
    case (filled ob)
    then have "?e \<noteq> []" by auto
    with filled show ?thesis
      by (simp add: spec spec_view_upd(1) [OF filled(4)] spec_take_row del: map_map)
  next
    case (dropped ob)
    then show ?thesis
      by (simp add: spec spec_view_upd(1) [OF dropped(6)] unat_of_nat_diff_u32
          unat_of_nat_u32_le [of _ "nz_get (po_quantity po)"] del: map_map of_nat_diff)
  next
    case (resting ob m)
    then have "po_time_in_force po \<noteq> ImmediateOrCancel" "po_time_in_force po \<noteq> FillOrKill" by auto
    with resting show ?thesis
      by (simp add: spec spec_view_upd(2) [OF resting(5)] spec_insert_row [OF b(1)] row_resting_order
          unat_of_nat_diff_u32 unat_of_nat_u32_le [of _ "nz_get (po_quantity po)"] del: map_map of_nat_diff)
  qed
qed

theorem do_place_order_refines_spec_witness:
  "\<exists>assets' res. do_place_order True 9 sample_assets (sample_buy GoodTilCanceled 70) = Ret (assets', res) \<and>
     spec_result res = Some (50, 20)"
proof -
  have "snd (spec_place (spec_view sample_book) Buy Limit GoodTilCanceled (nz 100) 70) = Some (50, 20)"
    by (simp add: spec_place_def spec_view_def sample_book_orders row_def qty_def spec_accepts_def)
  moreover have "\<exists>assets' res. do_place_order True 9 sample_assets (sample_buy GoodTilCanceled 70) = Ret (assets', res) \<and>
      (spec_view (book_of assets' Bitcoin), spec_result res) =
        spec_place (spec_view sample_book) Buy Limit GoodTilCanceled (nz 100) 70"
    using do_place_order_refines_spec [OF sample_assets_ok, of True 9 "sample_buy GoodTilCanceled 70"]
    by simp
  ultimately show ?thesis by (metis snd_conv)
qed

section \<open>Rejections, quantities and resting orders\<close>

text \<open>C13: an order is refused exactly when its time in force demands it: fill-or-kill with too little
  accepted volume, or immediate-or-cancel with none. The error says which, a refused order
  changes nothing at all, and no other error arises.\<close>

theorem do_place_order_refused_iff:
  fixes assets :: Assets and po :: PlaceOrder
  assumes "assets_ok k assets" and "k < 2 ^ 32 - 1"
  defines "vol \<equiv> volume (accepted assets po)" and "n \<equiv> unat (nz_get (po_quantity po))"
  shows "do_place_order oc uuid assets po = Ret (assets', Err err) \<longleftrightarrow> assets' = assets \<and>
    (po_time_in_force po = FillOrKill \<and> vol < n \<and> err = PlaceOrderFailed FillOrKillFailed \<or>
     po_time_in_force po = ImmediateOrCancel \<and> vol = 0 \<and> err = PlaceOrderFailed InsufficientLiquidity)"
proof -
  have b: "book_wf (book_of assets (po_asset po))" "memo_bound k (book_of assets (po_asset po))"
    using assms(1) by (auto simp: assets_ok_def book_ok_def)
  from b assms(2) show ?thesis
    by (cases rule: place_cases [where oc = oc and uuid = uuid]; cases "po_time_in_force po")
      (auto simp: outcome_of_def vol_def n_def split: if_splits)
qed

theorem do_place_order_refused_iff_witness:
  "do_place_order True 9 sample_assets (sample_buy FillOrKill 70) = Ret (sample_assets, Err (PlaceOrderFailed FillOrKillFailed))"
  using do_place_order_refused_iff [OF sample_assets_ok, of True 9 "sample_buy FillOrKill 70" sample_assets]
  by simp

text \<open>C12: quantities are conserved. When an order is placed, filled plus remaining is the quantity asked
  for and the filled part is as large as the accepted volume allows; the opposite side loses exactly
  the filled quantity; the order's own side gains exactly the remaining quantity, or nothing
  under immediate-or-cancel.\<close>

theorem do_place_order_conserves:
  fixes assets assets' :: Assets and po :: PlaceOrder
  assumes "assets_ok k assets" and "k < 2 ^ 32 - 1"
    and "do_place_order oc uuid assets po = Ret (assets', Ok r)"
  defines "b \<equiv> book_of assets (po_asset po)" and "b' \<equiv> book_of assets' (po_asset po)"
    and "n \<equiv> unat (nz_get (po_quantity po))" and "s \<equiv> po_side po"
  shows "unat (r_quantity_filled r) + unat (r_quantity_remaining r) = n \<and>
    unat (r_quantity_filled r) = min n (volume (accepted assets po)) \<and>
    volume (side_orders b (maker_side s)) = volume (side_orders b' (maker_side s)) + unat (r_quantity_filled r) \<and>
    volume (side_orders b' s) = volume (side_orders b s) +
      (if po_time_in_force po = ImmediateOrCancel then 0 else unat (r_quantity_remaining r))"
proof -
  have wf: "book_wf b" "memo_bound k b" using assms(1) by (auto simp: assets_ok_def book_ok_def b_def)
  have split: "volume (side_orders b (maker_side s)) = volume (accepted assets po) + volume (excluded assets po)"
    using eligible_split [OF wf(1), of s "taker_of po" "po_order_type po"]
    by (simp add: accepted_def excluded_def b_def s_def)
  note arith = unat_of_nat_diff_u32 unat_of_nat_u32_le [of _ "nz_get (po_quantity po)"]
  from wf [unfolded b_def] assms(2) show ?thesis
  proof (cases rule: place_cases [where oc = oc and uuid = uuid])
    case (rejected err)
    with assms(3) show ?thesis by simp
  next
    case (filled ob)
    with assms(3) split show ?thesis by (auto simp: assms(4-7) volume_consume)
  next
    case (dropped ob)
    with assms(3) split show ?thesis by (auto simp: assms(4-7) arith simp del: of_nat_diff)
  next
    case (resting ob m)
    with assms(3) split show ?thesis
      by (auto simp: assms(4-7) arith qty_resting_order simp del: of_nat_diff)
  qed
qed

theorem do_place_order_conserves_witness:
  "\<exists>assets' r. do_place_order True 9 sample_assets (sample_buy ImmediateOrCancel 70) = Ret (assets', Ok r) \<and>
     unat (r_quantity_filled r) = 50 \<and> unat (r_quantity_remaining r) = 20"
proof -
  have wf: "book_wf (book_of sample_assets (po_asset (sample_buy ImmediateOrCancel 70)))"
    "memo_bound 2 (book_of sample_assets (po_asset (sample_buy ImmediateOrCancel 70)))" "(2 :: nat) < 2 ^ 32 - 1"
    using sample_book_ok by (simp_all add: book_ok_def)
  obtain assets' r where run: "do_place_order True 9 sample_assets (sample_buy ImmediateOrCancel 70) = Ret (assets', Ok r)"
    using wf by (cases rule: place_cases [where oc = True and uuid = 9])
      (auto simp: outcome_of_def split: if_splits)
  from do_place_order_conserves [OF sample_assets_ok _ run] run show ?thesis
    by simp
qed

lemma insert_side_eq:
  "insert_side s x xs =
     filter (\<lambda>y. case s of Buy \<Rightarrow> price x \<le> price y | Sell \<Rightarrow> price y \<le> price x) xs @ x #
     filter (\<lambda>y. \<not> (case s of Buy \<Rightarrow> price x \<le> price y | Sell \<Rightarrow> price y \<le> price x)) xs"
  by (cases s) (simp_all add: insert_side_def insert_asc_def insert_desc_def not_le)

lemma insert_side_new_key:
  assumes "distinct (map okey (insert_side s x xs))"
  shows "okey x \<notin> okey ` set xs"
proof -
  obtain P where "insert_side s x xs = filter P xs @ x # filter (\<lambda>y. \<not> P y) xs"
    by (rule that [OF insert_side_eq])
  with assms have "okey x \<notin> okey ` (set (filter P xs) \<union> set (filter (\<lambda>y. \<not> P y) xs))" by auto
  moreover have "set xs = set (filter P xs) \<union> set (filter (\<lambda>y. \<not> P y) xs)" by auto
  ultimately show ?thesis by metis
qed

lemma insert_side_filter:
  assumes "okey x \<notin> okey ` set xs" and "sorted_wrt (outranks s) xs"
  shows "filter (\<lambda>y. okey y \<noteq> okey x) (insert_side s x xs) = xs"
proof -
  let ?P = "\<lambda>y. case s of Buy \<Rightarrow> price x \<le> price y | Sell \<Rightarrow> price y \<le> price x"
  have "sorted_wrt (\<lambda>a b. ?P b \<longrightarrow> ?P a) xs"
    by (rule sorted_wrt_mono_rel [OF _ assms(2)]) (cases s; auto simp: outranks_def)
  note part = filter_partition_sorted [OF this]
  have keep: "filter (\<lambda>y. okey y \<noteq> okey x) (filter Q xs) = filter Q xs" for Q
    by (rule filter_key_notin) (use assms(1) in auto)
  show ?thesis by (simp only: insert_side_eq filter_append filter.simps keep part simp_thms if_False)
qed

text \<open>C14: the index reported for an order that rests finds it. It is reported exactly when something
  remains and the order is not immediate-or-cancel; looking it up yields an order at the limit price with the
  remaining quantity, and removing it gives that order back and leaves the queues as if the
  remainder had been dropped.\<close>

theorem do_place_order_index_roundtrip:
  fixes assets assets' :: Assets and po :: PlaceOrder
  assumes "assets_ok k assets" and "k < 2 ^ 32 - 1"
    and "do_place_order oc uuid assets po = Ret (assets', Ok r)"
  defines "b \<equiv> book_of assets (po_asset po)" and "b' \<equiv> book_of assets' (po_asset po)" and "s \<equiv> po_side po"
  shows "(r_order_index r \<noteq> None \<longleftrightarrow> r_quantity_remaining r \<noteq> 0 \<and> po_time_in_force po \<noteq> ImmediateOrCancel) \<and>
    (\<forall>ix. r_order_index r = Some ix \<longrightarrow>
      (\<exists>x p b''. get_mut b' ix = Ret (Some (p, x)) \<and> remove b' ix = Ret (b'', Some x) \<and>
         price x = po_price po \<and> nz_get (quantity x) = r_quantity_remaining r \<and>
         side_orders b'' s = side_orders b s \<and>
         side_orders b'' (maker_side s) = side_orders b' (maker_side s)))"
proof -
  have wf: "book_wf b" "memo_bound k b" using assms(1) by (auto simp: assets_ok_def book_ok_def b_def)
  note arith = unat_of_nat_diff_u32 unat_of_nat_u32_le [of _ "nz_get (po_quantity po)"]
  from wf [unfolded b_def] assms(2) show ?thesis
  proof (cases rule: place_cases [where oc = oc and uuid = uuid])
    case (resting ob m)
    let ?x = "resting_order assets po m"
    from resting(6) assms(3) have r: "r_order_index r = Some (index_of s ?x)" "b' = ob"
        "r_quantity_remaining r = of_nat (unat (nz_get (po_quantity po)) - volume (accepted assets po))"
      by (auto simp: b'_def s_def)
    have q: "side_orders ob s = insert_side s ?x (side_orders b s)" using resting(5) by (simp add: b_def s_def)
    have left: "nz_get (quantity ?x) = r_quantity_remaining r"
      using reduce_nz_get [of "volume (accepted assets po)" "taker_of po"] resting(2) by (simp add: resting_order_def r(3))
    have new: "okey ?x \<notin> okey ` set (side_orders b s)"
      using side_orders_distinct [OF resting(3), of s] q by (intro insert_side_new_key) simp
    have mem: "?x \<in> set (side_orders ob s)" by (simp add: q)
    from book.delete_law [OF resting(3), of "index_of s ?x"] book.find_mem [OF resting(3) mem] obtain b'' where
      b'': "remove ob (index_of s ?x) = Ret (b'', Some ?x)"
        "side_orders b'' = (side_orders ob)(s := side_orders b s)"
      using insert_side_filter [OF new side_orders_outranks [OF wf(1)]] by (auto simp: q)
    from book.lookup_mem [OF resting(3) mem] obtain p where "get_mut ob (index_of s ?x) = Ret (Some (p, ?x))" by blast
    with b'' r(1,2) resting(1) show ?thesis by (cases p) (auto simp: left [symmetric])
  qed (use assms(3) in \<open>auto simp: arith simp flip: unat_eq_zero simp del: of_nat_diff\<close>)
qed

theorem do_place_order_index_roundtrip_witness:
  "\<exists>assets' r. do_place_order True 9 sample_assets (sample_buy GoodTilCanceled 70) = Ret (assets', Ok r) \<and>
     (r_order_index r \<noteq> None \<longleftrightarrow> r_quantity_remaining r \<noteq> 0)"
proof -
  have wf: "book_wf (book_of sample_assets (po_asset (sample_buy GoodTilCanceled 70)))"
    "memo_bound 2 (book_of sample_assets (po_asset (sample_buy GoodTilCanceled 70)))" "(2 :: nat) < 2 ^ 32 - 1"
    using sample_book_ok by (simp_all add: book_ok_def)
  obtain assets' r where run: "do_place_order True 9 sample_assets (sample_buy GoodTilCanceled 70) = Ret (assets', Ok r)"
    using wf by (cases rule: place_cases [where oc = True and uuid = 9])
      (auto simp: outcome_of_def split: if_splits)
  from do_place_order_index_roundtrip [OF sample_assets_ok _ run] run show ?thesis by simp
qed

section \<open>Cancelling\<close>

text \<open>C29: cancelling an order that the map of order ids knows removes exactly that order, touches nothing else and keeps the
  book well formed. The entry of the map stays, so that cancelling the same id a second time panics.\<close>

theorem do_cancel_order_removes_then_panics:
  assumes "book_wf (book_of assets a)" and "order_uuids assets (co_order_uuid co) = Some (index_of s x, a)"
    and "x \<in> set (side_orders (book_of assets a) s)"
  shows "\<exists>assets'. do_cancel_order assets co = Ret (assets', Ok ()) \<and> book_wf (book_of assets' a) \<and>
    side_orders (book_of assets' a) = (side_orders (book_of assets a))(s :=
      filter (\<lambda>y. okey y \<noteq> okey x) (side_orders (book_of assets a) s)) \<and>
    (\<forall>b. b \<noteq> a \<longrightarrow> book_of assets' b = book_of assets b) \<and>
    do_cancel_order assets' co = Panic (ExpectFailed ''checked order'')"
proof -
  let ?b = "book_of assets a"
  from book.delete_law [OF assms(1), of "index_of s x"] book.find_mem [OF assms(1,3)] obtain ob where
    ob: "remove ?b (index_of s x) = Ret (ob, Some x)" "book_wf ob"
      "side_orders ob = (side_orders ?b)(s := filter (\<lambda>y. okey y \<noteq> okey x) (side_orders ?b s))" by auto
  let ?a = "write_asset assets a ob"
  have first: "do_cancel_order assets co = Ret (?a, Ok ())"
    using assms(2) ob(1) by (simp add: do_cancel_order_def book_of_def)
  have gone: "\<forall>y\<in>set (side_orders ob (ix_side (index_of s x))). okey y \<noteq> ix_key (index_of s x)" by (auto simp: ob(3))
  from book.delete_missing [OF ob(2) gone] obtain ob2 where "remove (book_of ?a a) (index_of s x) = Ret (ob2, None)" by auto
  then have "do_cancel_order ?a co = Panic (ExpectFailed ''checked order'')"
    using assms(2) by (simp add: do_cancel_order_def book_of_def [symmetric])
  with first ob show ?thesis by auto
qed

theorem do_cancel_order_removes_then_panics_witness:
  "\<exists>assets'. do_cancel_order sample_assets (CancelOrder_new 1 (OrderUuid 5)) = Ret (assets', Ok ()) \<and>
     do_cancel_order assets' (CancelOrder_new 1 (OrderUuid 5)) = Panic (ExpectFailed ''checked order'')"
proof -
  let ?x = "\<lparr>memo = 0, quantity = nz 50, price = nz 110\<rparr>"
  have "order_uuids sample_assets (co_order_uuid (CancelOrder_new 1 (OrderUuid 5))) = Some (index_of Sell ?x, Bitcoin)"
    by (simp add: sample_assets_def CancelOrder_new_def index_of_def)
  moreover have "?x \<in> set (side_orders (book_of sample_assets Bitcoin) Sell)" by (simp add: sample_book_orders)
  ultimately show ?thesis
    using do_cancel_order_removes_then_panics [of sample_assets Bitcoin "CancelOrder_new 1 (OrderUuid 5)" Sell ?x]
    by (auto simp: sample_book_wf)
qed

end
