(* ===== verification/Engine.thy ===== *)
theory Engine
  imports Placement
begin

text \<open>
  The trading engine task (\<open>spawn_trading_engine.rs\<close> and the command types of
  \<open>trading/mod.rs\<close>): one loop that receives commands, applies them to the books, appends
  every trade command to the event table and answers on a one-shot channel. The event table, the
  answers and the outside world (whether an \<open>INSERT\<close> succeeds, the random order id) are explicit. The
  JSON encoding derived by \<open>serde\<close> is a parameter, \<open>codec\<close>.
\<close>

section \<open>Commands\<close>

datatype TradeCmdPayload = PayloadPlaceOrder PlaceOrder | PayloadCancelOrder CancelOrder

text \<open>A one-shot channel is named by a number.\<close>

datatype TradeCmd = CmdPlaceOrder PlaceOrder nat | CmdCancelOrder CancelOrder nat

datatype TradingEngineCmd = Shutdown | Suspend | Resume | Trade TradeCmd | Bootstrap TradeCmdPayload

datatype Reply =
    PlaceReply "(PlaceOrderResult, TradingEngineError) result"
  | CancelReply "(unit, TradingEngineError) result"

text \<open>The messages that \<open>consume_respond_with_error\<close> sends.\<close>

definition consume_respond_with_error :: "TradingEngineCmd \<Rightarrow> TradingEngineError \<Rightarrow> (nat \<times> Reply) list" where
  "consume_respond_with_error cmd err =
     (case cmd of
        Trade (CmdPlaceOrder _ tx) \<Rightarrow> [(tx, PlaceReply (Err err))]
      | Trade (CmdCancelOrder _ tx) \<Rightarrow> [(tx, CancelReply (Err err))]
      | _ \<Rightarrow> [])"

text \<open>\<open>TeResponse::wait\<close>: the answer, or \<open>None\<close> when the sender was dropped without one.\<close>

definition TeResponse_wait :: "(nat \<times> Reply) list \<Rightarrow> nat \<Rightarrow> Reply option" where
  "TeResponse_wait sent rx = map_of sent rx"

section \<open>The supervisor\<close>

text \<open>\<open>serde_json::to_value\<close> on the two kinds of commands and \<open>from_value\<close> to a payload.\<close>

record 'j codec =
  place_to_value :: "PlaceOrder \<Rightarrow> 'j option"
  cancel_to_value :: "CancelOrder \<Rightarrow> 'j option"
  from_value :: "'j \<Rightarrow> TradeCmdPayload option"

text \<open>What the world decides while one command is processed.\<close>

record world =
  new_v4 :: Uuid
  insert_ok :: bool

record 'j Supervisor =
  te_assets :: Assets
  running :: bool
  trading_event_source :: "'j list"
  sent :: "(nat \<times> Reply) list"

definition supervisor_init :: "'j list \<Rightarrow> 'j Supervisor" where
  "supervisor_init rows =
     \<lparr>te_assets = \<lparr>order_uuids = Map.empty, eth = AssetBook_new Ether, btc = AssetBook_new Bitcoin\<rparr>,
      running = True, trading_event_source = rows, sent = []\<rparr>"

text \<open>
  The macro \<open>try_event_log\<close>: serialise, run the operation on the books, insert the row, and answer with the
  operation's result or with the database error. The operation has happened either way.
\<close>

definition try_event_log ::
  "world \<Rightarrow> 'j option \<Rightarrow> (Assets \<Rightarrow> (Assets \<times> ('r, TradingEngineError) result) run) \<Rightarrow> 'j Supervisor \<Rightarrow>
   ('j Supervisor \<times> ('r, TradingEngineError) result) run" where
  "try_event_log w jstr e st =
     (case jstr of
        Some j \<Rightarrow>
          bind_run (e (te_assets st)) (\<lambda>(assets', res).
          if insert_ok w
          then Ret (st\<lparr>te_assets := assets', trading_event_source := trading_event_source st @ [j]\<rparr>, res)
          else Ret (st\<lparr>te_assets := assets'\<rparr>, Err Database))
      | None \<Rightarrow> Ret (st, Err UnserializableInput))"

datatype control = Continue | Break

fun supervisor_step :: "bool \<Rightarrow> 'j codec \<Rightarrow> world \<Rightarrow> TradingEngineCmd \<Rightarrow> 'j Supervisor \<Rightarrow> ('j Supervisor \<times> control) run" where
  "supervisor_step oc cd w cmd st =
     (if \<not> running st then Ret (st, Continue)
      else case cmd of
        Suspend \<Rightarrow> Ret (st\<lparr>running := False\<rparr>, Continue)
      | Resume \<Rightarrow> Ret (st\<lparr>running := True\<rparr>, Continue)
      | Shutdown \<Rightarrow> Ret (st, Break)
      | Trade (CmdPlaceOrder place_order tx) \<Rightarrow>
          bind_run (try_event_log w (place_to_value cd place_order)
            (\<lambda>assets. do_place_order oc (new_v4 w) assets place_order) st) (\<lambda>(st', t).
          Ret (st'\<lparr>sent := sent st' @ [(tx, PlaceReply t)]\<rparr>, Continue))
      | Trade (CmdCancelOrder cancel_order tx) \<Rightarrow>
          bind_run (try_event_log w (cancel_to_value cd cancel_order)
            (\<lambda>assets. do_cancel_order assets cancel_order) st) (\<lambda>(st', t).
          Ret (st'\<lparr>sent := sent st' @ [(tx, CancelReply t)]\<rparr>, Continue))
      | Bootstrap (PayloadPlaceOrder place_order) \<Rightarrow>
          bind_run (do_place_order oc (new_v4 w) (te_assets st) place_order) (\<lambda>(assets', _).
          Ret (st\<lparr>te_assets := assets'\<rparr>, Continue))
      | Bootstrap (PayloadCancelOrder cancel_order) \<Rightarrow>
          bind_run (do_cancel_order (te_assets st) cancel_order) (\<lambda>(assets', _).
          Ret (st\<lparr>te_assets := assets'\<rparr>, Continue)))"

text \<open>
  \<open>while let Some(cmd) = rx.recv().await\<close>: the received commands, each with what the world decides,
  until the senders are gone. The flag tells whether the loop left through \<open>break\<close>.
\<close>

fun trading_engine_supervisor ::
  "bool \<Rightarrow> 'j codec \<Rightarrow> (TradingEngineCmd \<times> world) list \<Rightarrow> 'j Supervisor \<Rightarrow> ('j Supervisor \<times> bool) run" where
  "trading_engine_supervisor oc cd [] st = Ret (st, False)"
| "trading_engine_supervisor oc cd ((cmd, w) # rx) st =
     bind_run (supervisor_step oc cd w cmd st) (\<lambda>(st', c).
     case c of
       Break \<Rightarrow> Ret (st', True)
     | Continue \<Rightarrow> trading_engine_supervisor oc cd rx st')"

text \<open>\<open>init_from_db\<close>: the bootstrap commands it sends for the rows of the event table, in the order the query
  yields them; a row that does not decode panics.\<close>

fun init_from_db :: "'j codec \<Rightarrow> 'j list \<Rightarrow> TradingEngineCmd list run" where
  "init_from_db cd [] = Ret []"
| "init_from_db cd (jstr # rows) =
     bind_run (expect ''called Result::unwrap on an Err value'' (from_value cd jstr)) (\<lambda>cmd.
     bind_run (init_from_db cd rows) (\<lambda>cmds. Ret (Bootstrap cmd # cmds)))"

section \<open>Reachable states\<close>

text \<open>\<open>te_reach oc cd rows k st\<close>: \<open>st\<close> is reached from a fresh engine after \<open>k\<close> commands.\<close>

inductive te_reach :: "bool \<Rightarrow> 'j codec \<Rightarrow> 'j list \<Rightarrow> nat \<Rightarrow> 'j Supervisor \<Rightarrow> bool" for oc cd rows where
  te_init: "te_reach oc cd rows 0 (supervisor_init rows)"
| te_step: "te_reach oc cd rows k st \<Longrightarrow> supervisor_step oc cd w cmd st = Ret (st', c) \<Longrightarrow>
    te_reach oc cd rows (Suc k) st'"

inductive_cases te_reach_SucE: "te_reach oc cd rows (Suc k) st"

definition te_inv :: "nat \<Rightarrow> 'j Supervisor \<Rightarrow> bool" where
  "te_inv k st \<longleftrightarrow> assets_ok k (te_assets st) \<and> order_uuids (te_assets st) = Map.empty"

declare supervisor_step.simps [simp del]

lemma te_inv_init: "te_inv 0 (supervisor_init rows)"
proof -
  have "book_of (te_assets (supervisor_init rows)) a = Orderbook_new" for a
    by (cases a) (simp_all add: supervisor_init_def book_of_def match_asset_def AssetBook_new_def)
  then show ?thesis
    by (simp add: te_inv_def assets_ok_def book_ok_def book_wf_new uncrossed_def) (simp add: supervisor_init_def)
qed

lemma cancel_empty:
  "order_uuids assets = Map.empty \<Longrightarrow>
   do_cancel_order assets co = Ret (assets, Err (OrderNotFound (co_user_uuid co) (co_order_uuid co)))"
  by (simp add: do_cancel_order_def)

lemma te_inv_Suc: "te_inv k st \<Longrightarrow> te_inv (Suc k) st"
  by (simp add: te_inv_def assets_ok_Suc)

lemma te_inv_place:
  assumes "te_inv k st" and "k < 2 ^ 32 - 1"
  obtains assets' res where "do_place_order oc uuid (te_assets st) po = Ret (assets', res)"
    "te_inv (Suc k) (st\<lparr>te_assets := assets'\<rparr>)"
  using place_safe [of k "te_assets st" oc uuid po] assms by (auto simp: te_inv_def)

lemma te_inv_irrelevant [simp]:
  "te_inv k (st\<lparr>sent := x\<rparr>) \<longleftrightarrow> te_inv k st" "te_inv k (st\<lparr>running := y\<rparr>) \<longleftrightarrow> te_inv k st"
  "te_inv k (st\<lparr>trading_event_source := z\<rparr>) \<longleftrightarrow> te_inv k st"
  "te_inv k (st\<lparr>te_assets := a, trading_event_source := z\<rparr>) \<longleftrightarrow> te_inv k (st\<lparr>te_assets := a\<rparr>)"
  by (simp_all add: te_inv_def)

lemma try_event_log_inv:
  assumes "te_inv k st" and "e (te_assets st) = Ret (assets', res)" and "te_inv (Suc k) (st\<lparr>te_assets := assets'\<rparr>)"
  shows "\<exists>st' t. try_event_log w j e st = Ret (st', t) \<and> te_inv (Suc k) st' \<and> sent st' = sent st \<and> running st' = running st"
  using assms te_inv_Suc [OF assms(1)] by (auto simp: try_event_log_def split: option.splits)

lemma supervisor_step_inv:
  assumes "te_inv k st" and "k < 2 ^ 32 - 1"
  shows "\<exists>st' c. supervisor_step oc cd w cmd st = Ret (st', c) \<and> te_inv (Suc k) st'"
proof (cases "running st")
  case False
  with te_inv_Suc [OF assms(1)] show ?thesis by (simp add: supervisor_step.simps)
next
  case True
  note cancel = cancel_empty [of "te_assets st"]
  have empty: "order_uuids (te_assets st) = Map.empty" using assms(1) by (simp add: te_inv_def)
  have same: "te_inv (Suc k) (st\<lparr>te_assets := te_assets st\<rparr>)" using te_inv_Suc [OF assms(1)] by simp
  show ?thesis
  proof (cases cmd)
    case (Trade tc)
    show ?thesis
    proof (cases tc)
      case (CmdPlaceOrder po tx)
      obtain a r where "do_place_order oc (new_v4 w) (te_assets st) po = Ret (a, r)"
        "te_inv (Suc k) (st\<lparr>te_assets := a\<rparr>)" by (rule te_inv_place [OF assms])
      from try_event_log_inv [where w = w and j = "place_to_value cd po" and
          e = "\<lambda>as. do_place_order oc (new_v4 w) as po", OF assms(1) this]
      show ?thesis using True Trade CmdPlaceOrder by (auto simp: supervisor_step.simps)
    next
      case (CmdCancelOrder co tx)
      from try_event_log_inv [where w = w and j = "cancel_to_value cd co" and
          e = "\<lambda>as. do_cancel_order as co", OF assms(1) cancel [OF empty] same]
      show ?thesis using True Trade CmdCancelOrder by (auto simp: supervisor_step.simps)
    qed
  next
    case (Bootstrap p)
    show ?thesis
    proof (cases p)
      case (PayloadPlaceOrder po)
      obtain a r where "do_place_order oc (new_v4 w) (te_assets st) po = Ret (a, r)"
        "te_inv (Suc k) (st\<lparr>te_assets := a\<rparr>)" by (rule te_inv_place [OF assms])
      with True Bootstrap PayloadPlaceOrder show ?thesis by (simp add: supervisor_step.simps)
    next
      case (PayloadCancelOrder co)
      with True Bootstrap cancel [OF empty] same show ?thesis by (simp add: supervisor_step.simps)
    qed
  qed (use True te_inv_Suc [OF assms(1)] in \<open>simp_all add: supervisor_step.simps\<close>)
qed

interpretation engine: total_system "\<lambda>(w, cmd). supervisor_step oc cd w cmd" te_inv "2 ^ 32 - 1" for oc and cd :: "'a codec"
proof unfold_locales
  fix k and st :: "'a Supervisor" and c
  assume "te_inv k st" "k < 2 ^ 32 - 1"
  from supervisor_step_inv [OF this, of oc cd "fst c" "snd c"]
  show "\<exists>st' x. (case c of (w, cmd) \<Rightarrow> supervisor_step oc cd w cmd) st = Ret (st', x) \<and> te_inv (Suc k) st'"
    unfolding case_prod_unfold .
qed

lemma te_reach_run:
  "te_reach oc cd rows k st \<Longrightarrow>
   ((\<lambda>st st'. \<exists>c x. (case c of (w, cmd) \<Rightarrow> supervisor_step oc cd w cmd) st = Ret (st', x)) ^^ k) (supervisor_init rows) st"
proof (induction rule: te_reach.induct)
  case (te_step k st w cmd st' c)
  then show ?case by (intro relpowp_Suc_I) (auto intro!: exI [of _ "(w, cmd)"])
qed simp

lemma te_reach_inv: "te_reach oc cd rows k st \<Longrightarrow> k < 2 ^ 32 \<Longrightarrow> te_inv k st"
  using engine.inv_run [OF te_reach_run te_inv_init] by fastforce

lemma te_inv_mono: "te_inv k st \<Longrightarrow> k \<le> k' \<Longrightarrow> te_inv k' st"
proof (induction k')
  case (Suc k')
  then show ?case by (cases "k = Suc k'") (auto intro: te_inv_Suc)
qed simp

lemma supervisor_run:
  assumes "te_inv k st" and "k + length rx < 2 ^ 32"
  shows "\<exists>st' b. trading_engine_supervisor oc cd rx st = Ret (st', b) \<and> te_inv (k + length rx) st'"
  using assms
proof (induction rx arbitrary: k st)
  case Nil
  then show ?case by (auto intro: exI [of _ False])
next
  case (Cons x rx)
  obtain cmd w where x: "x = (cmd, w)" by (cases x)
  from Cons.prems supervisor_step_inv [of k st oc cd w cmd] obtain st1 c where
    st1: "supervisor_step oc cd w cmd st = Ret (st1, c)" "te_inv (Suc k) st1" by auto
  from Cons.IH [OF st1(2)] Cons.prems(2) te_inv_mono [OF st1(2), of "k + length (x # rx)"] st1(1) show ?case
    by (cases c) (auto simp: x)
qed

text \<open>A concrete encoding (a command stands for itself), a world, and an order.\<close>

definition sample_codec :: "TradeCmdPayload codec" where
  "sample_codec = \<lparr>place_to_value = (\<lambda>po. Some (PayloadPlaceOrder po)),
     cancel_to_value = (\<lambda>co. Some (PayloadCancelOrder co)), from_value = Some\<rparr>"

definition sample_world :: "bool \<Rightarrow> world" where
  "sample_world ok = \<lparr>new_v4 = 11, insert_ok = ok\<rparr>"

lemma te_reach_init_running: "te_reach oc cd rows 0 (supervisor_init rows)" "running (supervisor_init rows)"
  by (rule te_init) (simp add: supervisor_init_def)

section \<open>Properties of the engine\<close>

text \<open>C1: the engine never panics. Whatever fewer than \<open>2^32\<close> commands it receives, whatever the database
  answers and with overflow checks on or off, the loop runs to its end, and both books are well formed
  (sorted levels, no empty level, sorted memos) and never crossed: every bid is below every ask.\<close>

theorem trading_engine_never_panics:
  assumes "length rx < 2 ^ 32"
  shows "\<exists>st b. trading_engine_supervisor oc cd rx (supervisor_init rows) = Ret (st, b) \<and>
    (\<forall>a. book_wf (book_of (te_assets st) a) \<and> uncrossed (book_of (te_assets st) a))"
  using supervisor_run [OF te_inv_init, of rx oc cd rows] assms by (auto simp: te_inv_def assets_ok_def book_ok_def)

theorem trading_engine_never_panics_witness:
  "\<exists>st b. trading_engine_supervisor True sample_codec
      [(Trade (CmdPlaceOrder (sample_buy GoodTilCanceled 70) 1), sample_world True), (Shutdown, sample_world True)]
      (supervisor_init []) = Ret (st, b) \<and> uncrossed (book_of (te_assets st) Bitcoin)"
  using trading_engine_never_panics [of "[(Trade (CmdPlaceOrder (sample_buy GoodTilCanceled 70) 1), sample_world True),
      (Shutdown, sample_world True)]" True sample_codec "[]"]
  by (simp del: trading_engine_supervisor.simps) blast

text \<open>C21: cancelling never works. In every reachable running state a cancel command is answered with
  an error, \<open>OrderNotFound\<close> whenever the command could be serialised and logged, for every user and order
  id, and the books are left as they are: no code path ever fills the map from order ids to indices.\<close>

theorem cancel_order_never_found:
  assumes "te_reach oc cd rows k st" and "k < 2 ^ 32" and "running st"
  shows "\<exists>st'. supervisor_step oc cd w (Trade (CmdCancelOrder co tx)) st = Ret (st', Continue) \<and>
    te_assets st' = te_assets st \<and>
    sent st' = sent st @ [(tx, CancelReply (Err (
      if cancel_to_value cd co = None then UnserializableInput
      else if insert_ok w then OrderNotFound (co_user_uuid co) (co_order_uuid co) else Database)))]"
proof -
  have "order_uuids (te_assets st) = Map.empty" using te_reach_inv [OF assms(1,2)] by (simp add: te_inv_def)
  from cancel_empty [OF this, of co] assms(3) show ?thesis
    by (auto simp: supervisor_step.simps try_event_log_def split: option.splits)
qed

theorem cancel_order_never_found_witness:
  "\<exists>st'. supervisor_step True sample_codec (sample_world True) (Trade (CmdCancelOrder (CancelOrder_new 1 (OrderUuid 5)) 3))
      (supervisor_init []) = Ret (st', Continue) \<and>
     TeResponse_wait (sent st') 3 = Some (CancelReply (Err (OrderNotFound 1 (OrderUuid 5))))"
proof -
  have "sent (supervisor_init [] :: TradeCmdPayload Supervisor) = []" by (simp add: supervisor_init_def)
  with cancel_order_never_found [OF te_reach_init_running(1) [of True sample_codec "[]"] _ te_reach_init_running(2),
      of "sample_world True" "CancelOrder_new 1 (OrderUuid 5)" 3]
  show ?thesis by (auto simp: sample_codec_def sample_world_def CancelOrder_new_def TeResponse_wait_def)
qed

lemma supervisor_not_running: "\<not> running st \<Longrightarrow> trading_engine_supervisor oc cd rx st = Ret (st, False)"
  by (induction rx) (auto simp: supervisor_step.simps)

text \<open>C24: suspension is final. Once a \<open>Suspend\<close> is received, no later command has any effect, neither
  \<open>Resume\<close> nor \<open>Shutdown\<close>: the books, the log and the answers stay as they are and the loop is not left.\<close>

theorem suspend_is_absorbing:
  "trading_engine_supervisor oc cd ((Suspend, w) # rx) st = Ret (st\<lparr>running := False\<rparr>, False)"
proof -
  have "supervisor_step oc cd w Suspend st = Ret (st\<lparr>running := False\<rparr>, Continue)"
    by (cases st) (simp add: supervisor_step.simps)
  then show ?thesis using supervisor_not_running [of "st\<lparr>running := False\<rparr>"] by simp
qed






end
