(* ===== verification/Replay.thy ===== *)
theory Replay
  imports Engine
begin

text \<open>
  Recovery: the event table replayed by \<open>init_from_db\<close> rebuilds the books. The encoding is a parameter;
  what is used of it is the round trip that \<open>serde\<close> documents for derived implementations
  (\<open>codec_roundtrip\<close>).
\<close>

definition codec_roundtrip :: "'j codec \<Rightarrow> bool" where
  "codec_roundtrip cd \<longleftrightarrow>
     (\<forall>po j. place_to_value cd po = Some j \<longrightarrow> from_value cd j = Some (PayloadPlaceOrder po)) \<and>
     (\<forall>co j. cancel_to_value cd co = Some j \<longrightarrow> from_value cd j = Some (PayloadCancelOrder co))"

text \<open>The effect of a logged command on the books, and of a list of them.\<close>

definition payload_run :: "bool \<Rightarrow> Uuid \<Rightarrow> TradeCmdPayload \<Rightarrow> Assets \<Rightarrow> Assets run" where
  "payload_run oc u p assets =
     (case p of
        PayloadPlaceOrder po \<Rightarrow> bind_run (do_place_order oc u assets po) (\<lambda>(a, _). Ret a)
      | PayloadCancelOrder co \<Rightarrow> bind_run (do_cancel_order assets co) (\<lambda>(a, _). Ret a))"

fun replay :: "bool \<Rightarrow> TradeCmdPayload list \<Rightarrow> Assets \<Rightarrow> Assets run" where
  "replay oc [] a = Ret a"
| "replay oc (p # ps) a = bind_run (payload_run oc 0 p a) (replay oc ps)"

lemma bind_run_fst_cong:
  "(\<And>x. bind_run (f x) (\<lambda>p. Ret (fst p)) = bind_run (g x) (\<lambda>p. Ret (fst p))) \<Longrightarrow>
   bind_run (bind_run m f) (\<lambda>p. Ret (fst p)) = bind_run (bind_run m g) (\<lambda>p. Ret (fst p))"
  by (cases m) auto

text \<open>The random id only goes into the answer.\<close>

lemma place_order_uuid:
  "bind_run (do_place_order oc u assets po) (\<lambda>(a, _). Ret a) = bind_run (do_place_order oc v assets po) (\<lambda>(a, _). Ret a)"
  unfolding do_place_order_def Let_def
  by (auto simp: case_prod_unfold intro!: bind_run_fst_cong split: option.splits result.splits)

lemma payload_run_uuid: "payload_run oc u p a = payload_run oc 0 p a"
  unfolding payload_run_def by (auto intro: place_order_uuid split: TradeCmdPayload.splits)

lemma replay_append: "replay oc (ps @ qs) a = bind_run (replay oc ps a) (replay oc qs)"
  by (induction ps arbitrary: a) (auto simp: bind_run_assoc intro: bind_run_cong)

lemma bootstrap_step:
  "running st \<Longrightarrow> supervisor_step oc cd w (Bootstrap p) st =
     bind_run (payload_run oc 0 p (te_assets st)) (\<lambda>a. Ret (st\<lparr>te_assets := a\<rparr>, Continue))"
  by (subst payload_run_uuid [of oc "new_v4 w", symmetric])
    (auto simp: supervisor_step.simps payload_run_def bind_run_assoc case_prod_unfold split: TradeCmdPayload.splits)

lemma bootstrap_supervisor:
  assumes "running st" and "length ws = length ps"
  shows "trading_engine_supervisor oc cd (zip (map Bootstrap ps) ws) st =
    bind_run (replay oc ps (te_assets st)) (\<lambda>a. Ret (st\<lparr>te_assets := a\<rparr>, False))"
  using assms
proof (induction ps arbitrary: ws st)
  case (Cons p ps)
  then obtain w ws' where ws: "ws = w # ws'" "length ws' = length ps" by (cases ws) auto
  show ?case
    by (cases "payload_run oc 0 p (te_assets st)") (simp_all add: ws Cons.prems(1) bootstrap_step Cons.IH)
qed simp

lemma init_from_db_decode:
  "map (from_value cd) rows = map Some ps \<Longrightarrow> init_from_db cd rows = Ret (map Bootstrap ps)"
  by (induction rows arbitrary: ps) auto

text \<open>The rows that a step adds to the table decode to what it did to the books.\<close>

definition logged :: "bool \<Rightarrow> 'j codec \<Rightarrow> 'j Supervisor \<Rightarrow> 'j Supervisor \<Rightarrow> bool" where
  "logged oc cd st st' \<longleftrightarrow> (\<exists>rows ps. trading_event_source st' = trading_event_source st @ rows \<and>
     map (from_value cd) rows = map Some ps \<and> replay oc ps (te_assets st) = Ret (te_assets st'))"

lemma logged_refl: "trading_event_source st' = trading_event_source st \<Longrightarrow> te_assets st' = te_assets st \<Longrightarrow> logged oc cd st st'"
  unfolding logged_def by (intro exI [of _ "[]"]) simp

lemma logged_trans:
  assumes "logged oc cd st st1" and "logged oc cd st1 st'"
  shows "logged oc cd st st'"
proof -
  from assms obtain rows ps rows' ps' where
    "trading_event_source st1 = trading_event_source st @ rows" "map (from_value cd) rows = map Some ps" "replay oc ps (te_assets st) = Ret (te_assets st1)"
    "trading_event_source st' = trading_event_source st1 @ rows'" "map (from_value cd) rows' = map Some ps'"
    "replay oc ps' (te_assets st1) = Ret (te_assets st')"
    by (auto simp: logged_def)
  then show ?thesis unfolding logged_def by (intro exI [of _ "rows @ rows'"] exI [of _ "ps @ ps'"]) (simp add: replay_append)
qed

lemma logged_row:
  "trading_event_source st' = trading_event_source st @ [j] \<Longrightarrow> from_value cd j = Some p \<Longrightarrow>
   payload_run oc u p (te_assets st) = Ret (te_assets st') \<Longrightarrow> logged oc cd st st'"
  unfolding logged_def by (intro exI [of _ "[j]"] exI [of _ "[p]"]) (simp add: payload_run_uuid [of oc u])

lemma logged_step:
  assumes "codec_roundtrip cd" and "insert_ok w" and "\<And>p. cmd \<noteq> Bootstrap p"
    and "supervisor_step oc cd w cmd st = Ret (st', c)"
  shows "logged oc cd st st'"
proof (cases "running st \<and> (\<exists>tc. cmd = Trade tc)")
  case False
  with assms(3,4) show ?thesis by (cases cmd) (auto simp: supervisor_step.simps intro: logged_refl split: if_splits)
next
  case True
  then obtain tc where tc: "cmd = Trade tc" and run: "running st" by blast
  show ?thesis
  proof (cases tc)
    case (CmdPlaceOrder po tx)
    show ?thesis
    proof (cases "place_to_value cd po")
      case None
      with tc run CmdPlaceOrder assms(4) show ?thesis by (auto simp: supervisor_step.simps try_event_log_def intro: logged_refl)
    next
      case (Some j)
      with tc run CmdPlaceOrder assms show ?thesis
        by (intro logged_row [of st' st j _ "PayloadPlaceOrder po" _ "new_v4 w"])
          (auto simp: supervisor_step.simps try_event_log_def payload_run_def run_simps codec_roundtrip_def)
    qed
  next
    case (CmdCancelOrder co tx)
    show ?thesis
    proof (cases "cancel_to_value cd co")
      case None
      with tc run CmdCancelOrder assms(4) show ?thesis by (auto simp: supervisor_step.simps try_event_log_def intro: logged_refl)
    next
      case (Some j)
      with tc run CmdCancelOrder assms show ?thesis
        by (intro logged_row [of st' st j _ "PayloadCancelOrder co" _ 0])
          (auto simp: supervisor_step.simps try_event_log_def payload_run_def run_simps codec_roundtrip_def)
    qed
  qed
qed

lemma logged_run:
  assumes "codec_roundtrip cd" and "\<forall>x\<in>set rx. insert_ok (snd x) \<and> (\<forall>p. fst x \<noteq> Bootstrap p)"
    and "trading_engine_supervisor oc cd rx st = Ret (st', b)"
  shows "logged oc cd st st'"
  using assms(2,3)
proof (induction rx arbitrary: st)
  case (Cons x rx)
  obtain cmd w where x: "x = (cmd, w)" by (cases x)
  from Cons.prems(2) obtain st1 c where
    st1: "supervisor_step oc cd w cmd st = Ret (st1, c)"
      "(case c of Break \<Rightarrow> Ret (st1, True) | Continue \<Rightarrow> trading_engine_supervisor oc cd rx st1) = Ret (st', b)"
    by (auto simp: x run_simps)
  have one: "logged oc cd st st1" by (rule logged_step [OF assms(1) _ _ st1(1)]) (use Cons.prems(1) in \<open>auto simp: x\<close>)
  with Cons.IH [of st1] Cons.prems(1) st1(2) show ?case by (cases c) (auto intro: logged_trans)
qed (simp add: logged_refl)

section \<open>Properties\<close>

text \<open>The event log recovers the engine. When every insertion succeeded, reading the table back in
  insertion order decodes every row, and a fresh engine that processes the resulting bootstrap commands, whatever
  order ids are drawn this time, ends with exactly the books the first engine had.\<close>

lemma event_log_recovers_books:
  assumes "codec_roundtrip cd"
    and "\<forall>x\<in>set rx. insert_ok (snd x) \<and> (\<forall>p. fst x \<noteq> Bootstrap p)"
    and "trading_engine_supervisor oc cd rx (supervisor_init []) = Ret (st, b)"
  shows "\<exists>cmds. init_from_db cd (trading_event_source st) = Ret cmds \<and>
    (\<forall>ws. length ws = length cmds \<longrightarrow>
      (\<exists>st'. trading_engine_supervisor oc cd (zip cmds ws) (supervisor_init (trading_event_source st)) = Ret (st', False) \<and>
        te_assets st' = te_assets st \<and> sent st' = []))"
proof -
  from logged_run [OF assms] obtain rows ps where
    r: "trading_event_source st = rows" "map (from_value cd) rows = map Some ps"
      "replay oc ps (te_assets (supervisor_init [])) = Ret (te_assets st)"
    by (auto simp: supervisor_init_def logged_def)
  have same: "replay oc ps (te_assets (supervisor_init rows)) = Ret (te_assets st)" "running (supervisor_init rows)"
    "sent (supervisor_init rows) = []"
    using r(3) by (simp_all add: supervisor_init_def)
  from init_from_db_decode [OF r(2)] show ?thesis
    by (intro exI [of _ "map Bootstrap ps"]) (simp add: r(1) same bootstrap_supervisor [OF same(2)])
qed

lemma place_on_fresh_engine:
  assumes "place_to_value cd po = Some j" and "\<not> insert_ok w"
    and "po_time_in_force po \<in> {GoodTilCanceled, GoodTilDate}"
  shows "\<exists>st. supervisor_step oc cd w (Trade (CmdPlaceOrder po tx)) (supervisor_init []) = Ret (st, Continue) \<and>
    sent st = [(tx, PlaceReply (Err Database))] \<and> trading_event_source st = [] \<and>
    map row (side_orders (book_of (te_assets st) (po_asset po)) (po_side po)) =
      [(po_price po, unat (nz_get (po_quantity po)))]"
proof -
  let ?st = "supervisor_init [] :: 'a Supervisor"
  let ?b = "book_of (te_assets ?st) (po_asset po)"
  have new: "?b = Orderbook_new"
    by (cases "po_asset po") (simp_all add: supervisor_init_def book_of_def match_asset_def AssetBook_new_def)
  have acc: "accepted (te_assets ?st) po = []" by (simp add: accepted_def eligible_def new book_wf_new)
  have b: "book_wf ?b" "memo_bound 0 ?b" "(0 :: nat) < 2 ^ 32 - 1" by (simp_all add: new book_wf_new)
  from b show ?thesis
  proof (cases rule: place_cases [where oc = oc and uuid = "new_v4 w"])
    case (resting ob m)
    have "row (resting_order (te_assets ?st) po m) = (po_price po, unat (nz_get (po_quantity po)))"
      using row_resting_order [of "te_assets ?st" po m] by (simp add: acc)
    moreover have "insert_side (po_side po) x [] = [x]" for x by (simp add: insert_side_eq)
    ultimately show ?thesis using resting assms(1,2)
      by (simp add: supervisor_step.simps try_event_log_def new book_wf_new) (simp add: supervisor_init_def)
  qed (use assms(3) in \<open>auto simp: acc outcome_of_def\<close>)
qed

text \<open>A failed insertion breaks recovery. A good-til-cancelled order sent to a fresh engine
  whose insertion fails is answered with a database error, yet it rests in the book, while the log stays
  empty, so that recovery yields an empty book.\<close>

theorem insert_failure_loses_order:
  assumes "place_to_value cd po = Some j" and "\<not> insert_ok w"
    and "po_time_in_force po \<in> {GoodTilCanceled, GoodTilDate}"
  shows "\<exists>st. trading_engine_supervisor oc cd [(Trade (CmdPlaceOrder po tx), w)] (supervisor_init []) = Ret (st, False) \<and>
    TeResponse_wait (sent st) tx = Some (PlaceReply (Err Database)) \<and> trading_event_source st = [] \<and>
    map row (side_orders (book_of (te_assets st) (po_asset po)) (po_side po)) =
      [(po_price po, unat (nz_get (po_quantity po)))] \<and>
    init_from_db cd (trading_event_source st) = Ret []"
  using place_on_fresh_engine [OF assms, of oc tx] by (auto simp: TeResponse_wait_def)

theorem insert_failure_loses_order_witness:
  "\<exists>st. trading_engine_supervisor True sample_codec [(Trade (CmdPlaceOrder (sample_buy GoodTilCanceled 70) 1), sample_world False)]
      (supervisor_init []) = Ret (st, False) \<and> trading_event_source st = [] \<and>
     map row (side_orders (book_of (te_assets st) Bitcoin) Buy) = [(nz 100, 70)]"
proof -
  have "place_to_value sample_codec (sample_buy GoodTilCanceled 70) = Some (PayloadPlaceOrder (sample_buy GoodTilCanceled 70))"
    "\<not> insert_ok (sample_world False)" "po_time_in_force (sample_buy GoodTilCanceled 70) \<in> {GoodTilCanceled, GoodTilDate}"
    by (simp_all add: sample_codec_def sample_world_def)
  from insert_failure_loses_order [OF this, of True 1] obtain st where
    "trading_engine_supervisor True sample_codec [(Trade (CmdPlaceOrder (sample_buy GoodTilCanceled 70) 1), sample_world False)]
      (supervisor_init []) = Ret (st, False)" "trading_event_source st = []"
    "map row (side_orders (book_of (te_assets st) Bitcoin) Buy) = [(nz 100, 70)]"
    by (auto simp del: trading_engine_supervisor.simps)
  then show ?thesis by (intro exI [of _ st] conjI)
qed

end
