(* ===== verification/Web_Base.thy ===== *)
theory Web_Base
  imports Asset
begin

text \<open>
  What the database and the web components share: the errors of a SQL statement, the pattern of
  a currency code, HTTP responses (\<open>web/mod.rs\<close>), and the parsing of an asset name that every handler
  repeats.
\<close>

section \<open>SQL\<close>

datatype SqlError =
    RowNotFound
  | ConnectionLost
  | NotNullViolation
  | UniqueViolation
  | CheckViolation
  | ForeignKeyViolation
  | RaisedException
  | CardinalityViolation
  | NumericOutOfRange
  | SequenceExhausted
  | ValueTooLong

text \<open>Which queries of an operation reach the server, by their position in the operation.\<close>

type_synonym faults = "nat \<Rightarrow> bool"

text \<open>The check \<open>currency ~ '^[A-Z]{3,}$'\<close> of the migrations.\<close>

definition currency_code :: "string \<Rightarrow> bool" where
  "currency_code s \<longleftrightarrow> 3 \<le> length s \<and> (\<forall>c\<in>set s. CHR ''A'' \<le> c \<and> c \<le> CHR ''Z'')"

section \<open>HTTP\<close>

datatype Body =
    Empty
  | Text string
  | Html string
  | OrderUuidJson Uuid
  | UserIdJson string
  | UserJson string string string
  | StatusJson string
  | AddrsJson "(string \<times> string) list"
  | BalanceHtml "(string \<times> int) list"

text \<open>A cookie is kept as its name, value, path and age in seconds: its text form is the cookie library's.\<close>

datatype Header = Header string string | SetCookie string string string int

record Response =
  status :: nat
  headers :: "Header list"
  body_of :: Body

definition response :: "nat \<Rightarrow> Body \<Rightarrow> Response" where
  "response c b = \<lparr>status = c, headers = [], body_of = b\<rparr>"

definition internal_server_error :: "string \<Rightarrow> Response" where
  "internal_server_error msg = response 500 (Text msg)"

text \<open>The \<open>match\<close> on the asset name that several handlers repeat.\<close>

definition parse_asset :: "string \<Rightarrow> Asset option" where
  "parse_asset s =
     (if s = ''btc'' \<or> s = ''BTC'' then Some Bitcoin
      else if s = ''eth'' \<or> s = ''ETH'' then Some Ether else None)"

lemma status_simps [simp]: "status (response c b) = c" "status (internal_server_error msg) = 500"
  by (simp_all add: response_def internal_server_error_def)

lemma currency_code_assets: "currency_code (Asset_to_string a)" "currency_code ''USD''"
  by (cases a) (simp_all add: currency_code_def less_eq_char_def)

end
