(* ===== verification/Accounting.thy ===== *)
theory Accounting
  imports Web_Base "HOL-Library.Sublist"
begin

text \<open>
  The double-entry ledger: the tables \<open>accounts\<close> and \<open>account_tx_journal\<close> with the constraints and the
  function \<open>calculate_balance\<close> of the migrations, and the operations of \<open>app_cx.rs\<close> and
  \<open>app_cx/reserve_ok.rs\<close> on them. A handler that panics leaves its database writes behind, so
  an operation is the ledger it leaves together with how it ended. Which queries reach the
  server is a parameter \<open>up\<close> (by position in the operation), as is the text form of a user id.
\<close>

section \<open>Tables\<close>

text \<open>Migration \<open>0007\<close> adds the column \<open>txid TEXT NOT NULL\<close>, unique and not empty, to the journal.\<close>

datatype Schema = Before_txid | With_txid

record Account =
  ac_id :: int
  ac_currency :: string
  ac_source_type :: string
  ac_source_id :: string

record JournalRow =
  jr_id :: int
  jr_credit :: int
  jr_debit :: int
  jr_currency :: string
  jr_amount :: int
  jr_type :: string
  jr_txid :: "string option"

text \<open>The serial column is the counter \<open>next_id\<close>, whose sequence ends with the type \<open>INTEGER\<close>; the gaps that
  failed insertions leave in it are not modelled.\<close>

record Ledger =
  accounts :: "Account list"
  journal :: "JournalRow list"
  next_id :: int

definition bigint :: "int \<Rightarrow> bool" where
  "bigint i \<longleftrightarrow> - (2 ^ 63) \<le> i \<and> i < 2 ^ 63"

text \<open>A sub-select used as a value: \<open>NULL\<close> for no row, an error for more than one.\<close>

fun scalar_subquery :: "'a list \<Rightarrow> ('a option, SqlError) result" where
  "scalar_subquery [] = Ok None"
| "scalar_subquery [x] = Ok (Some x)"
| "scalar_subquery (_ # _ # _) = Err CardinalityViolation"

text \<open>\<open>INSERT INTO account_tx_journal ... RETURNING id\<close>: the trigger \<open>validate_transaction\<close>, then the
  constraints of the table.\<close>

definition journal_insert ::
  "Schema \<Rightarrow> Ledger \<Rightarrow> int option \<Rightarrow> int option \<Rightarrow> string \<Rightarrow> int \<Rightarrow> string \<Rightarrow> string option \<Rightarrow>
   (Ledger \<times> int, SqlError) result" where
  "journal_insert sc L credit debit cur amt ty tx =
     (if 2 ^ 31 \<le> next_id L then Err SequenceExhausted
      else if amt \<le> 0 \<or> (credit \<noteq> None \<and> credit = debit) then Err RaisedException
      else case (credit, debit) of
        (Some c, Some d) \<Rightarrow>
          if \<not> bigint amt then Err NumericOutOfRange
          else if \<not> currency_code cur then Err CheckViolation
          else if sc = With_txid \<and> tx = None then Err NotNullViolation
          else if sc = With_txid \<and> tx = Some [] then Err CheckViolation
          else if sc = With_txid \<and> (\<exists>r\<in>set (journal L). jr_txid r = tx) then Err UniqueViolation
          else if c \<notin> ac_id ` set (accounts L) \<or> d \<notin> ac_id ` set (accounts L) then Err ForeignKeyViolation
          else Ok (L\<lparr>journal := journal L @ [\<lparr>jr_id = next_id L, jr_credit = c, jr_debit = d, jr_currency = cur,
                     jr_amount = amt, jr_type = ty, jr_txid = (if sc = With_txid then tx else None)\<rparr>],
                   next_id := next_id L + 1\<rparr>, next_id L)
      | _ \<Rightarrow> Err NotNullViolation)"

definition credits :: "Ledger \<Rightarrow> int \<Rightarrow> int" where
  "credits L i = (\<Sum>r\<leftarrow>filter (\<lambda>r. jr_credit r = i) (journal L). jr_amount r)"

definition debits :: "Ledger \<Rightarrow> int \<Rightarrow> int" where
  "debits L i = (\<Sum>r\<leftarrow>filter (\<lambda>r. jr_debit r = i) (journal L). jr_amount r)"

text \<open>The SQL function \<open>calculate_balance\<close> (migration \<open>0006\<close>).\<close>

definition user_account :: "Ledger \<Rightarrow> string \<Rightarrow> string \<Rightarrow> Account option" where
  "user_account L source_uuid cur =
     find (\<lambda>a. ac_source_type a = ''user'' \<and> ac_source_id a = source_uuid \<and> ac_currency a = cur) (accounts L)"

definition calculate_balance :: "Ledger \<Rightarrow> string \<Rightarrow> string \<Rightarrow> (int, SqlError) result" where
  "calculate_balance L source_uuid cur =
     (case user_account L source_uuid cur of
        None \<Rightarrow> Err RaisedException
      | Some a \<Rightarrow>
          let c = credits L (ac_id a); d = debits L (ac_id a) in
          if bigint c \<and> bigint d \<and> bigint (c - d) then Ok (c - d) else Err NumericOutOfRange)"

section \<open>Balances\<close>

text \<open>\<open>rec as u64\<close> reinterprets the two's complement representation of the \<open>i64\<close>; \<open>NonZeroU64::new\<close> turns zero
  into \<open>None\<close>.\<close>

definition nonzero_u64 :: "int \<Rightarrow> u64 option" where
  "nonzero_u64 i = (let w = word_of_int i in if w = 0 then None else Some w)"

definition calculate_balance_from_accounting ::
  "bool \<Rightarrow> (Uuid \<Rightarrow> string) \<Rightarrow> Ledger \<Rightarrow> Uuid \<Rightarrow> string \<Rightarrow> (u64 option, SqlError) result" where
  "calculate_balance_from_accounting up us L user_id cur =
     (if \<not> up then Err ConnectionLost
      else case calculate_balance L (us user_id) cur of
        Err e \<Rightarrow> Err e
      | Ok b \<Rightarrow> Ok (nonzero_u64 b))"

text \<open>
  The loop of \<open>user_balance\<close> over the distinct currencies of the user's accounts. It runs in one
  transaction: after an error every later query of the transaction fails, and the loop skips what fails.
\<close>

fun user_balance_loop :: "Ledger \<Rightarrow> string \<Rightarrow> string list \<Rightarrow> (string \<rightharpoonup> int) \<Rightarrow> (string \<rightharpoonup> int)" where
  "user_balance_loop L source_uuid [] details = details"
| "user_balance_loop L source_uuid (cur # curs) details =
     (case calculate_balance L source_uuid cur of
        Err _ \<Rightarrow> details
      | Ok bal \<Rightarrow> user_balance_loop L source_uuid curs (details(cur \<mapsto> bal)))"

definition user_balance :: "faults \<Rightarrow> (Uuid \<Rightarrow> string) \<Rightarrow> Ledger \<Rightarrow> Uuid \<Rightarrow> (string \<rightharpoonup> int, SqlError) result" where
  "user_balance up us L user_id =
     (if \<not> up 0 \<or> \<not> up 1 then Err ConnectionLost
      else Ok (user_balance_loop L (us user_id)
        (remdups (map ac_currency (filter (\<lambda>a. ac_source_id a = us user_id) (accounts L)))) Map.empty))"

section \<open>Reserving and reverting\<close>

datatype ReserveError = ReserveInsufficientFunds | ReserveDatabase SqlError

record ReserveOk =
  row_id :: u32
  previous_balance :: u64
  new_balance :: "u64 option"

text \<open>The first part of \<open>reserve_by_asset\<close>: the balance, when it covers the quantity.\<close>

definition reserve_check ::
  "bool \<Rightarrow> (Uuid \<Rightarrow> string) \<Rightarrow> Ledger \<Rightarrow> Uuid \<Rightarrow> NonZeroU32 \<Rightarrow> string \<Rightarrow> (u64, ReserveError) result" where
  "reserve_check up us L user_uuid q cur =
     (case calculate_balance_from_accounting up us L user_uuid cur of
        Err e \<Rightarrow> Err (ReserveDatabase e)
      | Ok (Some i) \<Rightarrow> if i \<ge> ucast (nz_get q) then Ok i else Err ReserveInsufficientFunds
      | Ok None \<Rightarrow> Err ReserveInsufficientFunds)"

text \<open>The second part: the journal row that debits the user.\<close>

definition reserve_insert ::
  "bool \<Rightarrow> Schema \<Rightarrow> (Uuid \<Rightarrow> string) \<Rightarrow> Ledger \<Rightarrow> Uuid \<Rightarrow> NonZeroU32 \<Rightarrow> string \<Rightarrow> (Ledger \<times> int, SqlError) result" where
  "reserve_insert up sc us L user_uuid q cur =
     (if \<not> up then Err ConnectionLost
      else case scalar_subquery (map ac_id (filter (\<lambda>a. ac_source_type a = ''fiat'' \<and>
             ac_source_id a = ''exchange'' \<and> ac_currency a = cur) (accounts L))) of
        Err e \<Rightarrow> Err e
      | Ok credit \<Rightarrow>
          (case scalar_subquery (map ac_id (filter (\<lambda>a. ac_source_type a = ''user'' \<and>
             ac_source_id a = us user_uuid) (accounts L))) of
             Err e \<Rightarrow> Err e
           | Ok debit \<Rightarrow> journal_insert sc L credit debit cur (uint (nz_get q)) ''reserve asset'' None))"

definition reserve_by_asset ::
  "faults \<Rightarrow> Schema \<Rightarrow> (Uuid \<Rightarrow> string) \<Rightarrow> Ledger \<Rightarrow> Uuid \<Rightarrow> NonZeroU32 \<Rightarrow> string \<Rightarrow>
   Ledger \<times> (ReserveOk, ReserveError) result run" where
  "reserve_by_asset up sc us L user_uuid q cur =
     (case reserve_check (up 0) us L user_uuid q cur of
        Err e \<Rightarrow> (L, Ret (Err e))
      | Ok balance \<Rightarrow>
          (case reserve_insert (up 1) sc us L user_uuid q cur of
             Err e \<Rightarrow> (L, Ret (Err (ReserveDatabase e)))
           | Ok (L', i) \<Rightarrow>
               (case calculate_balance_from_accounting (up 2) us L' user_uuid cur of
                  Err e \<Rightarrow> (L', Ret (Err (ReserveDatabase e)))
                | Ok nb \<Rightarrow>
                    (L', bind_run (assert_run (case nb of Some b \<Rightarrow> b < balance | None \<Rightarrow> True)) (\<lambda>_.
                      Ret (Ok \<lparr>row_id = word_of_int i, previous_balance = balance, new_balance = nb\<rparr>))))))"

text \<open>\<open>ReserveOk::revert\<close>: the inverse of the row with the given id; no such row, no row returned.\<close>

definition revert :: "bool \<Rightarrow> Schema \<Rightarrow> Ledger \<Rightarrow> ReserveOk \<Rightarrow> Ledger \<times> (int, SqlError) result" where
  "revert up sc L r =
     (if \<not> up then (L, Err ConnectionLost)
      else case find (\<lambda>j. jr_id j = sint (row_id r)) (journal L) of
        None \<Rightarrow> (L, Err RowNotFound)
      | Some j \<Rightarrow>
          (case journal_insert sc L (Some (jr_debit j)) (Some (jr_credit j)) (jr_currency j) (jr_amount j)
             ''revert reserve asset'' None of
             Err e \<Rightarrow> (L, Err e)
           | Ok (L', i) \<Rightarrow> (L', Ok i)))"

section \<open>Deposits from the chain\<close>

text \<open>What \<open>check_bitcoind\<close> uses of a transaction that bitcoind lists: its id and the
  amount in satoshi, after the cast to \<open>i64\<close>.\<close>

record BtcTx =
  tx_txid :: string
  tx_amount :: int

fun deposit_loop ::
  "faults \<Rightarrow> nat \<Rightarrow> Schema \<Rightarrow> int \<Rightarrow> int \<Rightarrow> string option set \<Rightarrow> BtcTx list \<Rightarrow> Ledger \<Rightarrow> (Ledger, SqlError) result" where
  "deposit_loop up n sc user_acc btc_acc known [] L = Ok L"
| "deposit_loop up n sc user_acc btc_acc known (tx # txs) L =
     (if Some (tx_txid tx) \<in> known then deposit_loop up n sc user_acc btc_acc known txs L
      else if \<not> up n then Err ConnectionLost
      else case journal_insert sc L (Some user_acc) (Some btc_acc) ''BTC'' (tx_amount tx) ''CHAIN.DEPOSIT'' (Some (tx_txid tx)) of
        Err e \<Rightarrow> Err e
      | Ok (L', _) \<Rightarrow> deposit_loop up (Suc n) sc user_acc btc_acc known txs L')"

text \<open>
  \<open>check_bitcoind\<close>: one transaction, so that every early return rolls back. \<open>listed\<close> is the answer of
  \<open>list_transactions\<close>, whose failure the code unwraps.
\<close>

definition check_bitcoind ::
  "faults \<Rightarrow> Schema \<Rightarrow> (Uuid \<Rightarrow> string) \<Rightarrow> BtcTx list option \<Rightarrow> Ledger \<Rightarrow> Uuid \<Rightarrow>
   Ledger \<times> (unit, SqlError) result run" where
  "check_bitcoind up sc us listed L user_id =
     (if \<not> up 0 \<or> \<not> up 1 then (L, Ret (Err ConnectionLost))
      else case find (\<lambda>a. ac_source_type a = ''crypto'' \<and> ac_source_id a = ''bitcoin'') (accounts L) of
        None \<Rightarrow> (L, Ret (Err RowNotFound))
      | Some btc_account \<Rightarrow>
          if \<not> up 2 then (L, Ret (Err ConnectionLost))
          else (case find (\<lambda>a. ac_source_id a = us user_id \<and> ac_currency a = ''BTC'' \<and> ac_source_type a = ''user'') (accounts L) of
             None \<Rightarrow> (L, Ret (Err RowNotFound))
           | Some user_acc \<Rightarrow>
               if \<not> up 3 then (L, Ret (Err ConnectionLost))
               else
                 let known = jr_txid ` set (filter (\<lambda>r. jr_credit r = ac_id user_acc \<and> jr_debit r = ac_id btc_account \<and>
                       jr_currency r = ''BTC'' \<and> jr_type r = ''CHAIN.DEPOSIT'') (journal L)) in
                 (case listed of
                    None \<Rightarrow> (L, Panic (ExpectFailed ''called Result::unwrap on an Err value''))
                  | Some txs \<Rightarrow>
                      (case deposit_loop up 5 sc (ac_id user_acc) (ac_id btc_account) known txs L of
                         Err e \<Rightarrow> (L, Ret (Err e))
                       | Ok L' \<Rightarrow> if up 4 then (L', Ret (Ok ())) else (L, Ret (Err ConnectionLost))))))"



definition update_user_accounts ::
  "faults \<Rightarrow> Schema \<Rightarrow> (Uuid \<Rightarrow> string) \<Rightarrow> BtcTx list option \<Rightarrow> Ledger \<Rightarrow> Uuid \<Rightarrow> Ledger \<times> unit run" where
  "update_user_accounts up sc us listed L user_id =
     (let (L', res) = check_bitcoind up sc us listed L user_id in (L', bind_run res (\<lambda>_. Ret ())))"

text \<open>\<open>fetch_user_account\<close>: the account itself is the unit.\<close>

definition fetch_user_account :: "bool \<Rightarrow> (Uuid \<Rightarrow> string) \<Rightarrow> Ledger \<Rightarrow> Uuid \<Rightarrow> Asset \<Rightarrow> (unit option, SqlError) result" where
  "fetch_user_account up us L user_id asset =
     (if \<not> up then Err ConnectionLost
      else Ok (map_option (\<lambda>_. ()) (user_account L (us user_id) (Asset_to_string asset))))"

section \<open>Double entry\<close>

definition balance_of :: "Ledger \<Rightarrow> int \<Rightarrow> int" where
  "balance_of L i = credits L i - debits L i"

definition ledger_wf :: "Ledger \<Rightarrow> bool" where
  "ledger_wf L \<longleftrightarrow>
     distinct (map ac_id (accounts L)) \<and> distinct (map jr_id (journal L)) \<and>
     (\<forall>r\<in>set (journal L). jr_id r < next_id L \<and> jr_credit r \<in> ac_id ` set (accounts L) \<and>
        jr_debit r \<in> ac_id ` set (accounts L) \<and> jr_credit r \<noteq> jr_debit r \<and> 0 < jr_amount r)"

lemma journal_insert_Ok:
  assumes "journal_insert sc L credit debit cur amt ty tx = Ok (L', i)"
  obtains c d where "credit = Some c" "debit = Some d" "c \<noteq> d" "0 < amt" "bigint amt" "i = next_id L" "next_id L < 2 ^ 31" "currency_code cur"
    "c \<in> ac_id ` set (accounts L)" "d \<in> ac_id ` set (accounts L)"
    "sc = With_txid \<Longrightarrow> tx \<noteq> None \<and> tx \<noteq> Some [] \<and> (\<forall>r\<in>set (journal L). jr_txid r \<noteq> tx)"
    "L' = L\<lparr>journal := journal L @ [\<lparr>jr_id = next_id L, jr_credit = c, jr_debit = d, jr_currency = cur,
            jr_amount = amt, jr_type = ty, jr_txid = (if sc = With_txid then tx else None)\<rparr>],
          next_id := next_id L + 1\<rparr>"
  using assms unfolding journal_insert_def
  by (auto split: option.splits if_splits simp del: ex_simps)

lemma journal_insert_balance:
  assumes "journal_insert sc L (Some c) (Some d) cur amt ty tx = Ok (L', i)"
  shows "credits L' k = credits L k + (if k = c then amt else 0)"
    and "debits L' k = debits L k + (if k = d then amt else 0)"
    and "balance_of L' k = balance_of L k + (if k = c then amt else 0) - (if k = d then amt else 0)"
    and "accounts L' = accounts L" and "next_id L' = next_id L + 1"
  using assms by (auto elim!: journal_insert_Ok simp: balance_of_def credits_def debits_def)

lemma journal_insert_wf:
  assumes "ledger_wf L" and "journal_insert sc L credit debit cur amt ty tx = Ok (L', i)"
  shows "ledger_wf L'"
  using assms(2)
proof (rule journal_insert_Ok)
  fix c d
  assume new: "c \<noteq> d" "0 < amt" "c \<in> ac_id ` set (accounts L)" "d \<in> ac_id ` set (accounts L)"
    and L': "L' = L\<lparr>journal := journal L @ [\<lparr>jr_id = next_id L, jr_credit = c, jr_debit = d, jr_currency = cur,
            jr_amount = amt, jr_type = ty, jr_txid = (if sc = With_txid then tx else None)\<rparr>],
          next_id := next_id L + 1\<rparr>"
  have "next_id L \<notin> jr_id ` set (journal L)" using assms(1) by (force simp: ledger_wf_def)
  with assms(1) new show ?thesis by (auto simp: ledger_wf_def L' intro: less_trans [of _ "next_id L"])
qed

text \<open>The insertions the application makes: a reservation from a user to the exchange's cash, the inverse of a row, a deposit from the chain to a user.\<close>

definition account_kind :: "Ledger \<Rightarrow> int option \<Rightarrow> string \<Rightarrow> bool" where
  "account_kind L i kind \<longleftrightarrow> (\<forall>k. i = Some k \<longrightarrow> (\<exists>a\<in>set (accounts L). ac_id a = k \<and> ac_source_type a = kind))"

definition writes :: "Ledger \<Rightarrow> int option \<Rightarrow> int option \<Rightarrow> int \<Rightarrow> string \<Rightarrow> bool" where
  "writes L credit debit amt ty \<longleftrightarrow>
     ty = ''reserve asset'' \<and> account_kind L credit ''fiat'' \<and> account_kind L debit ''user'' \<or>
     ty = ''revert reserve asset'' \<and> (\<exists>r\<in>set (journal L). credit = Some (jr_debit r) \<and> debit = Some (jr_credit r) \<and> amt = jr_amount r) \<or>
     ty = ''CHAIN.DEPOSIT'' \<and> account_kind L credit ''user'' \<and> account_kind L debit ''crypto''"

lemma scalar_subquery_kind:
  "scalar_subquery (map ac_id (filter Q (accounts L))) = Ok i \<Longrightarrow> (\<And>a. Q a \<Longrightarrow> ac_source_type a = kind) \<Longrightarrow> account_kind L i kind"
  by (cases "filter Q (accounts L)" rule: remdups_adj.cases) (auto simp: account_kind_def filter_eq_Cons_iff)

lemma find_account_kind:
  "find Q (accounts L) = Some a \<Longrightarrow> (\<And>a. Q a \<Longrightarrow> ac_source_type a = kind) \<Longrightarrow> account_kind L (Some (ac_id a)) kind"
  by (force simp: account_kind_def find_Some_iff)

lemma account_kind_unique:
  assumes "distinct (map ac_id (accounts L))" and "a \<in> set (accounts L)" and "account_kind L (Some (ac_id a)) kind"
  shows "ac_source_type a = kind"
proof -
  from assms(3) obtain b where "b \<in> set (accounts L)" "ac_id b = ac_id a" "ac_source_type b = kind" by (auto simp: account_kind_def)
  moreover from this assms(1,2) have "b = a" by (auto simp: distinct_map dest: inj_onD)
  ultimately show ?thesis by simp
qed

lemma account_kind_insert: "journal_insert sc L c d cur amt ty tx = Ok (L', i) \<Longrightarrow> account_kind L' k kind = account_kind L k kind"
  by (auto simp: account_kind_def elim!: journal_insert_Ok)

text \<open>What each of these insertions keeps, every operation keeps, whether it succeeds, fails or panics.\<close>

locale journal_writes =
  fixes sc :: Schema and P :: "Ledger \<Rightarrow> bool"
  assumes write_keeps: "P L \<Longrightarrow> writes L credit debit amt ty \<Longrightarrow> journal_insert sc L credit debit cur amt ty tx = Ok (L', i) \<Longrightarrow> P L'"
begin

lemma reserve_insert_keeps:
  assumes "P L" and "reserve_insert up sc us L u q cur = Ok (L', i)"
  shows "P L'"
proof -
  from assms(2) obtain credit debit where "account_kind L credit ''fiat''" "account_kind L debit ''user''"
    and ins: "journal_insert sc L credit debit cur (uint (nz_get q)) ''reserve asset'' None = Ok (L', i)"
    by (auto simp: reserve_insert_def split: result.splits if_splits dest!: scalar_subquery_kind)
  with write_keeps [OF assms(1) _ ins] show ?thesis by (simp add: writes_def)
qed

lemma reserve_keeps: "P L \<Longrightarrow> P (fst (reserve_by_asset up sc us L u q cur))"
  by (auto simp: reserve_by_asset_def intro: reserve_insert_keeps split: result.splits prod.splits)

lemma revert_keeps: "P L \<Longrightarrow> P (fst (revert up sc L r))"
proof (cases "find (\<lambda>j. jr_id j = sint (row_id r)) (journal L)")
  case (Some j)
  then have "j \<in> set (journal L)" by (auto simp: find_Some_iff)
  then have "writes L (Some (jr_debit j)) (Some (jr_credit j)) (jr_amount j) ''revert reserve asset''" by (auto simp: writes_def)
  from write_keeps [OF _ this] Some show "P L \<Longrightarrow> P (fst (revert up sc L r))" by (auto simp: revert_def split: result.splits prod.splits)
qed (simp add: revert_def)

lemma deposit_loop_keeps:
  assumes "P L" and "deposit_loop up n sc ua ba known txs L = Ok L'" and "account_kind L (Some ua) ''user''" and "account_kind L (Some ba) ''crypto''"
  shows "P L'"
  using assms
proof (induction txs arbitrary: n L)
  case (Cons tx txs)
  show ?case
  proof (cases "Some (tx_txid tx) \<in> known")
    case False
    with Cons.prems(2) obtain L1 i where
      ins: "journal_insert sc L (Some ua) (Some ba) ''BTC'' (tx_amount tx) ''CHAIN.DEPOSIT'' (Some (tx_txid tx)) = Ok (L1, i)"
        "deposit_loop up (Suc n) sc ua ba known txs L1 = Ok L'"
      by (auto split: if_splits result.splits)
    from write_keeps [OF Cons.prems(1) _ ins(1)] Cons.prems(3,4) have "P L1" by (simp add: writes_def)
    with Cons.IH [OF this ins(2)] Cons.prems(3,4) show ?thesis by (simp add: account_kind_insert [OF ins(1)])
  qed (use Cons in simp)
qed simp

lemma check_bitcoind_keeps: "P L \<Longrightarrow> P (fst (check_bitcoind up sc us listed L u))"
proof (cases "find (\<lambda>a. ac_source_type a = ''crypto'' \<and> ac_source_id a = ''bitcoin'') (accounts L)")
  case btc: (Some ba)
  assume P: "P L"
  show ?thesis
  proof (cases "find (\<lambda>a. ac_source_id a = us u \<and> ac_currency a = ''BTC'' \<and> ac_source_type a = ''user'') (accounts L)")
    case (Some ua)
    have "account_kind L (Some (ac_id ua)) ''user''" "account_kind L (Some (ac_id ba)) ''crypto''"
      using find_account_kind [OF Some] find_account_kind [OF btc] by auto
    with deposit_loop_keeps [OF P] P btc Some show ?thesis
      by (auto simp: check_bitcoind_def Let_def split: option.splits result.splits)
  qed (use P btc in \<open>simp add: check_bitcoind_def\<close>)
qed (simp add: check_bitcoind_def)

lemma update_user_accounts_keeps: "P L \<Longrightarrow> P (fst (update_user_accounts up sc us listed L u))"
  using check_bitcoind_keeps [of L up us listed u] by (auto simp: update_user_accounts_def split: prod.splits)

end

text \<open>An invariant of every accepted insertion is one in particular.\<close>

locale journal_invariant =
  fixes sc :: Schema and P :: "Ledger \<Rightarrow> bool"
  assumes insert_keeps: "P L \<Longrightarrow> journal_insert sc L credit debit cur amt ty tx = Ok (L', i) \<Longrightarrow> P L'"

sublocale journal_invariant \<subseteq> journal_writes
  by unfold_locales (rule insert_keeps)

interpretation wf: journal_invariant sc ledger_wf for sc
  by unfold_locales (rule journal_insert_wf)

text \<open>The journal only grows, and no operation changes the accounts.\<close>

definition journal_grows :: "Ledger \<Rightarrow> Ledger \<Rightarrow> bool" where
  "journal_grows L L' \<longleftrightarrow> prefix (journal L) (journal L') \<and> accounts L' = accounts L \<and> next_id L \<le> next_id L'"

lemma journal_grows_refl [simp]: "journal_grows L L"
  by (simp add: journal_grows_def)

interpretation grows: journal_invariant sc "journal_grows L0" for sc L0
  by unfold_locales (auto simp: journal_grows_def elim!: journal_insert_Ok)

text \<open>The rows a run has added: of three kinds, and a reservation credits the exchange's cash.\<close>

definition added_row :: "Ledger \<Rightarrow> JournalRow \<Rightarrow> bool" where
  "added_row L r \<longleftrightarrow> jr_type r \<in> {''reserve asset'', ''revert reserve asset'', ''CHAIN.DEPOSIT''} \<and>
     (jr_type r = ''reserve asset'' \<longrightarrow> account_kind L (Some (jr_credit r)) ''fiat'')"

definition adds_rows :: "Ledger \<Rightarrow> Ledger \<Rightarrow> bool" where
  "adds_rows L0 L \<longleftrightarrow> journal_grows L0 L \<and> (\<forall>r\<in>set (drop (length (journal L0)) (journal L)). added_row L0 r)"

lemma adds_rows_refl [simp]: "adds_rows L L"
  by (simp add: adds_rows_def)

interpretation adds: journal_writes sc "adds_rows L0" for sc L0
proof unfold_locales
  fix L L' credit debit cur amt ty tx i
  assume L: "adds_rows L0 L" and w: "writes L credit debit amt ty" and ins: "journal_insert sc L credit debit cur amt ty tx = Ok (L', i)"
  then have grow: "journal_grows L0 L'" by (auto simp: adds_rows_def intro: grows.insert_keeps)
  have le: "length (journal L0) \<le> length (journal L)" and acc: "accounts L = accounts L0"
    using L by (auto simp: adds_rows_def journal_grows_def dest: prefix_length_le)
  from ins obtain r where r: "journal L' = journal L @ [r]" "jr_type r = ty" "Some (jr_credit r) = credit" by (auto elim!: journal_insert_Ok)
  with w acc have "added_row L0 r" by (auto simp: added_row_def writes_def account_kind_def)
  with L grow r(1) le show "adds_rows L0 L'" by (auto simp: adds_rows_def)
qed

text \<open>
  The columns have the types of the migrations: identifiers in \<open>INTEGER\<close>, amounts in \<open>BIGINT\<close>, currencies matching their pattern,
  and, where the column exists, transaction ids that are not null, not empty and unique.
\<close>

definition account_typed :: "Account \<Rightarrow> bool" where
  "account_typed a \<longleftrightarrow> 0 < ac_id a \<and> ac_id a < 2 ^ 31 \<and> currency_code (ac_currency a) \<and>
     ac_source_type a \<in> {''user'', ''fiat'', ''crypto''}"

definition row_typed :: "Schema \<Rightarrow> JournalRow \<Rightarrow> bool" where
  "row_typed sc r \<longleftrightarrow> 0 < jr_id r \<and> jr_id r < 2 ^ 31 \<and> 0 < jr_amount r \<and> bigint (jr_amount r) \<and> currency_code (jr_currency r) \<and>
     (case sc of Before_txid \<Rightarrow> jr_txid r = None | With_txid \<Rightarrow> jr_txid r \<notin> {None, Some []})"

definition ledger_typed :: "Schema \<Rightarrow> Ledger \<Rightarrow> bool" where
  "ledger_typed sc L \<longleftrightarrow>
     (\<forall>a\<in>set (accounts L). account_typed a) \<and> distinct (map (\<lambda>a. (ac_source_id a, ac_currency a)) (accounts L)) \<and>
     (\<forall>r\<in>set (journal L). row_typed sc r) \<and> (sc = With_txid \<longrightarrow> distinct (map jr_txid (journal L))) \<and>
     0 < next_id L \<and> next_id L \<le> 2 ^ 31"

lemma journal_insert_typed:
  assumes "ledger_typed sc L" and "journal_insert sc L credit debit cur amt ty tx = Ok (L', i)"
  shows "ledger_typed sc L'"
  using assms by (auto simp: ledger_typed_def row_typed_def split: Schema.splits elim!: journal_insert_Ok) blast

interpretation typed: journal_invariant sc "ledger_typed sc" for sc
  by unfold_locales (rule journal_insert_typed)

lemma sum_list_indicator:
  "distinct xs \<Longrightarrow> i \<in> set xs \<Longrightarrow> (\<Sum>x\<leftarrow>xs. if x = i then (a :: int) else 0) = a"
proof (induction xs)
  case (Cons x xs)
  have "(\<Sum>x\<leftarrow>xs. if x = i then a else 0) = 0" if "i \<notin> set xs"
    using that by (induction xs) auto
  with Cons show ?case by auto
qed simp

lemma journal_sum:
  assumes "distinct ids" and "\<forall>r\<in>set rs. f r \<in> set ids"
  shows "(\<Sum>i\<leftarrow>ids. \<Sum>r\<leftarrow>filter (\<lambda>r. f r = i) rs. jr_amount r) = (\<Sum>r\<leftarrow>rs. jr_amount r)"
  using assms(2)
proof (induction rs)
  case (Cons r rs)
  have "(\<Sum>i\<leftarrow>ids. \<Sum>r\<leftarrow>filter (\<lambda>x. f x = i) (r # rs). jr_amount r) =
      (\<Sum>i\<leftarrow>ids. (if i = f r then jr_amount r else 0) + (\<Sum>r\<leftarrow>filter (\<lambda>x. f x = i) rs. jr_amount r))"
    by (rule arg_cong [where f = sum_list], rule map_cong) auto
  with Cons sum_list_indicator [OF assms(1), of "f r" "jr_amount r"] show ?case by (simp add: sum_list_addf)
qed simp

text \<open>A concrete ledger: the exchange's cash, bitcoin's account, one funded user and one deposit.\<close>

definition sample_us :: "Uuid \<Rightarrow> string" where
  "sample_us u = (if u = 1 then ''u1'' else ''u2'')"

definition sample_ledger :: Ledger where
  "sample_ledger =
     \<lparr>accounts = [\<lparr>ac_id = 1, ac_currency = ''USD'', ac_source_type = ''fiat'', ac_source_id = ''exchange''\<rparr>,
        \<lparr>ac_id = 2, ac_currency = ''BTC'', ac_source_type = ''crypto'', ac_source_id = ''bitcoin''\<rparr>,
        \<lparr>ac_id = 3, ac_currency = ''USD'', ac_source_type = ''user'', ac_source_id = ''u1''\<rparr>,
        \<lparr>ac_id = 4, ac_currency = ''BTC'', ac_source_type = ''user'', ac_source_id = ''u2''\<rparr>],
      journal = [\<lparr>jr_id = 1, jr_credit = 3, jr_debit = 1, jr_currency = ''USD'', jr_amount = 100,
        jr_type = ''deposit'', jr_txid = None\<rparr>],
      next_id = 2\<rparr>"

lemma sample_ledger_wf: "ledger_wf sample_ledger"
  by (simp add: ledger_wf_def sample_ledger_def)

lemma sample_ledger_typed: "ledger_typed Before_txid sample_ledger"
  by (simp add: ledger_typed_def account_typed_def row_typed_def sample_ledger_def bigint_def currency_code_def less_eq_char_def)

lemma sample_next_id: "next_id sample_ledger < 2 ^ 31"
  by (simp add: sample_ledger_def)

lemma sample_balance: "calculate_balance sample_ledger (sample_us 1) ''USD'' = Ok 100"
  by (simp add: calculate_balance_def user_account_def sample_ledger_def sample_us_def credits_def debits_def bigint_def)

lemma ledger_sum_zero:
  assumes "ledger_wf L"
  shows "(\<Sum>a\<leftarrow>accounts L. balance_of L (ac_id a)) = 0"
  using assms journal_sum [of "map ac_id (accounts L)" "journal L" jr_credit] journal_sum [of "map ac_id (accounts L)" "journal L" jr_debit]
  by (simp add: balance_of_def credits_def debits_def ledger_wf_def sum_list_subtractf comp_def)

text \<open>C30: the journal is double entry. Every accepted insertion keeps the ledger well formed, moves
  exactly its amount from the debited to the credited account, touches no other balance, and the balances
  of all accounts of a well-formed ledger sum to zero.\<close>

theorem journal_insert_double_entry:
  assumes "ledger_wf L" and "journal_insert sc L credit debit cur amt ty tx = Ok (L', i)"
  shows "ledger_wf L' \<and> (\<Sum>a\<leftarrow>accounts L'. balance_of L' (ac_id a)) = 0 \<and>
    (\<forall>k. balance_of L' k = balance_of L k + (if Some k = credit then amt else 0) - (if Some k = debit then amt else 0))"
proof -
  have wf: "ledger_wf L'" by (rule journal_insert_wf [OF assms])
  have "balance_of L' k = balance_of L k + (if Some k = credit then amt else 0) - (if Some k = debit then amt else 0)" for k
    using assms(2) by (rule journal_insert_Ok) (use journal_insert_balance(3) assms(2) in auto)
  then show ?thesis using wf ledger_sum_zero [OF wf] by simp
qed

theorem journal_insert_double_entry_witness:
  "\<exists>L' i. journal_insert Before_txid sample_ledger (Some 1) (Some 3) ''USD'' 40 ''reserve asset'' None = Ok (L', i) \<and>
     balance_of L' 3 = balance_of sample_ledger 3 - 40"
proof -
  obtain L' i where run: "journal_insert Before_txid sample_ledger (Some 1) (Some 3) ''USD'' 40 ''reserve asset'' None = Ok (L', i)"
    by (simp add: journal_insert_def sample_ledger_def bigint_def currency_code_assets)
  from journal_insert_double_entry [OF sample_ledger_wf run] run show ?thesis by auto
qed

section \<open>Reservations\<close>

text \<open>A user with a single account, in a currency in which the exchange has its cash account.\<close>

definition funded :: "(Uuid \<Rightarrow> string) \<Rightarrow> Ledger \<Rightarrow> Uuid \<Rightarrow> string \<Rightarrow> Account \<Rightarrow> Account \<Rightarrow> bool" where
  "funded us L u cur ua fa \<longleftrightarrow>
     ledger_wf L \<and> currency_code cur \<and> ac_currency ua = cur \<and>
     filter (\<lambda>a. ac_source_type a = ''user'' \<and> ac_source_id a = us u) (accounts L) = [ua] \<and>
     filter (\<lambda>a. ac_source_type a = ''fiat'' \<and> ac_source_id a = ''exchange'' \<and> ac_currency a = cur) (accounts L) = [fa]"

lemma filter_single_mem: "filter P xs = [x] \<Longrightarrow> x \<in> set xs \<and> P x"
proof -
  assume "filter P xs = [x]"
  then have "x \<in> set (filter P xs)" by simp
  then show ?thesis by simp
qed

lemma funded_accounts:
  assumes "funded us L u cur ua fa"
  shows "ua \<in> set (accounts L)" and "fa \<in> set (accounts L)" and "ac_id ua \<noteq> ac_id fa"
    and "user_account L (us u) cur = Some ua"
proof -
  from assms have ua: "ua \<in> set (accounts L)" "ac_source_type ua = ''user''" "ac_source_id ua = us u"
    and fa: "fa \<in> set (accounts L)" "ac_source_type fa = ''fiat''"
    by (auto simp: funded_def dest!: filter_single_mem)
  have "distinct (map ac_id (accounts L))" using assms by (simp add: funded_def ledger_wf_def)
  moreover have "ua \<noteq> fa" using ua(2) fa(2) by auto
  ultimately show "ac_id ua \<noteq> ac_id fa" using ua(1) fa(1) by (meson distinct_map inj_onD)
  show "ua \<in> set (accounts L)" and "fa \<in> set (accounts L)" by fact+
  have "find (\<lambda>a. ac_source_type a = ''user'' \<and> ac_source_id a = us u \<and> ac_currency a = cur) (accounts L) = Some ua"
  proof (cases "find (\<lambda>a. ac_source_type a = ''user'' \<and> ac_source_id a = us u \<and> ac_currency a = cur) (accounts L)")
    case None
    with ua assms show ?thesis by (auto simp: find_None_iff funded_def)
  next
    case (Some a)
    from find_Some_mem [OF this] have "a \<in> set (filter (\<lambda>a. ac_source_type a = ''user'' \<and> ac_source_id a = us u) (accounts L))"
      by simp
    with assms Some show ?thesis by (simp add: funded_def)
  qed
  then show "user_account L (us u) cur = Some ua" by (simp add: user_account_def)
qed

lemma funded_balance:
  "funded us L u cur ua fa \<Longrightarrow> calculate_balance L (us u) cur =
     (let c = credits L (ac_id ua); d = debits L (ac_id ua) in
      if bigint c \<and> bigint d \<and> bigint (c - d) then Ok (c - d) else Err NumericOutOfRange)"
  by (simp add: calculate_balance_def funded_accounts(4))

lemma uint_nz_range: "0 < uint (nz_get q)" "uint (nz_get q) < 2 ^ 32"
proof -
  have "uint (nz_get q) \<noteq> 0" by (simp add: uint_0_iff)
  then show "0 < uint (nz_get q)" using uint_nonnegative [of "nz_get q"] by linarith
  show "uint (nz_get q) < 2 ^ 32" using unsigned_less [where 'a = int, of "nz_get q"] by simp
qed

lemma bigint_uint_nz: "bigint (uint (nz_get q))"
  using uint_nz_range [of q] by (simp add: bigint_def)

lemma reserve_insert_funded:
  assumes "funded us L u cur ua fa" and "next_id L < 2 ^ 31"
  obtains L' where "reserve_insert True Before_txid us L u q cur = Ok (L', next_id L)"
    "journal_insert Before_txid L (Some (ac_id fa)) (Some (ac_id ua)) cur (uint (nz_get q)) ''reserve asset'' None = Ok (L', next_id L)"
    "funded us L' u cur ua fa"
proof -
  note acc = funded_accounts [OF assms(1)]
  let ?ins = "journal_insert Before_txid L (Some (ac_id fa)) (Some (ac_id ua)) cur (uint (nz_get q)) ''reserve asset'' None"
  obtain L' where L': "?ins = Ok (L', next_id L)"
    using acc assms uint_nz_range [of q] bigint_uint_nz [of q] by (simp add: journal_insert_def funded_def)
  moreover have "reserve_insert True Before_txid us L u q cur = ?ins"
    using assms by (simp add: reserve_insert_def funded_def)
  moreover have "funded us L' u cur ua fa"
    using assms(1) journal_insert_wf [OF _ L'] journal_insert_balance(4) [OF L'] by (simp add: funded_def)
  ultimately show ?thesis using that by simp
qed

lemma calculate_after_reserve:
  assumes "funded us L u cur ua fa"
    and "journal_insert Before_txid L (Some (ac_id fa)) (Some (ac_id ua)) cur (uint (nz_get q)) ''reserve asset'' None = Ok (L', i)"
    and "funded us L' u cur ua fa" and "calculate_balance L (us u) cur = Ok b"
    and "bigint (debits L (ac_id ua) + uint (nz_get q))" and "bigint (b - uint (nz_get q))"
  shows "calculate_balance L' (us u) cur = Ok (b - uint (nz_get q))"
  using assms(4-6) funded_accounts(3) [OF assms(1)] journal_insert_balance(1,2) [OF assms(2)]
  by (auto simp: funded_balance [OF assms(3)] funded_balance [OF assms(1)] Let_def split: if_splits)
    (simp add: algebra_simps)

lemma uint_ucast_u64: "uint (ucast (w :: u32) :: u64) = uint w"
  by (rule uint_up_ucast) (simp add: is_up)

text \<open>The sufficiency check reads the balance as unsigned: it passes when the balance covers the
  quantity, and also whenever the balance is negative.\<close>

lemma reserve_check_passes:
  assumes "calculate_balance L (us u) cur = Ok b" and "bigint b" and "uint (nz_get q) \<le> b \<or> b < 0"
  shows "reserve_check True us L u q cur = Ok (word_of_int b)"
proof -
  have u: "uint (word_of_int b :: u64) = b mod 2 ^ 64" by (simp add: uint_word_of_int)
  have b: "b mod 2 ^ 64 = (if b < 0 then b + 2 ^ 64 else b)"
  proof (cases "b < 0")
    case True
    have "b mod 2 ^ 64 = (b + 2 ^ 64) mod 2 ^ 64" by simp
    also have "\<dots> = b + 2 ^ 64" using True assms(2) by (intro mod_pos_pos_trivial) (simp_all add: bigint_def)
    finally show ?thesis using True by simp
  next
    case False
    then show ?thesis using assms(2) by (simp add: bigint_def)
  qed
  have "uint (nz_get q) \<le> uint (word_of_int b :: u64)" "uint (word_of_int b :: u64) \<noteq> 0"
    unfolding u b using assms(2,3) uint_nz_range [of q] by (auto simp: bigint_def)
  then have "ucast (nz_get q) \<le> (word_of_int b :: u64)" "(word_of_int b :: u64) \<noteq> 0"
    by (auto simp: word_le_def uint_ucast_u64 uint_0_iff)
  with assms(1) show ?thesis
    by (simp add: reserve_check_def calculate_balance_from_accounting_def nonzero_u64_def Let_def)
qed

lemma nonzero_u64_less:
  assumes "0 \<le> a" and "a < b" and "bigint b"
  shows "case nonzero_u64 a of Some w \<Rightarrow> w < word_of_int b | None \<Rightarrow> True"
  using assms by (simp add: nonzero_u64_def Let_def word_less_def uint_word_of_int bigint_def)

lemma sint_row_id: "0 \<le> i \<Longrightarrow> i < 2 ^ 31 \<Longrightarrow> sint (word_of_int i :: u32) = i"
  by (simp add: int_word_sint)

lemma journal_new_row:
  assumes "ledger_wf L" and "journal_insert sc L (Some c) (Some d) cur amt ty tx = Ok (L', i)"
  obtains j where "find (\<lambda>j. jr_id j = i) (journal L') = Some j" "jr_credit j = c" "jr_debit j = d"
    "jr_currency j = cur" "jr_amount j = amt"
  using assms(2)
proof (rule journal_insert_Ok)
  fix c' d'
  let ?row = "\<lparr>jr_id = next_id L, jr_credit = c', jr_debit = d', jr_currency = cur, jr_amount = amt, jr_type = ty,
    jr_txid = (if sc = With_txid then tx else None)\<rparr>"
  assume "Some c = Some c'" "Some d = Some d'" "i = next_id L"
    and L': "L' = L\<lparr>journal := journal L @ [?row], next_id := next_id L + 1\<rparr>"
  then have "?row \<in> set (journal L')" "jr_id ?row = i" by auto
  moreover have "distinct (map jr_id (journal L'))"
    using journal_insert_wf [OF assms] by (simp add: ledger_wf_def)
  ultimately have "find (\<lambda>j. jr_id j = i) (journal L') = Some ?row"
    using find_distinct_key [of jr_id "journal L'" ?row] by simp
  with \<open>Some c = Some c'\<close> \<open>Some d = Some d'\<close> show thesis using that by simp
qed

lemma reserve_revert_law:
  assumes "funded us L u cur ua fa" and "calculate_balance L (us u) cur = Ok b" and "uint (nz_get q) \<le> b"
    and "\<And>n. up n" and "0 \<le> next_id L" and "next_id L + 1 < 2 ^ 31"
  shows "\<exists>L' r L'' k. reserve_by_asset up Before_txid us L u q cur = (L', Ret (Ok r)) \<and>
    calculate_balance L' (us u) cur = Ok (b - uint (nz_get q)) \<and>
    uint (previous_balance r) = b \<and> new_balance r = nonzero_u64 (b - uint (nz_get q)) \<and>
    revert True Before_txid L' r = (L'', Ok k) \<and> (\<forall>i. balance_of L'' i = balance_of L i)"
proof -
  note q = uint_nz_range [of q]
  have big: "bigint b" "bigint (b - uint (nz_get q))" "bigint (debits L (ac_id ua) + uint (nz_get q))"
    using assms(2,3) q by (auto simp: funded_balance [OF assms(1)] Let_def bigint_def split: if_splits)
  have room: "next_id L < 2 ^ 31" using assms(6) by simp
  obtain L' where L': "reserve_insert True Before_txid us L u q cur = Ok (L', next_id L)"
    "journal_insert Before_txid L (Some (ac_id fa)) (Some (ac_id ua)) cur (uint (nz_get q)) ''reserve asset'' None = Ok (L', next_id L)"
    "funded us L' u cur ua fa" by (rule reserve_insert_funded [OF assms(1) room])
  have after: "calculate_balance L' (us u) cur = Ok (b - uint (nz_get q))"
    by (rule calculate_after_reserve [OF assms(1) L'(2,3) assms(2) big(3,2)])
  let ?r = "\<lparr>row_id = word_of_int (next_id L), previous_balance = word_of_int b, new_balance = nonzero_u64 (b - uint (nz_get q))\<rparr>"
  have less: "case nonzero_u64 (b - uint (nz_get q)) of Some w \<Rightarrow> w < word_of_int b | None \<Rightarrow> True"
    using assms(3) q big(1) by (intro nonzero_u64_less) auto
  have run: "reserve_by_asset up Before_txid us L u q cur = (L', Ret (Ok ?r))"
    using reserve_check_passes [of L us u cur b q] assms(2-4) big(1) L'(1) after less
    by (simp add: reserve_by_asset_def calculate_balance_from_accounting_def split: option.splits)
  have wf: "ledger_wf L" "ledger_wf L'" using assms(1) L'(3) by (simp_all add: funded_def)
  obtain j where j: "find (\<lambda>j. jr_id j = next_id L) (journal L') = Some j" "jr_credit j = ac_id fa" "jr_debit j = ac_id ua"
    "jr_currency j = cur" "jr_amount j = uint (nz_get q)" by (rule journal_new_row [OF wf(1) L'(2)])
  obtain L'' k where L'': "journal_insert Before_txid L' (Some (ac_id ua)) (Some (ac_id fa)) cur (uint (nz_get q))
      ''revert reserve asset'' None = Ok (L'', k)"
    using funded_accounts [OF L'(3)] L'(3) q bigint_uint_nz [of q] journal_insert_balance(5) [OF L'(2)] assms(6)
    by (simp add: journal_insert_def funded_def)
  have "revert True Before_txid L' ?r = (L'', Ok k)"
    using j L'' sint_row_id [OF assms(5)] assms(6) by (simp add: revert_def)
  moreover have "balance_of L'' i = balance_of L i" for i
    using journal_insert_balance(3) [OF L''] journal_insert_balance(3) [OF L'(2)] by simp
  moreover have "uint (word_of_int b :: u64) = b" using assms(3) q big(1) by (simp add: uint_word_of_int bigint_def)
  ultimately show ?thesis using run after by auto
qed

lemma sample_funded:
  "funded sample_us sample_ledger 1 ''USD''
     \<lparr>ac_id = 3, ac_currency = ''USD'', ac_source_type = ''user'', ac_source_id = ''u1''\<rparr>
     \<lparr>ac_id = 1, ac_currency = ''USD'', ac_source_type = ''fiat'', ac_source_id = ''exchange''\<rparr>"
  using sample_ledger_wf by (simp add: funded_def currency_code_assets) (simp add: sample_ledger_def sample_us_def)

text \<open>C33: on the schema before the \<open>txid\<close> column, a covered reservation succeeds and is undone by its revert. The
  balance the user sees falls by exactly the quantity, the answer reports the old and the new
  balance and its own sufficiency assertion holds; reverting the returned reservation
  succeeds and brings every account of the ledger back to its balance.\<close>

theorem reserve_then_revert:
  assumes "funded us L u cur ua fa" and "calculate_balance L (us u) cur = Ok b" and "uint (nz_get q) \<le> b"
    and "\<And>n. up n" and "0 \<le> next_id L" and "next_id L + 1 < 2 ^ 31"
  shows "\<exists>L' r L'' k. reserve_by_asset up Before_txid us L u q cur = (L', Ret (Ok r)) \<and>
    calculate_balance L' (us u) cur = Ok (b - uint (nz_get q)) \<and>
    uint (previous_balance r) = b \<and> new_balance r = nonzero_u64 (b - uint (nz_get q)) \<and>
    revert True Before_txid L' r = (L'', Ok k) \<and> (\<forall>i. balance_of L'' i = balance_of L i)"
  by (rule reserve_revert_law [OF assms])

theorem reserve_then_revert_witness:
  "\<exists>L' r. reserve_by_asset (\<lambda>_. True) Before_txid sample_us sample_ledger 1 (nz 40) ''USD'' = (L', Ret (Ok r)) \<and>
     calculate_balance L' (sample_us 1) ''USD'' = Ok 60"
proof -
  have "uint (nz_get (nz 40)) \<le> 100" "0 \<le> next_id sample_ledger" "next_id sample_ledger + 1 < 2 ^ 31"
    by (simp_all add: sample_ledger_def)
  from reserve_then_revert [OF sample_funded sample_balance this(1), of "\<lambda>_. True"] this(2,3) show ?thesis by auto
qed

lemma no_reserve_with_txid:
  "(\<exists>e. reserve_by_asset up With_txid us L u q cur = (L, Ret (Err e))) \<and>
   (\<exists>e. revert b With_txid L r = (L, Err e))"
proof -
  have none: "\<exists>e. journal_insert With_txid L c d cur' amt ty None = Err e" for c d cur' amt ty
    by (auto simp: journal_insert_def split: option.splits)
  obtain e where "reserve_insert (up 1) With_txid us L u q cur = Err e"
    using none by (fastforce simp: reserve_insert_def split: result.splits)
  then have "\<exists>e. reserve_by_asset up With_txid us L u q cur = (L, Ret (Err e))"
    by (cases "reserve_check (up 0) us L u q cur") (auto simp: reserve_by_asset_def)
  moreover have "\<exists>e. revert b With_txid L r = (L, Err e)"
  proof (cases "find (\<lambda>j. jr_id j = sint (row_id r)) (journal L)")
    case (Some j)
    with none [of "Some (jr_debit j)" "Some (jr_credit j)" "jr_currency j" "jr_amount j" "''revert reserve asset''"]
    show ?thesis by (auto simp: revert_def)
  qed (simp add: revert_def)
  ultimately show ?thesis by simp
qed

text \<open>With the \<open>txid\<close> column of migration \<open>0007\<close> no reservation and no revert ever succeeds: whatever the ledger, the
  user, the currency and the quantity, the answer is an error and the ledger is unchanged,
  because neither statement gives the column a value.\<close>

theorem reserve_fails_with_txid:
  "(\<exists>e. reserve_by_asset up With_txid us L u q cur = (L, Ret (Err e))) \<and>
   (\<exists>e. revert b With_txid L r = (L, Err e))"
  by (rule no_reserve_with_txid)



section \<open>Deposits\<close>

definition deposit_row :: "int \<Rightarrow> int \<Rightarrow> JournalRow \<Rightarrow> bool" where
  "deposit_row ua ba r \<longleftrightarrow> jr_credit r = ua \<and> jr_debit r = ba \<and> jr_currency r = ''BTC'' \<and> jr_type r = ''CHAIN.DEPOSIT''"

definition known_txids :: "Ledger \<Rightarrow> int \<Rightarrow> int \<Rightarrow> string option set" where
  "known_txids L ua ba = jr_txid ` set (filter (deposit_row ua ba) (journal L))"

lemma deposit_loop_known:
  assumes "\<forall>tx\<in>set txs. Some (tx_txid tx) \<in> known"
  shows "deposit_loop up n sc ua ba known txs L = Ok L"
  using assms by (induction txs) auto

lemma deposit_insert_known:
  assumes "journal_insert With_txid L (Some ua) (Some ba) ''BTC'' amt ''CHAIN.DEPOSIT'' (Some t) = Ok (L', i)"
  shows "known_txids L' ua ba = insert (Some t) (known_txids L ua ba)" and "accounts L' = accounts L"
proof -
  show "known_txids L' ua ba = insert (Some t) (known_txids L ua ba)"
    using assms by (rule journal_insert_Ok) (simp add: known_txids_def deposit_row_def)
  show "accounts L' = accounts L" using assms by (rule journal_insert_Ok) simp
qed

lemma deposit_loop_Ok:
  assumes "deposit_loop up n With_txid ua ba known txs L = Ok L'" and "known \<subseteq> known_txids L ua ba"
  shows "known_txids L ua ba \<subseteq> known_txids L' ua ba \<and> (\<forall>tx\<in>set txs. Some (tx_txid tx) \<in> known_txids L' ua ba) \<and>
    accounts L' = accounts L"
  using assms
proof (induction txs arbitrary: n L)
  case (Cons tx txs)
  show ?case
  proof (cases "Some (tx_txid tx) \<in> known")
    case True
    with Cons.IH [of n L] Cons.prems show ?thesis by auto
  next
    case False
    with Cons.prems(1) obtain L1 i where
      L1: "journal_insert With_txid L (Some ua) (Some ba) ''BTC'' (tx_amount tx) ''CHAIN.DEPOSIT'' (Some (tx_txid tx)) = Ok (L1, i)"
        "deposit_loop up (Suc n) With_txid ua ba known txs L1 = Ok L'"
      by (auto split: if_splits result.splits)
    note k = deposit_insert_known [OF L1(1)]
    from Cons.IH [OF L1(2)] Cons.prems(2) k show ?thesis by auto
  qed
qed simp

lemma check_bitcoind_Ok:
  assumes "check_bitcoind up sc us listed L u = (L', Ret (Ok ()))"
  obtains ua ba txs where "listed = Some txs" "\<And>n. n \<le> 4 \<Longrightarrow> up n"
    "find (\<lambda>a. ac_source_type a = ''crypto'' \<and> ac_source_id a = ''bitcoin'') (accounts L) = Some ba"
    "find (\<lambda>a. ac_source_id a = us u \<and> ac_currency a = ''BTC'' \<and> ac_source_type a = ''user'') (accounts L) = Some ua"
    "deposit_loop up 5 sc (ac_id ua) (ac_id ba) (known_txids L (ac_id ua) (ac_id ba)) txs L = Ok L'"
proof -
  have four: "(\<forall>n\<le>4. up n) \<longleftrightarrow> up 0 \<and> up 1 \<and> up 2 \<and> up 3 \<and> up 4"
    by (auto simp: le_Suc_eq numeral_eq_Suc)
  from assms show thesis
    using that four unfolding check_bitcoind_def known_txids_def deposit_row_def Let_def
    by (auto split: if_splits option.splits result.splits)
qed

text \<open>Crediting deposits is idempotent. After a successful pass every listed transaction id has a deposit
  row for the user, and a second pass over the same list, with any faults after its
  queries, succeeds and changes nothing, so that no deposit is credited twice.\<close>

lemma check_bitcoind_idempotent:
  assumes "check_bitcoind up With_txid us (Some txs) L u = (L', Ret (Ok ()))"
  shows "\<exists>ua ba. (\<forall>tx\<in>set txs. Some (tx_txid tx) \<in> known_txids L' ua ba) \<and>
    check_bitcoind up With_txid us (Some txs) L' u = (L', Ret (Ok ()))"
  using assms
proof (rule check_bitcoind_Ok)
  fix ua ba txs'
  assume "Some txs = Some txs'" and up: "\<And>n. n \<le> 4 \<Longrightarrow> up n"
    and acc: "find (\<lambda>a. ac_source_type a = ''crypto'' \<and> ac_source_id a = ''bitcoin'') (accounts L) = Some ba"
      "find (\<lambda>a. ac_source_id a = us u \<and> ac_currency a = ''BTC'' \<and> ac_source_type a = ''user'') (accounts L) = Some ua"
    and loop: "deposit_loop up 5 With_txid (ac_id ua) (ac_id ba) (known_txids L (ac_id ua) (ac_id ba)) txs' L = Ok L'"
  from \<open>Some txs = Some txs'\<close> deposit_loop_Ok [OF loop order_refl]
  have done1: "\<forall>tx\<in>set txs. Some (tx_txid tx) \<in> known_txids L' (ac_id ua) (ac_id ba)" "accounts L' = accounts L" by auto
  have "check_bitcoind up With_txid us (Some txs) L' u = (L', Ret (Ok ()))"
    using up [of 0] up [of 1] up [of 2] up [of 3] up [of 4] acc done1 deposit_loop_known [OF done1(1)]
    by (simp add: check_bitcoind_def known_txids_def deposit_row_def)
  with done1(1) show ?thesis by blast
qed

lemma check_bitcoind_idempotent_witness:
  "\<exists>L'. check_bitcoind (\<lambda>_. True) With_txid sample_us (Some [\<lparr>tx_txid = ''aa'', tx_amount = 7\<rparr>]) sample_ledger 2 = (L', Ret (Ok ())) \<and>
     check_bitcoind (\<lambda>_. True) With_txid sample_us (Some [\<lparr>tx_txid = ''aa'', tx_amount = 7\<rparr>]) L' 2 = (L', Ret (Ok ()))"
proof -
  let ?txs = "[\<lparr>tx_txid = ''aa'', tx_amount = 7\<rparr>]"
  obtain L' where run: "check_bitcoind (\<lambda>_. True) With_txid sample_us (Some ?txs) sample_ledger 2 = (L', Ret (Ok ()))"
    by (simp add: check_bitcoind_def sample_ledger_def sample_us_def journal_insert_def bigint_def currency_code_def less_eq_char_def)
  from check_bitcoind_idempotent [OF run] run show ?thesis by blast
qed

lemma deposit_loop_duplicate:
  assumes "Some (tx_txid tx) \<notin> known" and dup: "tx_txid tx' = tx_txid tx"
  shows "\<exists>e. deposit_loop up n With_txid ua ba known (xs @ tx # ys @ tx' # zs) L = Err e"
proof -
  have seen: "\<exists>e. deposit_loop up n With_txid ua ba known (ys @ tx' # zs) L = Err e"
    if "Some (tx_txid tx) \<in> jr_txid ` set (journal L)" for ys L n
    using that
  proof (induction ys arbitrary: L n)
    case Nil
    then have "\<exists>e. journal_insert With_txid L (Some ua) (Some ba) ''BTC'' (tx_amount tx') ''CHAIN.DEPOSIT'' (Some (tx_txid tx)) = Err e"
      by (force simp: journal_insert_def)
    with assms(1) dup show ?case by auto
  next
    case (Cons y ys)
    show ?case
    proof (cases "journal_insert With_txid L (Some ua) (Some ba) ''BTC'' (tx_amount y) ''CHAIN.DEPOSIT'' (Some (tx_txid y))")
      case (Ok p)
      obtain L' i where p: "p = (L', i)" by (cases p)
      have "Some (tx_txid tx) \<in> jr_txid ` set (journal L')"
        using Ok Cons.prems by (auto simp: p elim!: journal_insert_Ok)
      with Ok p Cons show ?thesis by auto
    qed (use Cons in auto)
  qed
  show ?thesis
  proof (induction xs arbitrary: L n)
    case Nil
    show ?case
    proof (cases "journal_insert With_txid L (Some ua) (Some ba) ''BTC'' (tx_amount tx) ''CHAIN.DEPOSIT'' (Some (tx_txid tx))")
      case (Ok p)
      obtain L' i where p: "p = (L', i)" by (cases p)
      have "Some (tx_txid tx) \<in> jr_txid ` set (journal L')" using Ok by (auto simp: p elim!: journal_insert_Ok)
      from seen [OF this] Ok p assms show ?thesis by auto
    qed (use assms in auto)
  next
    case (Cons x xs)
    then show ?case by (auto split: result.splits)
  qed
qed

text \<open>C36: one transaction id listed twice blocks every deposit. If the list has two entries with the same new
  id (two outputs of one transaction to the same user), no pass succeeds and the ledger stays as it is, however
  often it is retried.\<close>

theorem check_bitcoind_duplicate_txid:
  assumes "Some (tx_txid tx) \<notin> jr_txid ` set (journal L)" and "tx_txid tx' = tx_txid tx"
  shows "\<exists>e. check_bitcoind up With_txid us (Some (xs @ tx # ys @ tx' # zs)) L u = (L, Ret (Err e))"
proof -
  have "Some (tx_txid tx) \<notin> jr_txid ` set (filter P (journal L))" for P using assms(1) by auto
  note dup = deposit_loop_duplicate [OF this assms(2)]
  show ?thesis
  proof (cases "find (\<lambda>a. ac_source_type a = ''crypto'' \<and> ac_source_id a = ''bitcoin'') (accounts L)")
    case (Some ba)
    show ?thesis
    proof (cases "find (\<lambda>a. ac_source_id a = us u \<and> ac_currency a = ''BTC'' \<and> ac_source_type a = ''user'') (accounts L)")
      case (Some ua)
      from dup [of up 5 "ac_id ua" "ac_id ba" "deposit_row (ac_id ua) (ac_id ba)" xs ys zs L]
        \<open>find _ _ = Some ba\<close> Some show ?thesis by (auto simp: check_bitcoind_def deposit_row_def)
    qed (use Some in \<open>simp add: check_bitcoind_def\<close>)
  qed (simp add: check_bitcoind_def)
qed

theorem check_bitcoind_duplicate_txid_witness:
  "\<exists>e. check_bitcoind (\<lambda>_. True) With_txid sample_us
      (Some [\<lparr>tx_txid = ''aa'', tx_amount = 7\<rparr>, \<lparr>tx_txid = ''aa'', tx_amount = 9\<rparr>]) sample_ledger 2 = (sample_ledger, Ret (Err e))"
  using check_bitcoind_duplicate_txid [of "\<lparr>tx_txid = ''aa'', tx_amount = 7\<rparr>" sample_ledger "\<lparr>tx_txid = ''aa'', tx_amount = 9\<rparr>"
      "\<lambda>_. True" sample_us "[]" "[]" "[]" 2]
  by (simp add: sample_ledger_def)

end
