(* ===== verification/App_Cx.thy ===== *)
theory App_Cx
  imports Replay Accounting
begin

text \<open>
  Orders from the web interface: \<open>AppCx::place_order\<close> and \<open>AppCx::cancel_order\<close> (\<open>app_cx.rs\<close>), the deferred
  revert (\<open>app_cx/defer_guard.rs\<close>, \<open>app_cx/reserve_ok.rs\<close>) and the two handlers
  \<open>web/trade_add_order.rs\<close> and \<open>web/trade_cancel_order.rs\<close>. The engine is at the other end of a channel: a
  handler takes the function \<open>respond\<close> from the command it sends to the answer that comes back.
\<close>

section \<open>Application context\<close>

datatype TradingEngineState = TeSuspended | TeRunning | TeReduceOnly

record TradeAddOrder =
  ta_side :: OrderSide
  ta_order_type :: OrderType
  ta_quantity :: NonZeroU32
  ta_price :: NonZeroU32
  ta_time_in_force :: TimeInForce
  ta_stp :: SelfTradeProtection

datatype AppPlaceOrderError = TradingEngineUnresponsive | InsufficientFunds

datatype CancelOrderError = CancelTradingEngineUnresponsive

definition PlaceOrderError_from_ReserveError :: "ReserveError \<Rightarrow> AppPlaceOrderError run" where
  "PlaceOrderError_from_ReserveError e =
     (case e of ReserveInsufficientFunds \<Rightarrow> Ret InsufficientFunds | ReserveDatabase _ \<Rightarrow> Panic TodoReached)"

definition reserve_currency :: "OrderSide \<Rightarrow> Asset \<Rightarrow> string" where
  "reserve_currency side asset =
     (case side of Buy \<Rightarrow> ''USD'' | Sell \<Rightarrow> (case asset of Bitcoin \<Rightarrow> ''BTC'' | Ether \<Rightarrow> ''ETH''))"

text \<open>
  \<open>place_order\<close>: the ledger it leaves, the command it put on the channel, and how it ended. \<open>tx\<close>
  is the new one-shot channel and \<open>open\<close> tells whether the engine still receives.
\<close>

definition place_order ::
  "faults \<Rightarrow> Schema \<Rightarrow> (Uuid \<Rightarrow> string) \<Rightarrow> TradingEngineState \<Rightarrow> bool \<Rightarrow> nat \<Rightarrow> Ledger \<Rightarrow> Asset \<Rightarrow> Uuid \<Rightarrow> TradeAddOrder \<Rightarrow>
   Ledger \<times> TradingEngineCmd option \<times> (nat \<times> ReserveOk, AppPlaceOrderError) result run" where
  "place_order up sc us te_state open tx L asset user_uuid body =
     (if te_state \<noteq> TeRunning then (L, None, Ret (Err TradingEngineUnresponsive))
      else
        let (L', res) = reserve_by_asset up sc us L user_uuid (ta_quantity body) (reserve_currency (ta_side body) asset) in
        case res of
          Panic p \<Rightarrow> (L', None, Panic p)
        | Ret (Err e) \<Rightarrow> (L', None, bind_run (PlaceOrderError_from_ReserveError e) (\<lambda>e'. Ret (Err e')))
        | Ret (Ok reserve) \<Rightarrow>
            let place_order = PlaceOrder_new asset user_uuid (ta_price body) (ta_quantity body) (ta_order_type body)
                  (ta_stp body) (ta_time_in_force body) (ta_side body);
                cmd = Trade (CmdPlaceOrder place_order tx) in
            if open then (L', Some cmd, Ret (Ok (tx, reserve)))
            else (fst (revert (up 3) sc L' reserve), None, Ret (Err TradingEngineUnresponsive)))"

definition cancel_order ::
  "TradingEngineState \<Rightarrow> bool \<Rightarrow> nat \<Rightarrow> Uuid \<Rightarrow> Uuid \<Rightarrow> TradingEngineCmd option \<times> (nat, CancelOrderError) result" where
  "cancel_order te_state open tx user_uuid order_uuid =
     (if te_state = TeSuspended then (None, Err CancelTradingEngineUnresponsive)
      else
        let cmd = Trade (CmdCancelOrder (CancelOrder_new user_uuid (OrderUuid order_uuid)) tx) in
        if open then (Some cmd, Ok tx) else (None, Err CancelTradingEngineUnresponsive))"

section \<open>Deferred revert\<close>

text \<open>A guard runs its closure when it is dropped, unless it was cancelled; \<open>cancel\<close> consumes the guard.\<close>

record DeferGuard =
  active :: bool

definition defer_guard :: DeferGuard where
  "defer_guard = \<lparr>active = True\<rparr>"

definition guard_cancel :: "DeferGuard \<Rightarrow> DeferGuard" where
  "guard_cancel g = g\<lparr>active := False\<rparr>"

definition guard_drop :: "DeferGuard \<Rightarrow> ('s \<Rightarrow> 's) \<Rightarrow> 's \<Rightarrow> 's" where
  "guard_drop g f st = (if active g then f st else st)"

text \<open>The closure of \<open>defer_revert\<close>: a failed revert is only logged.\<close>

definition defer_revert :: "bool \<Rightarrow> Schema \<Rightarrow> ReserveOk \<Rightarrow> Ledger \<Rightarrow> Ledger" where
  "defer_revert up sc r L = fst (revert up sc L r)"

section \<open>Handlers\<close>

definition add_order_response :: "Reply option \<Rightarrow> Response" where
  "add_order_response reply =
     (case reply of
        Some (PlaceReply (Ok r)) \<Rightarrow> response 200 (OrderUuidJson (case r_order_uuid r of OrderUuid u \<Rightarrow> u))
      | Some (PlaceReply (Err UnserializableInput)) \<Rightarrow>
          internal_server_error ''this input was considered problematic and could not be processed''
      | Some _ \<Rightarrow> internal_server_error ''failed to place order''
      | None \<Rightarrow> internal_server_error ''trading engine unresponsive'')"

definition reply_placed :: "Reply option \<Rightarrow> bool" where
  "reply_placed reply \<longleftrightarrow> (case reply of Some (PlaceReply (Ok _)) \<Rightarrow> True | _ \<Rightarrow> False)"

text \<open>
  \<open>trade_add_order::f\<close>. When the function returns, the guard is dropped; the revert it spawns is the
  last query.
\<close>

definition trade_add_order ::
  "faults \<Rightarrow> Schema \<Rightarrow> (Uuid \<Rightarrow> string) \<Rightarrow> TradingEngineState \<Rightarrow> bool \<Rightarrow> nat \<Rightarrow> (TradingEngineCmd \<Rightarrow> Reply option) \<Rightarrow>
   Ledger \<Rightarrow> Uuid \<Rightarrow> string \<Rightarrow> TradeAddOrder \<Rightarrow> Ledger \<times> TradingEngineCmd option \<times> Response run" where
  "trade_add_order up sc us te_state open tx respond L user_uuid asset_name body =
     (case parse_asset asset_name of
        None \<Rightarrow> (L, None, Ret (response 404 (Text ''invalid asset'')))
      | Some asset \<Rightarrow>
          if \<not> contains_asset internal_asset_list (ByValue asset)
          then (L, None, Ret (response 404 (Text ''asset not enabled'')))
          else
            let (L', cmd, res) = place_order up sc us te_state open tx L asset user_uuid body in
            case res of
              Panic p \<Rightarrow> (L', cmd, Panic p)
            | Ret (Err _) \<Rightarrow> (L', cmd, Ret (internal_server_error ''failed to place order''))
            | Ret (Ok (_, reserved_funds)) \<Rightarrow>
                let reply = Option.bind cmd respond;
                    guard = (if reply_placed reply then guard_cancel defer_guard else defer_guard) in
                (guard_drop guard (defer_revert (up 4) sc reserved_funds) L', cmd, Ret (add_order_response reply)))"

definition trade_cancel_order ::
  "TradingEngineState \<Rightarrow> bool \<Rightarrow> nat \<Rightarrow> (TradingEngineCmd \<Rightarrow> Reply option) \<Rightarrow> Uuid \<Rightarrow> string \<Rightarrow> Uuid \<Rightarrow>
   TradingEngineCmd option \<times> Response" where
  "trade_cancel_order te_state open tx respond user_uuid asset_name order_uuid =
     (case parse_asset asset_name of
        None \<Rightarrow> (None, response 404 (Text ''invalid asset''))
      | Some asset \<Rightarrow>
          if \<not> contains_asset internal_asset_list (ByValue asset)
          then (None, response 404 (Text ''asset not enabled''))
          else
            (case cancel_order te_state open tx user_uuid order_uuid of
               (cmd, Err _) \<Rightarrow> (cmd, internal_server_error ''trading engine is suspended'')
             | (cmd, Ok _) \<Rightarrow>
                 (cmd, case Option.bind cmd respond of
                         None \<Rightarrow> internal_server_error ''trading engine is unresponsive''
                       | Some (CancelReply (Ok ())) \<Rightarrow> response 200 (Text ''order cancelled'')
                       | Some _ \<Rightarrow> internal_server_error ''failed to cancel order'')))"

section \<open>Properties\<close>

definition order_of_request :: "Asset \<Rightarrow> Uuid \<Rightarrow> TradeAddOrder \<Rightarrow> PlaceOrder" where
  "order_of_request asset u body =
     PlaceOrder_new asset u (ta_price body) (ta_quantity body) (ta_order_type body) (ta_stp body) (ta_time_in_force body) (ta_side body)"

lemma order_of_request_simps [simp]:
  "po_asset (order_of_request a u body) = a" "po_side (order_of_request a u body) = ta_side body"
  "po_price (order_of_request a u body) = ta_price body" "po_quantity (order_of_request a u body) = ta_quantity body"
  "po_time_in_force (order_of_request a u body) = ta_time_in_force body"
  by (simp_all add: order_of_request_def PlaceOrder_new_def)

text \<open>In a reachable running engine a good-til-cancelled order is always placed.\<close>

lemma gtc_order_placed:
  assumes "te_reach oc cd rows k st" and "k < 2 ^ 32 - 1"
    and "po_time_in_force po \<in> {GoodTilCanceled, GoodTilDate}"
  obtains assets' r where "do_place_order oc uuid (te_assets st) po = Ret (assets', Ok r)" "r_order_uuid r = OrderUuid uuid"
    "r_asset r = po_asset po"
proof -
  have "te_inv k st" using te_reach_inv [OF assms(1)] assms(2) by simp
  then have b: "book_wf (book_of (te_assets st) (po_asset po))" "memo_bound k (book_of (te_assets st) (po_asset po))"
    by (auto simp: te_inv_def assets_ok_def book_ok_def)
  have id: "r_order_uuid (place_result po uuid ix ft f q) = OrderUuid uuid \<and> r_asset (place_result po uuid ix ft f q) = po_asset po" for ix ft f q
    by (simp add: place_result_def)
  from b assms(2) show thesis
    using that by (cases rule: place_cases [where oc = oc and uuid = uuid])
      (use assms(3) id in \<open>auto simp: outcome_of_def split: if_splits\<close>)
qed

lemma contains_internal [simp]: "contains_asset internal_asset_list (ByValue a)"
  by (cases a) (simp_all add: contains_asset_iff internal_asset_list_def)

lemma add_order_response_status: "status (add_order_response reply) = 200 \<longleftrightarrow> reply_placed reply"
  by (auto simp: add_order_response_def reply_placed_def response_def internal_server_error_def
      split: option.splits Reply.splits result.splits TradingEngineError.splits)

lemma trade_add_order_law:
  fixes L :: Ledger and u :: Uuid and body :: TradeAddOrder
  assumes "funded us L u cur ua fa" and "cur = reserve_currency (ta_side body) asset" and "parse_asset name = Some asset"
    and "calculate_balance L (us u) cur = Ok b" and "uint (nz_get (ta_quantity body)) \<le> b"
    and "\<And>n. up n" and "0 \<le> next_id L" and "next_id L + 1 < 2 ^ 31"
  shows "\<exists>L' resp. trade_add_order up Before_txid us TeRunning True tx respond L u name body =
      (L', Some (Trade (CmdPlaceOrder (order_of_request asset u body) tx)), Ret resp) \<and>
    resp = add_order_response (respond (Trade (CmdPlaceOrder (order_of_request asset u body) tx))) \<and>
    (status resp = 200 \<longleftrightarrow> reply_placed (respond (Trade (CmdPlaceOrder (order_of_request asset u body) tx)))) \<and>
    (if status resp = 200 then calculate_balance L' (us u) cur = Ok (b - uint (nz_get (ta_quantity body)))
     else \<forall>i. balance_of L' i = balance_of L i)"
proof -
  from reserve_revert_law [OF assms(1,4,5), of up] assms(6-8) obtain L1 r L2 k where
    r: "reserve_by_asset up Before_txid us L u (ta_quantity body) cur = (L1, Ret (Ok r))"
      "calculate_balance L1 (us u) cur = Ok (b - uint (nz_get (ta_quantity body)))"
      "revert True Before_txid L1 r = (L2, Ok k)" "\<forall>i. balance_of L2 i = balance_of L i" by blast
  let ?cmd = "Trade (CmdPlaceOrder (order_of_request asset u body) tx)"
  have placed: "place_order up Before_txid us TeRunning True tx L asset u body = (L1, Some ?cmd, Ret (Ok (tx, r)))"
    using r(1) assms(2) by (simp add: place_order_def order_of_request_def Let_def)
  show ?thesis
  proof (cases "reply_placed (respond ?cmd)")
    case True
    then have "status (add_order_response (respond ?cmd)) = 200" by (simp add: add_order_response_status)
    with True r placed assms(3) show ?thesis
      by (simp add: trade_add_order_def guard_drop_def guard_cancel_def)
  next
    case False
    then have "status (add_order_response (respond ?cmd)) \<noteq> 200" by (simp add: add_order_response_status)
    with False r placed assms(3,6) show ?thesis
      by (simp add: trade_add_order_def guard_drop_def defer_guard_def defer_revert_def)
  qed
qed

text \<open>Both handlers' effects on the ledger are insertions.\<close>

context journal_writes begin

lemma place_order_keeps: "P L \<Longrightarrow> P (fst (place_order up sc us ts op tx L asset u body))"
  using reserve_keeps [of L up us u "ta_quantity body" "reserve_currency (ta_side body) asset"]
  by (auto simp: place_order_def revert_keeps Let_def split: prod.splits run.splits result.splits)

lemma trade_add_order_keeps: "P L \<Longrightarrow> P (fst (trade_add_order up sc us ts op tx resp L u name body))"
proof (cases "parse_asset name")
  case (Some a)
  assume "P L"
  from place_order_keeps [OF this, of up us ts op tx a u body] Some show ?thesis
    by (auto simp: trade_add_order_def guard_drop_def defer_revert_def Let_def revert_keeps
        split: prod.splits run.splits result.splits)
qed (simp add: trade_add_order_def)

end

definition sample_request :: TradeAddOrder where
  "sample_request = \<lparr>ta_side = Buy, ta_order_type = Limit, ta_quantity = nz 40, ta_price = nz 100,
     ta_time_in_force = GoodTilCanceled, ta_stp = DecreaseCancel\<rparr>"

lemma sample_request_facts:
  "''USD'' = reserve_currency (ta_side sample_request) Bitcoin" "parse_asset ''btc'' = Some Bitcoin"
  "uint (nz_get (ta_quantity sample_request)) \<le> 100" "0 \<le> next_id sample_ledger" "next_id sample_ledger + 1 < 2 ^ 31"
  by (simp_all add: sample_request_def reserve_currency_def parse_asset_def sample_ledger_def)

text \<open>An order request settles its reservation. For a funded user, on the schema before the \<open>txid\<close> column and with every
  query served, the request sends exactly one command, with the order as requested, and answers 200 exactly when
  the engine reports the order placed; then the user's balance has fallen by the quantity. In every other case
  the deferred revert has run and every account has the balance it had before.\<close>

lemma trade_add_order_settles:
  fixes L :: Ledger and u :: Uuid and body :: TradeAddOrder
  assumes "funded us L u cur ua fa" and "cur = reserve_currency (ta_side body) asset" and "parse_asset name = Some asset"
    and "calculate_balance L (us u) cur = Ok b" and "uint (nz_get (ta_quantity body)) \<le> b"
    and "\<And>n. up n" and "0 \<le> next_id L" and "next_id L + 1 < 2 ^ 31"
  shows "\<exists>L' resp. trade_add_order up Before_txid us TeRunning True tx respond L u name body =
      (L', Some (Trade (CmdPlaceOrder (order_of_request asset u body) tx)), Ret resp) \<and>
    resp = add_order_response (respond (Trade (CmdPlaceOrder (order_of_request asset u body) tx))) \<and>
    (status resp = 200 \<longleftrightarrow> reply_placed (respond (Trade (CmdPlaceOrder (order_of_request asset u body) tx)))) \<and>
    (if status resp = 200 then calculate_balance L' (us u) cur = Ok (b - uint (nz_get (ta_quantity body)))
     else \<forall>i. balance_of L' i = balance_of L i)"
  by (rule trade_add_order_law [OF assms])

lemma trade_add_order_settles_witness:
  "\<exists>L' resp cmd. trade_add_order (\<lambda>_. True) Before_txid sample_us TeRunning True 3 (\<lambda>_. None) sample_ledger 1 ''btc'' sample_request =
      (L', Some cmd, Ret resp) \<and> status resp \<noteq> 200 \<and> balance_of L' 3 = balance_of sample_ledger 3"
proof -
  have "\<not> reply_placed None" by (simp add: reply_placed_def)
  with trade_add_order_settles [OF sample_funded sample_request_facts(1,2) sample_balance sample_request_facts(3) _
      sample_request_facts(4,5), of "\<lambda>_. True" 3 "\<lambda>_. None"]
  show ?thesis by (auto split: if_splits)
qed

text \<open>C20: with the \<open>txid\<close> column of migration \<open>0007\<close> no order ever reaches the engine. Whatever the request, the state and
  the faults, no command is sent and the ledger is unchanged; the handler answers 404 or 500, or reaches the \<open>todo!\<close>
  in the conversion of a database error.\<close>

theorem no_order_with_txid_column:
  "\<exists>r. trade_add_order up With_txid us te_state open tx respond L u name body = (L, None, r) \<and>
     (r = Panic TodoReached \<or> (\<exists>resp. r = Ret resp \<and> status resp \<in> {404, 500}))"
proof (cases "parse_asset name")
  case None
  then show ?thesis by (simp add: trade_add_order_def response_def)
next
  case (Some asset)
  obtain e where e: "reserve_by_asset up With_txid us L u (ta_quantity body) (reserve_currency (ta_side body) asset) = (L, Ret (Err e))"
    using no_reserve_with_txid by blast
  from Some e show ?thesis
    by (cases e; cases "te_state = TeRunning")
      (simp_all add: trade_add_order_def place_order_def PlaceOrderError_from_ReserveError_def internal_server_error_def response_def)
qed

text \<open>The engine at the other end: the answer its next step sends on the channel.\<close>

definition engine_respond :: "bool \<Rightarrow> 'j codec \<Rightarrow> world \<Rightarrow> 'j Supervisor \<Rightarrow> nat \<Rightarrow> TradingEngineCmd \<Rightarrow> Reply option" where
  "engine_respond oc cd w st tx cmd =
     (case supervisor_step oc cd w cmd (st\<lparr>sent := []\<rparr>) of
        Ret (st', _) \<Rightarrow> TeResponse_wait (sent st') tx
      | Panic _ \<Rightarrow> None)"

text \<open>No cancel request is ever granted. Against an engine in any reachable state, running or
  suspended, the cancel handler never answers 200.\<close>

theorem cancel_request_never_succeeds:
  assumes "te_reach oc cd rows k st" and "k < 2 ^ 32"
  shows "status (snd (trade_cancel_order te_state open tx (engine_respond oc cd w st tx) u name order)) \<noteq> 200"
proof -
  have empty: "order_uuids (te_assets st) = Map.empty" using te_reach_inv [OF assms] by (simp add: te_inv_def)
  have "\<nexists>x. engine_respond oc cd w st tx (Trade (CmdCancelOrder co tx)) = Some (CancelReply (Ok x))" for co
    using cancel_empty [OF empty, of co]
    by (cases "running st") (auto simp: engine_respond_def supervisor_step.simps try_event_log_def TeResponse_wait_def split: option.splits)
  then show ?thesis
    by (auto simp: trade_cancel_order_def cancel_order_def response_def internal_server_error_def
        split: option.splits Reply.splits result.splits)
qed

theorem cancel_request_never_succeeds_witness:
  "status (snd (trade_cancel_order TeRunning True 3 (engine_respond True sample_codec (sample_world True) (supervisor_init []) 3)
     1 ''btc'' 5)) \<noteq> 200"
  by (rule cancel_request_never_succeeds [OF te_reach_init_running(1)]) simp

end
