(* ===== verification/Users.thy ===== *)
theory Users
  imports Web_Base
begin

text \<open>
  Users, sessions and addresses: the tables \<open>users\<close>, \<open>session_tokens\<close> and \<open>user_addresses\<close> with their
  constraints, the operations of \<open>app_cx.rs\<close> on them, the session check of
  \<open>web/middleware/auth.rs\<close> and the handlers for sessions, users and addresses. Password hashing, random
  tokens, the clock and bitcoind are parameters.
\<close>

section \<open>Tables\<close>

record UserRow =
  u_id :: Uuid
  u_name :: string
  u_email :: string
  u_password_hash :: string
  u_deleted :: bool
  u_role :: string

text \<open>Times are in seconds, as \<open>unix_timestamp\<close> gives them.\<close>

record SessionRow =
  s_token :: string
  s_created_at :: int
  s_max_age :: int
  s_user_id :: Uuid
  s_ip :: "string option"
  s_agent :: "string option"

record AddrRow =
  ad_text :: string
  ad_user :: Uuid
  ad_kind :: string
  ad_currency :: string

record UserDb =
  users :: "UserRow list"
  session_tokens :: "SessionRow list"
  user_addresses :: "AddrRow list"

definition user_ids :: "UserDb \<Rightarrow> Uuid set" where
  "user_ids db = u_id ` set (users db)"

definition insert_user :: "UserDb \<Rightarrow> UserRow \<Rightarrow> (UserDb, SqlError) result" where
  "insert_user db r =
     (if 255 < length (u_name r) \<or> 255 < length (u_email r) then Err ValueTooLong
      else if u_id r \<in> user_ids db \<or> u_email r \<in> u_email ` set (users db) then Err UniqueViolation
      else Ok (db\<lparr>users := users db @ [r]\<rparr>))"

definition insert_session :: "UserDb \<Rightarrow> SessionRow \<Rightarrow> (UserDb, SqlError) result" where
  "insert_session db r =
     (if (case s_ip r of Some ip \<Rightarrow> 45 < length ip | None \<Rightarrow> False) then Err ValueTooLong
      else if s_token r \<in> s_token ` set (session_tokens db) then Err UniqueViolation
      else if s_user_id r \<notin> user_ids db then Err ForeignKeyViolation
      else Ok (db\<lparr>session_tokens := session_tokens db @ [r]\<rparr>))"

definition insert_address :: "UserDb \<Rightarrow> AddrRow \<Rightarrow> (UserDb, SqlError) result" where
  "insert_address db r =
     (if ad_kind r \<notin> {''deposit'', ''withdrawal''} \<or> \<not> currency_code (ad_currency r) then Err CheckViolation
      else if (\<exists>x\<in>set (user_addresses db). ad_text x = ad_text r \<and> ad_user x = ad_user r \<and> ad_currency x = ad_currency r)
      then Err UniqueViolation
      else if ad_user r \<notin> user_ids db then Err ForeignKeyViolation
      else Ok (db\<lparr>user_addresses := user_addresses db @ [r]\<rparr>))"

section \<open>Operations of the application context\<close>

definition list_addrs :: "string \<Rightarrow> bool \<Rightarrow> UserDb \<Rightarrow> Uuid \<Rightarrow> ((string \<times> string) list, SqlError) result" where
  "list_addrs kind up db user_id =
     (if up then Ok (map (\<lambda>r. (ad_text r, ad_currency r))
        (filter (\<lambda>r. ad_user r = user_id \<and> ad_kind r = kind) (user_addresses db)))
      else Err ConnectionLost)"

definition list_withdrawal_addrs :: "bool \<Rightarrow> UserDb \<Rightarrow> Uuid \<Rightarrow> ((string \<times> string) list, SqlError) result" where
  "list_withdrawal_addrs = list_addrs ''withdrawal''"

definition list_deposit_addrs :: "bool \<Rightarrow> UserDb \<Rightarrow> Uuid \<Rightarrow> ((string \<times> string) list, SqlError) result" where
  "list_deposit_addrs = list_addrs ''deposit''"

datatype VerifyLoginDetailsError = Unauthorized | VerifyOther SqlError

text \<open>
  What the argon2 library does. \<open>verify_password\<close> is \<open>None\<close> when the blocking task does not finish (it panicked or was
  cancelled), else whether the password matches the hash; \<open>hash_password\<close> takes the password and the salt, which is drawn at random, and
  \<open>hash_task_ends\<close> tells whether the blocking task that hashes finishes.
\<close>

record 'h hasher =
  parse_hash :: "string \<Rightarrow> 'h option"
  verify_password :: "'h \<Rightarrow> string \<Rightarrow> bool option"
  hash_password :: "string \<Rightarrow> string \<Rightarrow> string option"
  salt :: string
  hash_task_ends :: bool

definition argon2_hash_password :: "'h hasher \<Rightarrow> string \<Rightarrow> string option" where
  "argon2_hash_password ha password = hash_password ha password (salt ha)"

definition verify_login_details ::
  "bool \<Rightarrow> 'h hasher \<Rightarrow> UserDb \<Rightarrow> string \<Rightarrow> string \<Rightarrow> (Uuid, VerifyLoginDetailsError) result run" where
  "verify_login_details up ha db email password =
     (if \<not> up then Ret (Err (VerifyOther ConnectionLost))
      else case find (\<lambda>r. u_email r = email) (users db) of
        None \<Rightarrow> Ret (Err Unauthorized)
      | Some rec \<Rightarrow>
          bind_run (expect ''called Result::unwrap on an Err value'' (parse_hash ha (u_password_hash rec))) (\<lambda>phs.
          let mismatch = (case verify_password ha phs password of Some ok \<Rightarrow> \<not> ok | None \<Rightarrow> False) in
          if mismatch then Ret (Err Unauthorized) else Ret (Ok (u_id rec))))"

text \<open>\<open>token\<close> is the hex encoding of the 32 random bytes, \<open>now\<close> the time of the insertion.\<close>

definition create_session ::
  "bool \<Rightarrow> string \<Rightarrow> int \<Rightarrow> UserDb \<Rightarrow> Uuid \<Rightarrow> string option \<Rightarrow> string option \<Rightarrow> UserDb \<times> (string, SqlError) result" where
  "create_session up token now db user_uuid ip agent =
     (if \<not> up then (db, Err ConnectionLost)
      else case insert_session db \<lparr>s_token = token, s_created_at = now, s_max_age = 3600, s_user_id = user_uuid,
             s_ip = ip, s_agent = agent\<rparr> of
        Err e \<Rightarrow> (db, Err e)
      | Ok db' \<Rightarrow> (db', Ok token))"

datatype CreateUserError = PasswordHashError | EmailUniqueViolation | CreateUserSqlx SqlError

definition create_user ::
  "bool \<Rightarrow> Uuid \<Rightarrow> UserDb \<Rightarrow> string \<Rightarrow> string \<Rightarrow> string \<Rightarrow> UserDb \<times> (Uuid, CreateUserError) result" where
  "create_user up new_id db name email password_hash =
     (if \<not> up then (db, Err (CreateUserSqlx ConnectionLost))
      else case insert_user db \<lparr>u_id = new_id, u_name = name, u_email = email, u_password_hash = password_hash,
             u_deleted = False, u_role = ''user''\<rparr> of
        Ok db' \<Rightarrow> (db', Ok new_id)
      | Err UniqueViolation \<Rightarrow> (db, Err EmailUniqueViolation)
      | Err e \<Rightarrow> (db, Err (CreateUserSqlx e)))"

record UserAccountDetails =
  amount :: string
  deposit_address :: "string option"
  withdrawal_addresses :: "AddrRow list"

fun fold_accounts :: "AddrRow list \<Rightarrow> (string \<rightharpoonup> UserAccountDetails) \<Rightarrow> (string \<rightharpoonup> UserAccountDetails)" where
  "fold_accounts [] acc = acc"
| "fold_accounts (rec # recs) acc =
     (let entry = (case acc (ad_currency rec) of
             Some e \<Rightarrow> e | None \<Rightarrow> \<lparr>amount = [], deposit_address = None, withdrawal_addresses = []\<rparr>);
          entry' = (if ad_kind rec = ''deposit'' then entry\<lparr>deposit_address := Some (ad_text rec)\<rparr>
                    else entry\<lparr>withdrawal_addresses := withdrawal_addresses entry @ [rec]\<rparr>) in
      fold_accounts recs (acc(ad_currency rec \<mapsto> entry')))"

record UserDetails =
  ud_id :: Uuid
  ud_name :: string
  ud_role :: string
  ud_accounts :: "string \<rightharpoonup> UserAccountDetails"
  ud_portfolio_value :: nat

datatype UserDetailsError = Sqlx SqlError

definition fetch_user_details :: "faults \<Rightarrow> UserDb \<Rightarrow> Uuid \<Rightarrow> (UserDetails, UserDetailsError) result" where
  "fetch_user_details up db user_id =
     (if \<not> (up 0 \<and> up 1 \<and> up 2) then Err (Sqlx ConnectionLost)
      else case find (\<lambda>r. u_id r = user_id) (users db) of
        None \<Rightarrow> Err (Sqlx RowNotFound)
      | Some rec \<Rightarrow>
          if \<not> (up 3 \<and> up 4) then Err (Sqlx ConnectionLost)
          else Ok \<lparr>ud_id = u_id rec, ud_name = u_name rec, ud_role = u_role rec,
                   ud_accounts = fold_accounts (filter (\<lambda>r. ad_user r = user_id) (user_addresses db)) Map.empty,
                   ud_portfolio_value = 0\<rparr>)"

section \<open>Session check\<close>

text \<open>\<open>cookie\<close> is the trimmed value of the cookie \<open>session-token\<close>, when the request has one.\<close>

definition try_validate_session :: "bool \<Rightarrow> int \<Rightarrow> string option \<Rightarrow> UserDb \<Rightarrow> (Uuid, nat \<times> string) result" where
  "try_validate_session up now cookie db =
     (case cookie of
        None \<Rightarrow> Err (401, ''Unauthorized: session-token cookie missing'')
      | Some session_token \<Rightarrow>
          if \<not> up then Err (500, ''Try again later'')
          else (case find (\<lambda>r. s_token r = session_token) (session_tokens db) of
             Some rec \<Rightarrow>
               if now \<ge> s_created_at rec + s_max_age rec
               then Err (401, ''Unauthorized: session-token has expired'')
               else Ok (s_user_id rec)
           | None \<Rightarrow> Err (401, ''Unauthorized: invalid session token'')))"

text \<open>The two middlewares, on whatever state \<open>st\<close> the request is served in; they do not change it themselves.\<close>

definition validate_session_token ::
  "bool \<Rightarrow> int \<Rightarrow> string option \<Rightarrow> UserDb \<Rightarrow> 's \<Rightarrow> (Uuid \<Rightarrow> 's \<times> Response run) \<Rightarrow> 's \<times> Response run" where
  "validate_session_token up now cookie db st run_next =
     (case try_validate_session up now cookie db of
        Ok user_uuid \<Rightarrow> run_next user_uuid
      | Err (code, msg) \<Rightarrow> (st, Ret (response code (Text msg))))"

definition validate_session_token_or_redirect ::
  "bool \<Rightarrow> int \<Rightarrow> string option \<Rightarrow> UserDb \<Rightarrow> 's \<Rightarrow> (Uuid \<Rightarrow> 's \<times> Response run) \<Rightarrow> 's \<times> Response run" where
  "validate_session_token_or_redirect up now cookie db st run_next =
     (case try_validate_session up now cookie db of
        Ok user_uuid \<Rightarrow> run_next user_uuid
      | Err (code, msg) \<Rightarrow>
          if code = 401 then (st, Ret \<lparr>status = 303, headers = [Header ''location'' ''/''], body_of = Empty\<rparr>)
          else (st, Ret (response code (Text msg))))"

section \<open>Handlers for sessions and users\<close>

definition session_cookie :: "string \<Rightarrow> Header" where
  "session_cookie token = SetCookie ''session-token'' token ''/'' 3600"

definition session_create ::
  "faults \<Rightarrow> 'h hasher \<Rightarrow> string \<Rightarrow> int \<Rightarrow> UserDb \<Rightarrow> string \<Rightarrow> string option \<Rightarrow> string \<Rightarrow> string \<Rightarrow> UserDb \<times> Response run" where
  "session_create up ha token now db ip_address user_agent email password =
     (case verify_login_details (up 0) ha db email password of
        Panic p \<Rightarrow> (db, Panic p)
      | Ret (Err Unauthorized) \<Rightarrow> (db, Ret (response 401 Empty))
      | Ret (Err (VerifyOther _)) \<Rightarrow> (db, Ret (response 500 Empty))
      | Ret (Ok user_uuid) \<Rightarrow>
          (case create_session (up 1) token now db user_uuid (Some ip_address) user_agent of
             (db', Err _) \<Rightarrow> (db', Ret (response 500 Empty))
           | (db', Ok session_token) \<Rightarrow>
               (db', Ret \<lparr>status = 201, headers = [session_cookie session_token, Header ''hx-redirect'' ''/c''],
                          body_of = Empty\<rparr>)))"

definition session_delete :: "bool \<Rightarrow> UserDb \<Rightarrow> string \<Rightarrow> UserDb \<times> Response" where
  "session_delete up db session_token =
     (if \<not> up then (db, response 500 Empty)
      else
        let db' = db\<lparr>session_tokens := filter (\<lambda>r. s_token r \<noteq> session_token) (session_tokens db)\<rparr> in
        case find (\<lambda>r. s_token r = session_token) (session_tokens db) of
          None \<Rightarrow> (db', response 404 Empty)
        | Some _ \<Rightarrow> (db', response 204 Empty))"

definition CreateUserError_into_response :: "CreateUserError \<Rightarrow> Response" where
  "CreateUserError_into_response e =
     (case e of
        PasswordHashError \<Rightarrow> response 500 Empty
      | EmailUniqueViolation \<Rightarrow> response 409 (Text ''email has already been used'')
      | CreateUserSqlx _ \<Rightarrow> response 500 Empty)"

text \<open>\<open>user_create::f\<close>: \<open>hx\<close> is the HTMX header, \<open>us\<close> the text form of an id.\<close>

definition user_create ::
  "faults \<Rightarrow> 'h hasher \<Rightarrow> (Uuid \<Rightarrow> string) \<Rightarrow> Uuid \<Rightarrow> string \<Rightarrow> int \<Rightarrow> bool \<Rightarrow> UserDb \<Rightarrow> string \<Rightarrow> string option \<Rightarrow>
   string \<Rightarrow> string \<Rightarrow> string \<Rightarrow> UserDb \<times> Response" where
  "user_create up ha us new_id token now hx db ip_address user_agent name email password =
     (case (if hash_task_ends ha then Some (argon2_hash_password ha password) else None) of
        None \<Rightarrow> (db, CreateUserError_into_response PasswordHashError)
      | Some None \<Rightarrow> (db, CreateUserError_into_response PasswordHashError)
      | Some (Some password_hash) \<Rightarrow>
          (case create_user (up 0) new_id db name email password_hash of
             (db', Err e) \<Rightarrow> (db', CreateUserError_into_response e)
           | (db', Ok user_uuid) \<Rightarrow>
               (case create_session (up 1) token now db' user_uuid (Some ip_address) user_agent of
                  (db'', Err e) \<Rightarrow> (db'', CreateUserError_into_response (CreateUserSqlx e))
                | (db'', Ok session_token) \<Rightarrow>
                    (db'', \<lparr>status = 200,
                       headers = (if hx then [session_cookie session_token, Header ''hx-redirect'' ''/''] else []),
                       body_of = UserIdJson (us user_uuid)\<rparr>))))"

text \<open>The row update of \<open>UPDATE users SET deleted_at = ... WHERE id = $1 AND deleted_at IS NULL\<close>.\<close>

definition mark_deleted :: "Uuid \<Rightarrow> UserRow \<Rightarrow> UserRow" where
  "mark_deleted i r = (if u_id r = i \<and> \<not> u_deleted r then r\<lparr>u_deleted := True\<rparr> else r)"

definition user_delete :: "bool \<Rightarrow> UserDb \<Rightarrow> Uuid \<Rightarrow> UserDb \<times> Response" where
  "user_delete up db i =
     (if \<not> up then (db, response 500 Empty)
      else if \<exists>r\<in>set (users db). u_id r = i \<and> \<not> u_deleted r
      then (db\<lparr>users := map (mark_deleted i) (users db)\<rparr>,
            response 200 (StatusJson ''deleted''))
      else (db, response 404 (Text ''user not found'')))"

definition user_get :: "bool \<Rightarrow> (Uuid \<Rightarrow> string) \<Rightarrow> UserDb \<Rightarrow> Uuid \<Rightarrow> Response" where
  "user_get up us db i =
     (if \<not> up then response 500 Empty
      else case find (\<lambda>r. u_id r = i) (users db) of
        Some user \<Rightarrow> response 200 (UserJson (us (u_id user)) (u_name user) (u_email user))
      | None \<Rightarrow> response 404 (Text ''user not found''))"

section \<open>Handlers for addresses\<close>

text \<open>A SQL error is answered with its text, \<open>sql_text\<close>.\<close>

datatype CreateWithdrawalAddressError = InvalidAsset | AlreadyExists | Sqlx SqlError

definition CreateWithdrawalAddressError_into_response :: "(SqlError \<Rightarrow> string) \<Rightarrow> CreateWithdrawalAddressError \<Rightarrow> Response" where
  "CreateWithdrawalAddressError_into_response sql_text e =
     (case e of
        InvalidAsset \<Rightarrow> response 400 (Text ''Invalid asset specified'')
      | Sqlx err \<Rightarrow> response 500 (Text (sql_text err))
      | AlreadyExists \<Rightarrow> response 409 (Text ''An address for this asset already exists''))"

definition withdraw_create_addr ::
  "faults \<Rightarrow> UserDb \<Rightarrow> Uuid \<Rightarrow> string \<Rightarrow> string \<Rightarrow> UserDb \<times> (Response, CreateWithdrawalAddressError) result run" where
  "withdraw_create_addr up db user_id asset_name address_text =
     (case parse_asset asset_name of
        None \<Rightarrow> (db, Ret (Err InvalidAsset))
      | Some asset \<Rightarrow>
          (case list_withdrawal_addrs (up 0) db user_id of
             Err e \<Rightarrow> (db, Ret (Err (Sqlx e)))
           | Ok addrs \<Rightarrow>
               if \<exists>(text, cur)\<in>set addrs. cur = asset_name \<and> text = address_text
               then (db, Ret (Err AlreadyExists))
               else if \<not> up 1 then (db, Panic (ExpectFailed ''called Result::unwrap on an Err value''))
               else
                 (case insert_address db \<lparr>ad_text = address_text, ad_user = user_id, ad_kind = ''withdrawal'',
                        ad_currency = Asset_to_string asset\<rparr> of
                    Err e \<Rightarrow> (db, Panic (ExpectFailed ''called Result::unwrap on an Err value''))
                  | Ok db' \<Rightarrow>
                      (db', Ret (Ok \<lparr>status = 200, headers = [Header ''hx-trigger'' ''updateWithdrawalAddrs''],
                                     body_of = Html (''<p>'' @ address_text @ ''</p>'')\<rparr>)))))"

datatype DeleteWithdrawalAddressError = InvalidAsset | AddressNotFound | Sqlx SqlError

definition DeleteWithdrawalAddressError_into_response :: "(SqlError \<Rightarrow> string) \<Rightarrow> DeleteWithdrawalAddressError \<Rightarrow> Response" where
  "DeleteWithdrawalAddressError_into_response sql_text e =
     (case e of
        InvalidAsset \<Rightarrow> response 400 (Text ''Invalid asset specified'')
      | Sqlx err \<Rightarrow> response 500 (Text (sql_text err))
      | AddressNotFound \<Rightarrow> response 404 (Text ''An address for this asset was not found''))"

text \<open>The loop of \<open>withdraw_delete_addr::f\<close> over the user's addresses: the first match decides.\<close>

fun withdraw_delete_loop ::
  "bool \<Rightarrow> UserDb \<Rightarrow> Uuid \<Rightarrow> string \<Rightarrow> string \<Rightarrow> (string \<times> string) list \<Rightarrow> UserDb \<times> (Response, DeleteWithdrawalAddressError) result" where
  "withdraw_delete_loop up db user_id asset_name address_text [] = (db, Err AddressNotFound)"
| "withdraw_delete_loop up db user_id asset_name address_text ((text, cur) # addrs) =
     (if text = address_text \<and> cur = asset_name
      then if \<not> up then (db, Err (Sqlx ConnectionLost))
           else (db\<lparr>user_addresses := filter (\<lambda>r. \<not> (ad_user r = user_id \<and> ad_text r = address_text)) (user_addresses db)\<rparr>,
                 Ok \<lparr>status = 200, headers = [Header ''hx-trigger'' ''updateWithdrawalAddrs''], body_of = Empty\<rparr>)
      else withdraw_delete_loop up db user_id asset_name address_text addrs)"

definition withdraw_delete_addr ::
  "faults \<Rightarrow> UserDb \<Rightarrow> Uuid \<Rightarrow> string \<Rightarrow> string \<Rightarrow> UserDb \<times> (Response, DeleteWithdrawalAddressError) result" where
  "withdraw_delete_addr up db user_id asset_name address_text =
     (case parse_asset asset_name of
        None \<Rightarrow> (db, Err InvalidAsset)
      | Some asset \<Rightarrow>
          (case list_withdrawal_addrs (up 0) db user_id of
             Err e \<Rightarrow> (db, Err (Sqlx e))
           | Ok addrs \<Rightarrow> withdraw_delete_loop (up 1) db user_id asset_name address_text addrs))"

datatype CreateDepositAddressError = InvalidAsset | AlreadyExists | Sqlx SqlError

definition CreateDepositAddressError_into_response :: "(SqlError \<Rightarrow> string) \<Rightarrow> CreateDepositAddressError \<Rightarrow> Response" where
  "CreateDepositAddressError_into_response sql_text e =
     (case e of
        InvalidAsset \<Rightarrow> response 400 (Text ''Invalid asset specified'')
      | Sqlx err \<Rightarrow> response 500 (Text (sql_text err))
      | AlreadyExists \<Rightarrow> response 409 (Text ''An address for this asset already exists''))"

text \<open>\<open>new_address\<close> is bitcoind's answer, whose failure is unwrapped.\<close>

definition deposit_create_addr ::
  "faults \<Rightarrow> string option \<Rightarrow> UserDb \<Rightarrow> Uuid \<Rightarrow> string \<Rightarrow> UserDb \<times> (Response, CreateDepositAddressError) result run" where
  "deposit_create_addr up new_address db user_id asset_name =
     (case parse_asset asset_name of
        None \<Rightarrow> (db, Ret (Err InvalidAsset))
      | Some asset \<Rightarrow>
          (case list_deposit_addrs (up 0) db user_id of
             Err e \<Rightarrow> (db, Ret (Err (Sqlx e)))
           | Ok addrs \<Rightarrow>
               if \<exists>(_, cur)\<in>set addrs. cur = asset_name then (db, Ret (Err AlreadyExists))
               else
                 (case asset of
                    Ether \<Rightarrow> (db, Panic TodoReached)
                  | Bitcoin \<Rightarrow>
                      (case new_address of
                         None \<Rightarrow> (db, Panic (ExpectFailed ''called Result::unwrap on an Err value''))
                       | Some address_text \<Rightarrow>
                           if \<not> up 1 then (db, Panic (ExpectFailed ''called Result::unwrap on an Err value''))
                           else
                             (case insert_address db \<lparr>ad_text = address_text, ad_user = user_id, ad_kind = ''deposit'',
                                    ad_currency = Asset_to_string asset\<rparr> of
                                Err e \<Rightarrow> (db, Panic (ExpectFailed ''called Result::unwrap on an Err value''))
                              | Ok db' \<Rightarrow> (db', Ret (Ok (response 200 (Html (''<p>'' @ address_text @ ''</p>''))))))))))"

definition deposit_list_addrs :: "bool \<Rightarrow> UserDb \<Rightarrow> Uuid \<Rightarrow> Response" where
  "deposit_list_addrs up db user_id =
     (case list_deposit_addrs up db user_id of
        Ok v_rec \<Rightarrow> response 200 (AddrsJson v_rec)
      | Err _ \<Rightarrow> response 500 Empty)"

definition withdraw_list_addrs :: "bool \<Rightarrow> UserDb \<Rightarrow> Uuid \<Rightarrow> Response" where
  "withdraw_list_addrs up db user_id =
     (case list_deposit_addrs up db user_id of
        Ok v_rec \<Rightarrow> response 200 (AddrsJson v_rec)
      | Err _ \<Rightarrow> response 500 Empty)"

text \<open>\<open>withdraw_transfer\<close>, which no route reaches: after the address check both branches are \<open>todo!\<close>.\<close>

definition withdraw_transfer :: "bool \<Rightarrow> UserDb \<Rightarrow> Uuid \<Rightarrow> string \<Rightarrow> string \<Rightarrow> Response run" where
  "withdraw_transfer up db user_id currency address =
     (if \<not> up then Ret (response 500 Empty)
      else case find (\<lambda>r. ad_user r = user_id \<and> ad_kind r = ''withdrawal'' \<and> ad_currency r = currency \<and> ad_text r = address)
             (user_addresses db) of
        None \<Rightarrow> Ret (response 404 Empty)
      | Some _ \<Rightarrow> Panic TodoReached)"

section \<open>The invariant of the tables\<close>

definition addr_key :: "AddrRow \<Rightarrow> string \<times> Uuid \<times> string" where
  "addr_key r = (ad_text r, ad_user r, ad_currency r)"

definition db_wf :: "UserDb \<Rightarrow> bool" where
  "db_wf db \<longleftrightarrow>
     distinct (map u_id (users db)) \<and> distinct (map u_email (users db)) \<and>
     distinct (map s_token (session_tokens db)) \<and> (\<forall>r\<in>set (session_tokens db). s_user_id r \<in> user_ids db) \<and>
     distinct (map addr_key (user_addresses db)) \<and> 
     (\<forall>r\<in>set (user_addresses db). ad_user r \<in> user_ids db \<and> ad_kind r \<in> {''deposit'', ''withdrawal''} \<and> currency_code (ad_currency r))"

lemma user_ids_simps [simp]:
  "user_ids (db\<lparr>session_tokens := x\<rparr>) = user_ids db" "user_ids (db\<lparr>user_addresses := y\<rparr>) = user_ids db"
  "user_ids (db\<lparr>users := users db @ [r]\<rparr>) = insert (u_id r) (user_ids db)"
  by (auto simp: user_ids_def)

lemma insert_user_wf: "db_wf db \<Longrightarrow> insert_user db r = Ok db' \<Longrightarrow> db_wf db'"
  by (auto simp: insert_user_def db_wf_def split: if_splits) (auto simp: user_ids_def)

lemma insert_session_wf: "db_wf db \<Longrightarrow> insert_session db r = Ok db' \<Longrightarrow> db_wf db'"
  by (auto simp: insert_session_def db_wf_def split: if_splits)

lemma insert_address_wf: "db_wf db \<Longrightarrow> insert_address db r = Ok db' \<Longrightarrow> db_wf db'"
  by (auto simp: insert_address_def db_wf_def addr_key_def split: if_splits) blast+

lemma create_user_wf: "db_wf db \<Longrightarrow> db_wf (fst (create_user up i db name email h))"
  by (auto simp: create_user_def intro: insert_user_wf split: result.splits SqlError.splits)

lemma create_session_wf: "db_wf db \<Longrightarrow> db_wf (fst (create_session up tok now db u ip ag))"
  by (auto simp: create_session_def intro: insert_session_wf split: result.splits)

lemma session_create_wf:
  assumes "db_wf db"
  shows "db_wf (fst (session_create up ha tok now db ip ag email pw))"
proof (cases "verify_login_details (up 0) ha db email pw")
  case (Ret r)
  show ?thesis
  proof (cases r)
    case (Ok u)
    with Ret create_session_wf [OF assms, of "up 1" tok now u "Some ip" ag] show ?thesis
      by (auto simp: session_create_def split: prod.splits result.splits)
  qed (use Ret assms in \<open>auto simp: session_create_def split: VerifyLoginDetailsError.splits\<close>)
qed (use assms in \<open>simp add: session_create_def\<close>)

lemma distinct_map_filter: "distinct (map f xs) \<Longrightarrow> distinct (map f (filter P xs))"
  by (induction xs) auto

lemma session_delete_wf: "db_wf db \<Longrightarrow> db_wf (fst (session_delete up db tok))"
  by (auto simp: session_delete_def db_wf_def distinct_map_filter Let_def split: option.splits)

lemma user_create_wf:
  assumes "db_wf db"
  shows "db_wf (fst (user_create up ha us i tok now hx db ip ag name email pw))"
proof -
  have d1: "db_wf db1" if "create_user (up 0) i db name email h = (db1, r)" for h db1 r
    using create_user_wf [OF assms, of "up 0" i name email h] that by simp
  have d2: "db_wf db2" if "db_wf db1" "create_session (up 1) tok now db1 u (Some ip) ag = (db2, r)" for db1 db2 u r
    using create_session_wf [OF that(1), of "up 1" tok now u "Some ip" ag] that(2) by simp
  show ?thesis
    using assms by (auto simp: user_create_def intro: d1 d2 [OF d1] split: option.splits prod.splits result.splits)
qed

lemma mark_deleted_simps [simp]:
  "u_id (mark_deleted i r) = u_id r" "u_email (mark_deleted i r) = u_email r"
  "u_password_hash (mark_deleted i r) = u_password_hash r"
  "u_id \<circ> mark_deleted i = u_id" "u_email \<circ> mark_deleted i = u_email"
  by (auto simp: mark_deleted_def fun_eq_iff)

lemma user_delete_wf: "db_wf db \<Longrightarrow> db_wf (fst (user_delete up db i))"
  by (auto simp: user_delete_def db_wf_def user_ids_def image_image)

lemma withdraw_create_wf: "db_wf db \<Longrightarrow> db_wf (fst (withdraw_create_addr up db u name text))"
  by (auto simp: withdraw_create_addr_def intro: insert_address_wf split: option.splits result.splits)

lemma deposit_create_wf: "db_wf db \<Longrightarrow> db_wf (fst (deposit_create_addr up new db u name))"
  by (auto simp: deposit_create_addr_def intro: insert_address_wf split: option.splits result.splits Asset.splits)

lemma withdraw_delete_wf:
  assumes "db_wf db"
  shows "db_wf (fst (withdraw_delete_addr up db u name text))"
proof -
  have "db_wf (db\<lparr>user_addresses := filter P (user_addresses db)\<rparr>)" for P
    using assms by (auto simp: db_wf_def distinct_map_filter)
  then have "db_wf (fst (withdraw_delete_loop b db u name text addrs))" for b addrs
    using assms by (induction addrs) auto
  with assms show ?thesis by (auto simp: withdraw_delete_addr_def split: option.splits result.splits)
qed

text \<open>One request to any handler that writes.\<close>

inductive user_step :: "'h hasher \<Rightarrow> UserDb \<Rightarrow> UserDb \<Rightarrow> bool" for ha where
  step_session_create: "user_step ha db (fst (session_create up ha tok now db ip ag email pw))"
| step_session_delete: "user_step ha db (fst (session_delete b db tok))"
| step_user_create: "user_step ha db (fst (user_create up ha us i tok now hx db ip ag name email pw))"
| step_user_delete: "user_step ha db (fst (user_delete b db i))"
| step_withdraw_create: "user_step ha db (fst (withdraw_create_addr up db u name text))"
| step_withdraw_delete: "user_step ha db (fst (withdraw_delete_addr up db u name text))"
| step_deposit_create: "user_step ha db (fst (deposit_create_addr up new db u name))"

lemmas user_step_wfs = session_create_wf session_delete_wf user_create_wf user_delete_wf withdraw_create_wf
  withdraw_delete_wf deposit_create_wf

interpretation tables: counted_system "user_step ha" "\<lambda>_. db_wf" n for ha n
  by unfold_locales (auto elim!: user_step.cases simp: user_step_wfs)

text \<open>A concrete hasher, which stores the password as it is, and a table with one user.\<close>

definition sample_hasher :: "string hasher" where
  "sample_hasher = \<lparr>parse_hash = Some, verify_password = (\<lambda>h p. Some (h = p)), hash_password = (\<lambda>p _. Some p), salt = [],
     hash_task_ends = True\<rparr>"

definition no_users :: UserDb where
  "no_users = \<lparr>users = [], session_tokens = [], user_addresses = []\<rparr>"

definition sample_users :: UserDb where
  "sample_users = fst (create_user True 1 no_users ''ann'' ''ann@x'' ''pw'')"

lemma sample_users_created: "create_user True 1 no_users ''ann'' ''ann@x'' ''pw'' = (sample_users, Ok 1)"
  by (simp add: sample_users_def create_user_def insert_user_def no_users_def user_ids_def)

lemma no_users_wf: "db_wf no_users"
  by (simp add: db_wf_def no_users_def)

lemma sample_users_wf: "db_wf sample_users"
  unfolding sample_users_def by (rule create_user_wf [OF no_users_wf])

lemma sample_users_eq: "sample_users = no_users\<lparr>users := [\<lparr>u_id = 1, u_name = ''ann'', u_email = ''ann@x'',
    u_password_hash = ''pw'', u_deleted = False, u_role = ''user''\<rparr>]\<rparr>"
  by (simp add: sample_users_def create_user_def insert_user_def no_users_def user_ids_def)

section \<open>Properties\<close>

text \<open>Whatever sequence of requests the handlers serve, with whatever faults, the tables keep their integrity: ids,
  emails and session tokens are unique, sessions and addresses belong to existing users, an address is stored at
  most once per user and currency, and its kind and currency code are valid.\<close>

theorem user_tables_invariant:
  assumes "(user_step ha)\<^sup>*\<^sup>* no_users db"
  shows "db_wf db"
proof -
  from assms obtain n where "(user_step ha ^^ n) no_users db" by (auto simp: rtranclp_power)
  from tables.inv_run [OF this, of 0 n] no_users_wf show ?thesis by simp
qed

theorem user_tables_invariant_witness:
  "db_wf (fst (user_create (\<lambda>_. True) sample_hasher (\<lambda>_. ''id'') 1 ''tok'' 0 False no_users ''ip'' None ''ann'' ''ann@x'' ''pw''))"
  by (rule user_tables_invariant [of sample_hasher]) (rule r_into_rtranclp, rule step_user_create)

text \<open>C37: a session lives for an hour. A token that was created validates as its user up to 3599 seconds later and is refused
  as expired from then on; after \<open>session_delete\<close> it is refused as invalid; and creating it leaves every other
  token's validation as it was.\<close>

theorem session_lifecycle:
  assumes "create_session True tok now db u ip ag = (db', Ok tok)"
  shows "(\<forall>t. try_validate_session True t (Some tok) db' =
      (if t < now + 3600 then Ok u else Err (401, ''Unauthorized: session-token has expired''))) \<and>
    (\<forall>t. try_validate_session True t (Some tok) (fst (session_delete True db' tok)) =
      Err (401, ''Unauthorized: invalid session token'')) \<and>
    (\<forall>up t tok'. tok' \<noteq> tok \<longrightarrow> try_validate_session up t (Some tok') db' = try_validate_session up t (Some tok') db)"
proof -
  let ?r = "\<lparr>s_token = tok, s_created_at = now, s_max_age = 3600, s_user_id = u, s_ip = ip, s_agent = ag\<rparr>"
  from assms have new: "tok \<notin> s_token ` set (session_tokens db)"
    and db': "db' = db\<lparr>session_tokens := session_tokens db @ [?r]\<rparr>"
    by (auto simp: create_session_def insert_session_def split: result.splits if_splits)
  have "find (\<lambda>r. s_token r = tok) (xs @ [?r]) = Some ?r" if "tok \<notin> s_token ` set xs" for xs
    using that by (induction xs) auto
  with new have found: "find (\<lambda>r. s_token r = tok) (session_tokens db') = Some ?r" by (simp add: db')
  have other: "find (\<lambda>r. s_token r = tok') (xs @ [?r]) = find (\<lambda>r. s_token r = tok') xs" if "tok' \<noteq> tok" for tok' xs
    using that by (induction xs) auto
  have "find (\<lambda>r. s_token r = tok) (filter (\<lambda>r. s_token r \<noteq> tok) xs) = None" for xs :: "SessionRow list"
    by (induction xs) auto
  then have gone: "find (\<lambda>r. s_token r = tok) (session_tokens (fst (session_delete True db' tok))) = None"
    by (simp add: session_delete_def Let_def found)
  have frame: "find (\<lambda>r. s_token r = tok') (session_tokens db') = find (\<lambda>r. s_token r = tok') (session_tokens db)"
    if "tok' \<noteq> tok" for tok' using other [OF that] by (simp add: db')
  show ?thesis by (auto simp: try_validate_session_def found gone frame)
qed

theorem session_lifecycle_witness:
  "\<exists>db'. create_session True ''tok'' 100 sample_users 1 None None = (db', Ok ''tok'') \<and>
     try_validate_session True 200 (Some ''tok'') db' = Ok 1"
proof -
  obtain db' where run: "create_session True ''tok'' 100 sample_users 1 None None = (db', Ok ''tok'')"
    by (simp add: create_session_def insert_session_def sample_users_eq no_users_def user_ids_def)
  from session_lifecycle [OF run] have "\<forall>t. try_validate_session True t (Some ''tok'') db' =
      (if t < 100 + 3600 then Ok 1 else Err (401, ''Unauthorized: session-token has expired''))" by blast
  from this [rule_format, of 200] run show ?thesis by auto
qed

text \<open>Deleting a user revokes nothing. Whether an email and password log in, and whether a session token
  validates, is the same before and after the user is marked deleted.\<close>

lemma user_delete_keeps_access:
  "verify_login_details up ha (fst (user_delete b db i)) email pw = verify_login_details up ha db email pw \<and>
   try_validate_session up t cookie (fst (user_delete b db i)) = try_validate_session up t cookie db"
proof -
  have "find P (map (mark_deleted i) xs) = map_option (mark_deleted i) (find P xs)"
    if "\<And>r. P (mark_deleted i r) = P r" for P xs using that by (induction xs) auto
  then have "find (\<lambda>r. u_email r = email) (map (mark_deleted i) (users db)) =
      map_option (mark_deleted i) (find (\<lambda>r. u_email r = email) (users db))" by simp
  then show ?thesis
    by (auto simp: user_delete_def verify_login_details_def try_validate_session_def split: option.splits cong: if_cong)
qed

text \<open>C38: signing up makes exactly the right password log in, with one exception. After a successful sign-up the
  email is taken, and a login is refused exactly when the verification task reports a mismatch; a task that does not finish
  counts as a match.\<close>

theorem login_after_sign_up:
  assumes "create_user True i db name email h = (db', Ok i)" and "parse_hash ha h = Some phs"
  shows "verify_login_details True ha db' email pw =
      Ret (if verify_password ha phs pw = Some False then Err Unauthorized else Ok i) \<and>
    create_user True j db' name' email h' = (if 255 < length name' then (db', Err (CreateUserSqlx ValueTooLong)) else (db', Err EmailUniqueViolation))"
proof -
  let ?r = "\<lparr>u_id = i, u_name = name, u_email = email, u_password_hash = h, u_deleted = False, u_role = ''user''\<rparr>"
  from assms(1) have new: "email \<notin> u_email ` set (users db)" and len: "length email \<le> 255"
    and db': "db' = db\<lparr>users := users db @ [?r]\<rparr>"
    by (auto simp: create_user_def insert_user_def split: if_splits)
  have "find (\<lambda>r. u_email r = email) (xs @ [?r]) = Some ?r" if "email \<notin> u_email ` set xs" for xs
    using that by (induction xs) auto
  with new have found: "find (\<lambda>r. u_email r = email) (users db') = Some ?r" by (simp add: db')
  have "verify_login_details True ha db' email pw =
      Ret (if verify_password ha phs pw = Some False then Err Unauthorized else Ok i)"
    using assms(2) by (auto simp: verify_login_details_def found Let_def split: option.splits)
  moreover have "create_user True j db' name' email h' =
      (if 255 < length name' then (db', Err (CreateUserSqlx ValueTooLong)) else (db', Err EmailUniqueViolation))"
    using len by (simp add: create_user_def insert_user_def db')
  ultimately show ?thesis by simp
qed

theorem login_after_sign_up_witness:
  "verify_login_details True sample_hasher sample_users ''ann@x'' ''pw'' = Ret (Ok 1) \<and>
   verify_login_details True sample_hasher sample_users ''ann@x'' ''no'' = Ret (Err Unauthorized)"
  using login_after_sign_up [OF sample_users_created, of sample_hasher "''pw''" "''pw''"]
    login_after_sign_up [OF sample_users_created, of sample_hasher "''pw''" "''no''"]
  by (simp add: sample_hasher_def)

lemma addr_rows:
  assumes "withdraw_create_addr up db u name a = (db', Ret (Ok r))" and "parse_asset name = Some asset"
  shows "db' = db\<lparr>user_addresses := user_addresses db @
    [\<lparr>ad_text = a, ad_user = u, ad_kind = ''withdrawal'', ad_currency = Asset_to_string asset\<rparr>]\<rparr>" and "up 0" and "up 1"
  using assms
  by (auto simp: withdraw_create_addr_def insert_address_def list_withdrawal_addrs_def list_addrs_def
      split: result.splits if_splits)

lemma delete_loop_found:
  "(a, name) \<in> set addrs \<Longrightarrow> fst (withdraw_delete_loop True db u name a addrs) =
     db\<lparr>user_addresses := filter (\<lambda>r. \<not> (ad_user r = u \<and> ad_text r = a)) (user_addresses db)\<rparr>"
  by (induction addrs) auto

lemma delete_loop_missing:
  "(a, name) \<notin> set addrs \<Longrightarrow> withdraw_delete_loop b db u name a addrs = (db, Err AddressNotFound)"
  by (induction addrs) (auto split: if_splits)

text \<open>The address handlers compare the stored upper-case currency with the name as typed. After a bitcoin withdrawal
  address was added under either spelling, adding it again as \<open>BTC\<close> is refused as a duplicate but as \<open>btc\<close> panics on the
  unique constraint; deleting it as \<open>btc\<close> reports that it does not exist and changes nothing, while deleting it as
  \<open>BTC\<close> removes every row of the user with that text, deposits and other currencies included.\<close>

lemma withdrawal_address_case_sensitive:
  assumes "db_wf db" and "withdraw_create_addr up db u name a = (db', Ret (Ok r))" and "parse_asset name = Some Bitcoin"
  shows "withdraw_create_addr up db' u ''BTC'' a = (db', Ret (Err CreateWithdrawalAddressError.AlreadyExists)) \<and>
    withdraw_create_addr up db' u ''btc'' a = (db', Panic (ExpectFailed ''called Result::unwrap on an Err value'')) \<and>
    withdraw_delete_addr up db' u ''btc'' a = (db', Err AddressNotFound) \<and>
    user_addresses (fst (withdraw_delete_addr up db' u ''BTC'' a)) =
      filter (\<lambda>x. \<not> (ad_user x = u \<and> ad_text x = a)) (user_addresses db')"
proof -
  let ?row = "\<lparr>ad_text = a, ad_user = u, ad_kind = ''withdrawal'', ad_currency = ''BTC''\<rparr>"
  have up: "up 0" "up 1" and db': "db' = db\<lparr>user_addresses := user_addresses db @ [?row]\<rparr>"
    using addr_rows [OF assms(2,3)] by simp_all
  have "db_wf db'" using withdraw_create_wf [OF assms(1), of up u name a] assms(2) by simp
  moreover have "\<not> currency_code ''btc''" by (simp add: currency_code_def less_eq_char_def)
  ultimately have lower: "ad_currency x \<noteq> ''btc''" if "x \<in> set (user_addresses db')" for x
    using that by (auto simp: db_wf_def)
  obtain addrs where addrs: "list_withdrawal_addrs True db' u = Ok addrs" "(a, ''BTC'') \<in> set addrs"
      "\<forall>(t, c)\<in>set addrs. c \<noteq> ''btc''"
    using lower by (auto simp: list_withdrawal_addrs_def list_addrs_def db')
  have dup: "insert_address db' ?row = Err UniqueViolation"
    using assms(2,3) by (auto simp: insert_address_def db' currency_code_def less_eq_char_def
        withdraw_create_addr_def split: result.splits if_splits)
  have names: "parse_asset ''BTC'' = Some Bitcoin" "parse_asset ''btc'' = Some Bitcoin" by (simp_all add: parse_asset_def)
  have "withdraw_create_addr up db' u ''BTC'' a = (db', Ret (Err CreateWithdrawalAddressError.AlreadyExists))"
    using addrs up by (auto simp: withdraw_create_addr_def names)
  moreover have "withdraw_create_addr up db' u ''btc'' a = (db', Panic (ExpectFailed ''called Result::unwrap on an Err value''))"
    using addrs up dup by (auto simp: withdraw_create_addr_def names)
  moreover have "withdraw_delete_addr up db' u ''btc'' a = (db', Err AddressNotFound)"
    using addrs up by (auto simp: withdraw_delete_addr_def names intro!: delete_loop_missing)
  moreover have "user_addresses (fst (withdraw_delete_addr up db' u ''BTC'' a)) =
      filter (\<lambda>x. \<not> (ad_user x = u \<and> ad_text x = a)) (user_addresses db')"
    using addrs(1) up delete_loop_found [OF addrs(2), of db' u] by (simp add: withdraw_delete_addr_def names)
  ultimately show ?thesis by simp
qed

lemma withdrawal_address_case_sensitive_witness:
  "\<exists>db' r. withdraw_create_addr (\<lambda>_. True) sample_users 1 ''btc'' ''addr'' = (db', Ret (Ok r)) \<and>
     withdraw_delete_addr (\<lambda>_. True) db' 1 ''btc'' ''addr'' = (db', Err AddressNotFound)"
proof -
  obtain db' r where run: "withdraw_create_addr (\<lambda>_. True) sample_users 1 ''btc'' ''addr'' = (db', Ret (Ok r))"
    using currency_code_assets(1) [of Bitcoin]
    by (simp add: withdraw_create_addr_def list_withdrawal_addrs_def list_addrs_def parse_asset_def insert_address_def
        sample_users_eq no_users_def user_ids_def)
  have "parse_asset ''btc'' = Some Bitcoin" by (simp add: parse_asset_def)
  from withdrawal_address_case_sensitive [OF sample_users_wf run this] run show ?thesis by blast
qed

end
