(* ===== verification/Pages.thy ===== *)
theory Pages
  imports Accounting Users
begin

text \<open>
  The read-only handlers: the balance fragment (\<open>web/user_balance.rs\<close>), the two pages (\<open>web/html_home.rs\<close>,
  \<open>web/html_index.rs\<close>), the clock, the stubs, and the client address that the session handlers record
  (\<open>web/middleware/mod.rs\<close>). Rendering a template is the parameter \<open>render\<close>.
\<close>

section \<open>The client's address\<close>

text \<open>\<open>str::split\<close> on a character: the pieces between its occurrences, at least one.\<close>

fun split_on :: "char \<Rightarrow> string \<Rightarrow> string list" where
  "split_on c [] = [[]]"
| "split_on c (x # xs) =
     (if x = c then [] # split_on c xs
      else (case split_on c xs of [] \<Rightarrow> [[x]] | p # ps \<Rightarrow> (x # p) # ps))"

text \<open>\<open>HeaderValue::to_str\<close> accepts visible ASCII, space and tab.\<close>

definition to_str :: "string \<Rightarrow> string option" where
  "to_str v = (if \<forall>c\<in>set v. c = CHR 0x09 \<or> (CHR '' '' \<le> c \<and> c \<le> CHR ''~'') then Some v else None)"

text \<open>\<open>values\<close> are the values of the header \<open>X-Forwarded-For\<close>, one for each occurrence; \<open>parse_ip\<close> is the
  library's parser of addresses.\<close>

definition rightmost_ip_address :: "(string \<Rightarrow> 'ip option) \<Rightarrow> string list \<Rightarrow> 'ip option" where
  "rightmost_ip_address parse_ip values =
     (if values = [] then None
      else Option.bind (to_str (last values)) (\<lambda>v. parse_ip (last (split_on CHR '','' v))))"

section \<open>Balances\<close>

text \<open>\<open>to_ascii_uppercase\<close>.\<close>

definition ascii_upper :: "char \<Rightarrow> char" where
  "ascii_upper c = (if CHR ''a'' \<le> c \<and> c \<le> CHR ''z'' then char_of (of_char c - 32 :: nat) else c)"

text \<open>
  \<open>user_balance::f\<close>. \<open>iter\<close> is the order in which the hash map of balances yields its entries. The deposit pass and the
  queries that follow number their queries separately: \<open>up\<close> serves the first, \<open>up'\<close> the others.
\<close>

definition user_balance_handler ::
  "faults \<Rightarrow> faults \<Rightarrow> Schema \<Rightarrow> (Uuid \<Rightarrow> string) \<Rightarrow> ((string \<rightharpoonup> int) \<Rightarrow> (string \<times> int) list) \<Rightarrow> BtcTx list option \<Rightarrow> Ledger \<Rightarrow>
   Uuid \<Rightarrow> string \<Rightarrow> Uuid \<Rightarrow> Ledger \<times> Response run" where
  "user_balance_handler up up' sc us iter listed L target_user_id currency user_id =
     (if target_user_id \<noteq> user_id then (L, Ret (response 403 Empty))
      else if currency \<noteq> ''*'' \<and> length currency \<noteq> 3 then (L, Ret (response 400 Empty))
      else
        (case update_user_accounts up sc us listed L user_id of
           (L', Panic p) \<Rightarrow> (L', Panic p)
         | (L', Ret _) \<Rightarrow>
             (L', Ret (
                if currency = ''*'' then
                  (case user_balance up' us L' user_id of
                     Err _ \<Rightarrow> response 500 Empty
                   | Ok details \<Rightarrow> response 200 (BalanceHtml (iter details)))
                else
                  (let cur = map ascii_upper currency in
                   case calculate_balance_from_accounting (up' 0) us L' user_id cur of
                     Err _ \<Rightarrow> response 500 Empty
                   | Ok t \<Rightarrow> response 200 (BalanceHtml [(cur, case t of None \<Rightarrow> 0 | Some b \<Rightarrow> uint b)]))))))"

context journal_writes begin

lemma balance_handler_keeps: "P L \<Longrightarrow> P (fst (user_balance_handler up up' sc us iter listed L target cur u))"
  using update_user_accounts_keeps [of L up us listed u]
  by (auto simp: user_balance_handler_def split: prod.splits run.splits)

end

section \<open>Pages\<close>

definition default_active_tab :: string where
  "default_active_tab = ''home''"

definition home_template :: "string \<Rightarrow> string" where
  "home_template tab =
     (if tab = ''explore'' then ''consumer/explore.html.jinja''
      else if tab = ''portfolio'' then ''consumer/portfolio.html.jinja''
      else if tab = ''transactions'' then ''consumer/transactions.html.jinja''
      else if tab = ''deposit'' then ''consumer/deposit.html.jinja''
      else if tab = ''withdraw'' then ''consumer/withdraw.html.jinja''
      else if tab = ''transfer'' then ''consumer/transfer.html.jinja''
      else ''consumer/home.html.jinja'')"

text \<open>The context of a template: the fields a page passes.\<close>

record page_context =
  cx_user :: "UserDetails option"
  cx_active_tab :: "string option"
  cx_asset_list :: "string list option"
  cx_logged_in :: "bool option"

text \<open>\<open>render name context\<close> is \<open>None\<close> when the template is missing or does not render.\<close>

datatype HomeRouteError = JinjaError | Sqlx SqlError | UserDetailsError UserDetailsError

definition HomeRouteError_into_response :: "HomeRouteError \<Rightarrow> Response" where
  "HomeRouteError_into_response e = response 500 Empty"

definition html_home ::
  "faults \<Rightarrow> (string \<Rightarrow> page_context \<Rightarrow> string option) \<Rightarrow> UserDb \<Rightarrow> Uuid \<Rightarrow> string option \<Rightarrow> (string, HomeRouteError) result" where
  "html_home up render db user_id t =
     (let tab = (case t of None \<Rightarrow> default_active_tab | Some tab \<Rightarrow> tab) in
      case fetch_user_details up db user_id of
        Err e \<Rightarrow> Err (UserDetailsError e)
      | Ok user \<Rightarrow>
          let cx = \<lparr>cx_user = Some user, cx_active_tab = Some tab,
                    cx_asset_list = (if tab = ''explore'' then Some [''BTC'', ''BTC''] else None), cx_logged_in = None\<rparr> in
          (case render (home_template tab) cx of
             None \<Rightarrow> Err JinjaError
           | Some html \<Rightarrow> Ok html))"

datatype IndexRouteError = JinjaError | Sqlx SqlError

definition IndexRouteError_into_response :: "IndexRouteError \<Rightarrow> Response" where
  "IndexRouteError_into_response e =
     (case e of JinjaError \<Rightarrow> response 500 Empty | Sqlx _ \<Rightarrow> response 500 Empty)"

definition html_index ::
  "bool \<Rightarrow> int \<Rightarrow> string option \<Rightarrow> (string \<Rightarrow> page_context \<Rightarrow> string option) \<Rightarrow> UserDb \<Rightarrow> (string, IndexRouteError) result" where
  "html_index up now cookie render db =
     (let user_uuid = (case try_validate_session up now cookie db of Ok u \<Rightarrow> Some u | Err _ \<Rightarrow> None);
          cx = \<lparr>cx_user = None, cx_active_tab = None, cx_asset_list = None, cx_logged_in = Some (user_uuid \<noteq> None)\<rparr> in
      case render ''front-page.html.jinja'' cx of
        None \<Rightarrow> Err JinjaError
      | Some html \<Rightarrow> Ok html)"

text \<open>What axum makes of the result of a page handler.\<close>

definition page_reply :: "('e \<Rightarrow> Response) \<Rightarrow> (string, 'e) result \<Rightarrow> Response" where
  "page_reply into_response r = (case r of Ok html \<Rightarrow> response 200 (Html html) | Err e \<Rightarrow> into_response e)"

text \<open>\<open>rfc3339\<close> is the current time as text.\<close>

definition public_time :: "string \<Rightarrow> Response" where
  "public_time rfc3339 = response 200 (Text rfc3339)"

definition deposit_status :: "Response run" where
  "deposit_status = Panic TodoReached"

definition withdraw_status :: "Response run" where
  "withdraw_status = Panic TodoReached"

definition user_edit :: "Response run" where
  "user_edit = Panic (ExplicitPanic ''not implemented'')"

definition trade_edit_order :: "Response run" where
  "trade_edit_order = Ret (response 200 Empty)"

section \<open>Properties\<close>

lemma split_on_nonempty [simp]: "split_on c xs \<noteq> []"
  by (cases xs) (auto split: list.splits)

lemma split_on_notin: "c \<notin> set xs \<Longrightarrow> split_on c xs = [xs]"
  by (induction xs) auto

lemma split_on_append: "split_on c (xs @ c # ys) = split_on c xs @ split_on c ys"
  by (induction xs) (auto split: list.splits)

text \<open>The pieces of a split, joined again, are the text.\<close>

fun join :: "char \<Rightarrow> string list \<Rightarrow> string" where
  "join c [] = []"
| "join c [p] = p"
| "join c (p # q # ps) = p @ c # join c (q # ps)"

lemma join_split_on: "join c (split_on c xs) = xs"
proof (induction xs)
  case (Cons x xs)
  obtain p ps where "split_on c xs = p # ps" using split_on_nonempty [of c xs] by (cases "split_on c xs") auto
  with Cons show ?case by (cases ps) auto
qed simp

text \<open>Proxies separate the addresses of the header by a comma and a space. The piece after the last comma then begins with the space,
  which no parser of addresses accepts, so the last address is not found.\<close>

lemma forwarded_for_with_space:
  assumes "\<And>s. parse_ip (CHR '' '' # s) = None" and "CHR '','' \<notin> set b"
  shows "rightmost_ip_address parse_ip (vs @ [a @ CHR '','' # CHR '' '' # b]) = None"
proof -
  have "last (split_on CHR '','' (a @ CHR '','' # CHR '' '' # b)) = CHR '' '' # b"
    using assms(2) by (simp add: split_on_append split_on_notin)
  then show ?thesis using assms(1) by (auto simp: rightmost_ip_address_def to_str_def)
qed




end
