(* ===== verification/Router.thy ===== *)
theory Router
  imports App_Cx Pages
begin

text \<open>
  The web server as a whole (\<open>web/mod.rs\<close>): the table of routes with the middleware of each, and the service that
  dispatches a request to its handler on the state of the system, the user tables, the ledger and the engine behind its
  channel. Matching a path against a pattern is what the router library documents; what the extractors
  make of a request is part of the request.
\<close>

section \<open>Routes\<close>

datatype Method = GET | POST | PUT | DELETE

datatype Segment = Lit string | Param string

text \<open>A pattern is split at the slashes; a segment after a colon is a parameter.\<close>

definition segment :: "string \<Rightarrow> Segment" where
  "segment s = (case s of CHR '':'' # name \<Rightarrow> Param name | _ \<Rightarrow> Lit s)"

definition pattern :: "string \<Rightarrow> Segment list" where
  "pattern p = map segment (split_on CHR ''/'' p)"

datatype Handler =
    H_trade_add_order | H_trade_cancel_order | H_trade_edit_order
  | H_user_create | H_user_delete | H_user_get | H_user_edit | H_user_balance
  | H_session_create | H_session_delete
  | H_deposit_list_addrs | H_deposit_create_addr | H_deposit_status
  | H_withdraw_list_addrs | H_withdraw_create_addr | H_withdraw_delete_addr | H_withdraw_status
  | H_public_time | H_html_index | H_html_home

datatype Layer = NoLayer | ValidateSession | ValidateSessionOrRedirect

record Route =
  rt_pattern :: "Segment list"
  rt_methods :: "(Method \<times> Handler) list"
  rt_layer :: Layer

definition route :: "string \<Rightarrow> (Method \<times> Handler) list \<Rightarrow> Route" where
  "route p ms = \<lparr>rt_pattern = pattern p, rt_methods = ms, rt_layer = NoLayer\<rparr>"

definition route_layer :: "Layer \<Rightarrow> Route list \<Rightarrow> Route list" where
  "route_layer l rs = map (\<lambda>r. r\<lparr>rt_layer := l\<rparr>) rs"

definition trade_routes :: "Route list" where
  "trade_routes = route_layer ValidateSession
     [route ''/trade/:asset/order''
        [(POST, H_trade_add_order), (DELETE, H_trade_cancel_order), (PUT, H_trade_edit_order)]]"

definition user_routes :: "Route list" where
  "user_routes =
     [route ''/user'' [(POST, H_user_create)]] @
     route_layer ValidateSession
       [route ''/user/:id'' [(DELETE, H_user_delete), (GET, H_user_get), (PUT, H_user_edit)],
        route ''/user/:id/balance/:currency'' [(GET, H_user_balance)]]"

definition deposit_routes :: "Route list" where
  "deposit_routes = route_layer ValidateSession
     [route ''/deposit/addresses'' [(GET, H_deposit_list_addrs), (POST, H_deposit_create_addr)],
      route ''/deposit/status/{tx_id}'' [(GET, H_deposit_status)]]"

definition withdrawal_routes :: "Route list" where
  "withdrawal_routes = route_layer ValidateSession
     [route ''/withdrawal/addresses''
        [(GET, H_withdraw_list_addrs), (POST, H_withdraw_create_addr), (DELETE, H_withdraw_delete_addr)],
      route ''/withdrawal/status/{tx_id}'' [(GET, H_withdraw_status)]]"

definition session_routes :: "Route list" where
  "session_routes = [route ''/session'' [(POST, H_session_create), (DELETE, H_session_delete)]]"

definition public_routes :: "Route list" where
  "public_routes = [route ''/public/time'' [(GET, H_public_time)]]"

text \<open>\<open>nest\<close> puts a path before every pattern of a router; patterns and prefix begin with a slash.\<close>

definition nest :: "string \<Rightarrow> Route list \<Rightarrow> Route list" where
  "nest p rs = map (\<lambda>r. r\<lparr>rt_pattern := pattern p @ tl (rt_pattern r)\<rparr>) rs"

definition api_router :: "Route list" where
  "api_router = nest ''/api''
     (trade_routes @ user_routes @ session_routes @ withdrawal_routes @ deposit_routes @ public_routes)"

definition html_router :: "Route list" where
  "html_router = [route ''/'' [(GET, H_html_index)]] @ route_layer ValidateSessionOrRedirect [route ''/c'' [(GET, H_html_home)]]"

definition router :: "Route list" where
  "router = api_router @ html_router"

section \<open>Dispatch\<close>

text \<open>A parameter matches any segment that is not empty; the match binds the parameters.\<close>

fun match_path :: "Segment list \<Rightarrow> string list \<Rightarrow> (string \<times> string) list option" where
  "match_path [] [] = Some []"
| "match_path (Lit s # ps) (x # xs) = (if s = x then match_path ps xs else None)"
| "match_path (Param n # ps) (x # xs) = (if x = [] then None else map_option (Cons (n, x)) (match_path ps xs))"
| "match_path _ _ = None"

datatype Target = Handle Handler Layer "(string \<times> string) list" | MethodNotAllowed | Fallback

fun dispatch :: "Route list \<Rightarrow> Method \<Rightarrow> string list \<Rightarrow> Target" where
  "dispatch [] m path = Fallback"
| "dispatch (r # rs) m path =
     (case match_path (rt_pattern r) path of
        None \<Rightarrow> dispatch rs m path
      | Some params \<Rightarrow>
          (case map_of (rt_methods r) m of
             None \<Rightarrow> MethodNotAllowed
           | Some h \<Rightarrow> Handle h (rt_layer r) params))"

end
