(* ===== verification/Server.thy ===== *)
theory Server
  imports Router
begin

text \<open>
  The running exchange: the user tables, the ledger and the engine behind its channel, and the service that takes a
  request through routing, the session middleware and its handler (\<open>web/mod.rs\<close>, \<open>app_cx.rs\<close>). The extractors' view of a
  request is its data; what the libraries, the clock, bitcoind and the database decide during a request is
  its environment.
\<close>

section \<open>State, environment and requests\<close>

text \<open>\<open>AppCx\<close> holds the sender of the engine's channel and the engine's state as the server sees it; \<open>sys_open\<close> tells whether
  the engine still receives.\<close>

record 'j System =
  sys_users :: UserDb
  sys_ledger :: Ledger
  sys_engine :: "'j Supervisor"
  sys_open :: bool
  sys_te_state :: TradingEngineState

definition AppCx_new :: "UserDb \<Rightarrow> Ledger \<Rightarrow> 'j Supervisor \<Rightarrow> 'j System" where
  "AppCx_new db L e = \<lparr>sys_users = db, sys_ledger = L, sys_engine = e, sys_open = True, sys_te_state = TeRunning\<rparr>"

text \<open>The cell \<open>te_state\<close> of the server, read by the two order handlers.\<close>

definition trading_engine_state :: "'j System \<Rightarrow> TradingEngineState" where
  "trading_engine_state st = sys_te_state st"

definition set_trading_engine_state :: "TradingEngineState \<Rightarrow> 'j System \<Rightarrow> 'j System" where
  "set_trading_engine_state state st = st\<lparr>sys_te_state := state\<rparr>"

record ('h, 'j) Env =
  e_up :: faults
  e_up' :: faults
  e_session_up :: bool
  e_now :: int
  e_us :: "Uuid \<Rightarrow> string"
  e_hasher :: "'h hasher"
  e_schema :: Schema
  e_oc :: bool
  e_codec :: "'j codec"
  e_world :: world
  e_tx :: nat
  e_new_id :: Uuid
  e_token :: string
  e_new_address :: "string option"
  e_listed :: "BtcTx list option"
  e_iter :: "(string \<rightharpoonup> int) \<Rightarrow> (string \<times> int) list"
  e_render :: "string \<Rightarrow> page_context \<Rightarrow> string option"
  e_sql_text :: "SqlError \<Rightarrow> string"
  e_rfc3339 :: string
  e_static :: "string list \<Rightarrow> Response"
  e_reject :: Response

text \<open>The bodies the handlers read, decoded; a handler whose body does not decode is not run and the library
  answers \<open>e_reject\<close>.\<close>

datatype RequestBody =
    NoBody
  | AddOrderBody TradeAddOrder
  | CancelOrderBody Uuid
  | UserCreateBody string string string
  | UserIdBody Uuid
  | SessionCreateBody string string
  | SessionDeleteBody string
  | AssetBody string
  | AssetAddressBody string string

record Request =
  rq_method :: Method
  rq_path :: "string list"
  rq_cookie :: "string option"
  rq_ip :: string
  rq_agent :: "string option"
  rq_hx :: bool
  rq_tab :: "string option"
  rq_balance_path :: "(Uuid \<times> string) option"
  rq_body :: RequestBody

section \<open>Handlers on the state of the system\<close>

text \<open>The engine takes the command from its channel; a task that panics or leaves its loop drops the receiver.\<close>

definition deliver :: "('h, 'j) Env \<Rightarrow> TradingEngineCmd option \<Rightarrow> 'j System \<Rightarrow> 'j System" where
  "deliver env cmd st =
     (case cmd of
        None \<Rightarrow> st
      | Some c \<Rightarrow>
          (case supervisor_step (e_oc env) (e_codec env) (e_world env) c (sys_engine st) of
             Panic _ \<Rightarrow> st\<lparr>sys_open := False\<rparr>
           | Ret (e, Continue) \<Rightarrow> st\<lparr>sys_engine := e\<rparr>
           | Ret (e, Break) \<Rightarrow> st\<lparr>sys_engine := e, sys_open := False\<rparr>))"

definition respond_of :: "('h, 'j) Env \<Rightarrow> 'j System \<Rightarrow> TradingEngineCmd \<Rightarrow> Reply option" where
  "respond_of env st = engine_respond (e_oc env) (e_codec env) (e_world env) (sys_engine st) (e_tx env)"

definition rejected :: "('h, 'j) Env \<Rightarrow> 'j System \<Rightarrow> 'j System \<times> Response run" where
  "rejected env st = (st, Ret (e_reject env))"

definition on_users :: "'j System \<Rightarrow> UserDb \<times> Response run \<Rightarrow> 'j System \<times> Response run" where
  "on_users st r = (st\<lparr>sys_users := fst r\<rparr>, snd r)"

definition reply_with ::
  "('e \<Rightarrow> Response) \<Rightarrow> UserDb \<times> (Response, 'e) result run \<Rightarrow> UserDb \<times> Response run" where
  "reply_with into_response r =
     (fst r, bind_run (snd r) (\<lambda>res. Ret (case res of Ok x \<Rightarrow> x | Err e \<Rightarrow> into_response e)))"

definition handle_trade_add ::
  "('h, 'j) Env \<Rightarrow> Uuid \<Rightarrow> string \<Rightarrow> TradeAddOrder \<Rightarrow> 'j System \<Rightarrow> 'j System \<times> Response run" where
  "handle_trade_add env u asset body st =
     (let (L, cmd, res) = trade_add_order (e_up env) (e_schema env) (e_us env) (trading_engine_state st) (sys_open st) (e_tx env)
            (respond_of env st) (sys_ledger st) u asset body in
      (deliver env cmd (st\<lparr>sys_ledger := L\<rparr>), res))"

definition handle_trade_cancel ::
  "('h, 'j) Env \<Rightarrow> Uuid \<Rightarrow> string \<Rightarrow> Uuid \<Rightarrow> 'j System \<Rightarrow> 'j System \<times> Response run" where
  "handle_trade_cancel env u asset order st =
     (let (cmd, res) = trade_cancel_order (trading_engine_state st) (sys_open st) (e_tx env) (respond_of env st) u asset order in
      (deliver env cmd st, Ret res))"

definition handle_balance ::
  "('h, 'j) Env \<Rightarrow> Uuid \<Rightarrow> Uuid \<Rightarrow> string \<Rightarrow> 'j System \<Rightarrow> 'j System \<times> Response run" where
  "handle_balance env u target currency st =
     (let (L, res) = user_balance_handler (e_up env) (e_up' env) (e_schema env) (e_us env) (e_iter env) (e_listed env)
            (sys_ledger st) target currency u in
      (st\<lparr>sys_ledger := L\<rparr>, res))"

text \<open>The handlers that need no session.\<close>

definition handle_open :: "('h, 'j) Env \<Rightarrow> Request \<Rightarrow> Handler \<Rightarrow> 'j System \<Rightarrow> 'j System \<times> Response run" where
  "handle_open env rq h st =
     (case h of
        H_user_create \<Rightarrow>
          (case rq_body rq of
             UserCreateBody name email pw \<Rightarrow>
               on_users st (apsnd Ret (user_create (e_up env) (e_hasher env) (e_us env) (e_new_id env) (e_token env) (e_now env)
                 (rq_hx rq) (sys_users st) (rq_ip rq) (rq_agent rq) name email pw))
           | _ \<Rightarrow> rejected env st)
      | H_session_create \<Rightarrow>
          (case rq_body rq of
             SessionCreateBody email pw \<Rightarrow>
               on_users st (session_create (e_up env) (e_hasher env) (e_token env) (e_now env) (sys_users st)
                 (rq_ip rq) (rq_agent rq) email pw)
           | _ \<Rightarrow> rejected env st)
      | H_session_delete \<Rightarrow>
          (case rq_body rq of
             SessionDeleteBody tok \<Rightarrow> on_users st (apsnd Ret (session_delete (e_up env 0) (sys_users st) tok))
           | _ \<Rightarrow> rejected env st)
      | H_public_time \<Rightarrow> (st, Ret (public_time (e_rfc3339 env)))
      | H_html_index \<Rightarrow>
          (st, Ret (page_reply IndexRouteError_into_response (html_index (e_session_up env) (e_now env) (rq_cookie rq) (e_render env) (sys_users st))))
      | _ \<Rightarrow> (st, Ret (response 500 (Text ''Missing request extension''))))"

text \<open>The handlers behind the session middleware, for the user it found.\<close>

definition handle_session ::
  "('h, 'j) Env \<Rightarrow> Request \<Rightarrow> Handler \<Rightarrow> (string \<times> string) list \<Rightarrow> Uuid \<Rightarrow> 'j System \<Rightarrow> 'j System \<times> Response run" where
  "handle_session env rq h params u st =
     (case h of
        H_trade_add_order \<Rightarrow>
          (case (map_of params ''asset'', rq_body rq) of
             (Some asset, AddOrderBody body) \<Rightarrow> handle_trade_add env u asset body st
           | _ \<Rightarrow> rejected env st)
      | H_trade_cancel_order \<Rightarrow>
          (case (map_of params ''asset'', rq_body rq) of
             (Some asset, CancelOrderBody order) \<Rightarrow> handle_trade_cancel env u asset order st
           | _ \<Rightarrow> rejected env st)
      | H_trade_edit_order \<Rightarrow> (st, trade_edit_order)
      | H_user_delete \<Rightarrow>
          (case rq_body rq of
             UserIdBody i \<Rightarrow> on_users st (apsnd Ret (user_delete (e_up env 0) (sys_users st) i))
           | _ \<Rightarrow> rejected env st)
      | H_user_get \<Rightarrow>
          (case rq_body rq of
             UserIdBody i \<Rightarrow> (st, Ret (user_get (e_up env 0) (e_us env) (sys_users st) i))
           | _ \<Rightarrow> rejected env st)
      | H_user_edit \<Rightarrow> (st, user_edit)
      | H_user_balance \<Rightarrow>
          (case rq_balance_path rq of
             Some (target, currency) \<Rightarrow> handle_balance env u target currency st
           | None \<Rightarrow> rejected env st)
      | H_deposit_list_addrs \<Rightarrow> (st, Ret (deposit_list_addrs (e_up env 0) (sys_users st) u))
      | H_deposit_create_addr \<Rightarrow>
          (case rq_body rq of
             AssetBody asset \<Rightarrow>
               on_users st (reply_with (CreateDepositAddressError_into_response (e_sql_text env)) (deposit_create_addr (e_up env) (e_new_address env) (sys_users st) u asset))
           | _ \<Rightarrow> rejected env st)
      | H_deposit_status \<Rightarrow> (st, deposit_status)
      | H_withdraw_list_addrs \<Rightarrow> (st, Ret (withdraw_list_addrs (e_up env 0) (sys_users st) u))
      | H_withdraw_create_addr \<Rightarrow>
          (case rq_body rq of
             AssetAddressBody asset text \<Rightarrow>
               on_users st (reply_with (CreateWithdrawalAddressError_into_response (e_sql_text env)) (withdraw_create_addr (e_up env) (sys_users st) u asset text))
           | _ \<Rightarrow> rejected env st)
      | H_withdraw_delete_addr \<Rightarrow>
          (case rq_body rq of
             AssetAddressBody asset text \<Rightarrow>
               on_users st (reply_with (DeleteWithdrawalAddressError_into_response (e_sql_text env)) (apsnd Ret (withdraw_delete_addr (e_up env) (sys_users st) u asset text)))
           | _ \<Rightarrow> rejected env st)
      | H_withdraw_status \<Rightarrow> (st, withdraw_status)
      | H_html_home \<Rightarrow> (st, Ret (page_reply HomeRouteError_into_response (html_home (e_up env) (e_render env) (sys_users st) u (rq_tab rq))))
      | _ \<Rightarrow> handle_open env rq h st)"

section \<open>The service\<close>

definition serve_request :: "('h, 'j) Env \<Rightarrow> Request \<Rightarrow> 'j System \<Rightarrow> 'j System \<times> Response run" where
  "serve_request env rq st =
     (case dispatch router (rq_method rq) (rq_path rq) of
        Fallback \<Rightarrow> (st, Ret (e_static env (rq_path rq)))
      | MethodNotAllowed \<Rightarrow> (st, Ret (response 405 Empty))
      | Handle h layer params \<Rightarrow>
          (case layer of
             NoLayer \<Rightarrow> handle_open env rq h st
           | ValidateSession \<Rightarrow>
               validate_session_token (e_session_up env) (e_now env) (rq_cookie rq) (sys_users st) st
                 (\<lambda>u. handle_session env rq h params u st)
           | ValidateSessionOrRedirect \<Rightarrow>
               validate_session_token_or_redirect (e_session_up env) (e_now env) (rq_cookie rq) (sys_users st) st
                 (\<lambda>u. handle_session env rq h params u st)))"

section \<open>Which handler a request reaches\<close>

definition open_handlers :: "Handler set" where
  "open_handlers = {H_user_create, H_session_create, H_session_delete, H_public_time, H_html_index}"

lemma dispatch_Handle:
  "dispatch rs m path = Handle h l params \<Longrightarrow> \<exists>r\<in>set rs. l = rt_layer r \<and> (m, h) \<in> set (rt_methods r)"
  by (induction rs) (auto split: option.splits dest: map_of_SomeD)

lemmas router_defs = router_def api_router_def html_router_def nest_def route_layer_def route_def trade_routes_def user_routes_def
  session_routes_def withdrawal_routes_def deposit_routes_def public_routes_def

lemma router_layers:
  "r \<in> set router \<Longrightarrow> (m, h) \<in> set (rt_methods r) \<Longrightarrow> rt_layer r = NoLayer \<longleftrightarrow> h \<in> open_handlers"
  by (auto simp: router_defs open_handlers_def)

lemma dispatch_layer: "dispatch router m path = Handle h l params \<Longrightarrow> l = NoLayer \<longleftrightarrow> h \<in> open_handlers"
  using dispatch_Handle router_layers by metis

lemma dispatch_user: "x \<noteq> [] \<Longrightarrow> dispatch router DELETE ['''', ''api'', ''user'', x] = Handle H_user_delete ValidateSession [(''id'', x)]"
  by (simp add: router_defs pattern_def segment_def)

lemma dispatch_order:
  "x \<noteq> [] \<Longrightarrow> dispatch router POST ['''', ''api'', ''trade'', x, ''order''] = Handle H_trade_add_order ValidateSession [(''asset'', x)]"
  by (simp add: router_defs pattern_def segment_def)

section \<open>A concrete exchange\<close>

definition sample_env :: "(string, TradeCmdPayload) Env" where
  "sample_env = \<lparr>e_up = (\<lambda>_. True), e_up' = (\<lambda>_. True), e_session_up = True, e_now = 100, e_us = (\<lambda>_. ''id''),
     e_hasher = sample_hasher, e_schema = With_txid, e_oc = True, e_codec = sample_codec, e_world = sample_world True,
     e_tx = 0, e_new_id = 7, e_token = ''new'', e_new_address = None, e_listed = Some [], e_iter = (\<lambda>_. []),
     e_render = (\<lambda>_ _. None), e_sql_text = (\<lambda>_. ''error''), e_rfc3339 = ''now'', e_static = (\<lambda>_. response 404 Empty),
     e_reject = response 422 Empty\<rparr>"

definition web_request :: "Method \<Rightarrow> string list \<Rightarrow> string option \<Rightarrow> RequestBody \<Rightarrow> Request" where
  "web_request m path cookie body = \<lparr>rq_method = m, rq_path = path, rq_cookie = cookie, rq_ip = ''ip'', rq_agent = None, rq_hx = False,
     rq_tab = None, rq_balance_path = None, rq_body = body\<rparr>"

text \<open>Two users, of whom the second has a session.\<close>

definition two_users :: UserDb where
  "two_users = \<lparr>users =
       [\<lparr>u_id = 1, u_name = ''ann'', u_email = ''ann@x'', u_password_hash = ''pw'', u_deleted = False, u_role = ''user''\<rparr>,
        \<lparr>u_id = 2, u_name = ''bob'', u_email = ''bob@x'', u_password_hash = ''pw'', u_deleted = False, u_role = ''user''\<rparr>],
     session_tokens = [\<lparr>s_token = ''tok'', s_created_at = 0, s_max_age = 3600, s_user_id = 2, s_ip = None, s_agent = None\<rparr>],
     user_addresses = []\<rparr>"

definition sample_system :: "TradeCmdPayload System" where
  "sample_system = AppCx_new two_users sample_ledger (supervisor_init [])"

section \<open>Without a session\<close>

definition has_session :: "('h, 'j) Env \<Rightarrow> Request \<Rightarrow> 'j System \<Rightarrow> bool" where
  "has_session env rq st \<longleftrightarrow>
     (case try_validate_session (e_session_up env) (e_now env) (rq_cookie rq) (sys_users st) of Ok _ \<Rightarrow> True | Err _ \<Rightarrow> False)"

text \<open>What an anonymous request may do to the user tables: add a user, add or remove sessions.\<close>

definition anonymous_change :: "UserDb \<Rightarrow> UserDb \<Rightarrow> bool" where
  "anonymous_change db db' \<longleftrightarrow>
     user_addresses db' = user_addresses db \<and> take (length (users db)) (users db') = users db \<and>
     length (users db') \<le> Suc (length (users db))"

lemma create_session_change: "anonymous_change db db' \<Longrightarrow> anonymous_change db (fst (create_session up tok now db' u ip ag))"
  by (auto simp: create_session_def insert_session_def anonymous_change_def split: result.splits if_splits)

lemma create_user_change: "anonymous_change db (fst (create_user up i db name email h))"
  by (auto simp: create_user_def insert_user_def anonymous_change_def split: result.splits SqlError.splits if_splits)

lemma user_create_change: "anonymous_change db (fst (user_create up ha us i tok now hx db ip ag name email pw))"
proof -
  have refl: "anonymous_change db db" by (simp add: anonymous_change_def)
  show ?thesis
    using create_user_change [of db "up 0" i name email] create_session_change [of db _ "up 1" tok now _ "Some ip" ag] refl
    by (auto simp: user_create_def split: option.splits prod.splits result.splits) (metis fst_conv)+
qed

lemma session_create_change: "anonymous_change db (fst (session_create up ha tok now db ip ag email pw))"
proof -
  have refl: "anonymous_change db db" by (simp add: anonymous_change_def)
  show ?thesis
    using create_session_change [OF refl, of "up 1" tok now _ "Some ip" ag] refl
    by (auto simp: session_create_def split: run.splits prod.splits result.splits VerifyLoginDetailsError.splits) (metis fst_conv)+
qed

lemma session_delete_change: "anonymous_change db (fst (session_delete up db tok))"
  by (simp add: session_delete_def anonymous_change_def Let_def split: option.splits)

lemma handle_open_frame:
  assumes "handle_open env rq h st = (st', r)"
  shows "\<exists>db. st' = st\<lparr>sys_users := db\<rparr> \<and> anonymous_change (sys_users st) db"
proof -
  have "\<exists>db. st = st\<lparr>sys_users := db\<rparr> \<and> anonymous_change (sys_users st) db"
    by (rule exI [of _ "sys_users st"]) (simp add: anonymous_change_def)
  with assms show ?thesis
    by (auto simp: handle_open_def on_users_def rejected_def user_create_change session_create_change session_delete_change
        split: Handler.splits RequestBody.splits)
qed

lemma middleware_refuses:
  assumes "\<not> has_session env rq st"
  shows "\<exists>resp. validate_session_token (e_session_up env) (e_now env) (rq_cookie rq) (sys_users st) st f = (st, Ret resp) \<and>
      status resp \<in> {401, 500}"
    and "\<exists>resp. validate_session_token_or_redirect (e_session_up env) (e_now env) (rq_cookie rq) (sys_users st) st f = (st, Ret resp) \<and>
      status resp \<in> {303, 500}"
proof -
  obtain c msg where err: "try_validate_session (e_session_up env) (e_now env) (rq_cookie rq) (sys_users st) = Err (c, msg)" "c \<in> {401, 500}"
    using assms by (auto simp: has_session_def try_validate_session_def split: option.splits if_splits)
  from err show "\<exists>resp. validate_session_token (e_session_up env) (e_now env) (rq_cookie rq) (sys_users st) st f = (st, Ret resp) \<and>
      status resp \<in> {401, 500}"
    by (auto simp: validate_session_token_def)
  from err show "\<exists>resp. validate_session_token_or_redirect (e_session_up env) (e_now env) (rq_cookie rq) (sys_users st) st f = (st, Ret resp) \<and>
      status resp \<in> {303, 500}"
    by (auto simp: validate_session_token_or_redirect_def)
qed

text \<open>C8: without a valid session a request cannot touch anything that belongs to somebody. It leaves the ledger, the engine and every
  address as they are and every existing user's row, at most adding one user; it reaches no handler but the five open ones,
  and at every other route it is answered 401, 303 (to the front page) or 500 with nothing changed.\<close>

theorem anonymous_requests_are_harmless:
  assumes "\<not> has_session env rq st" and "serve_request env rq st = (st', r)"
  shows "(\<exists>db. st' = st\<lparr>sys_users := db\<rparr> \<and> anonymous_change (sys_users st) db) \<and>
    (case dispatch router (rq_method rq) (rq_path rq) of
       Handle h l params \<Rightarrow> h \<in> open_handlers \<or> st' = st \<and> (\<exists>resp. r = Ret resp \<and> status resp \<in> {303, 401, 500})
     | _ \<Rightarrow> st' = st)"
proof -
  have same: "\<exists>db. st = st\<lparr>sys_users := db\<rparr> \<and> anonymous_change (sys_users st) db"
    by (rule exI [of _ "sys_users st"]) (simp add: anonymous_change_def)
  note refused = middleware_refuses [OF assms(1)]
  show ?thesis
  proof (cases "dispatch router (rq_method rq) (rq_path rq)")
    case (Handle h l params)
    from dispatch_layer [OF Handle] have layer: "l = NoLayer \<longleftrightarrow> h \<in> open_handlers" .
    show ?thesis
    proof (cases l)
      case NoLayer
      with Handle assms(2) handle_open_frame [of env rq h st st' r] layer show ?thesis by (simp add: serve_request_def)
    next
      case ValidateSession
      with Handle assms(2) same refused(1) [of "\<lambda>u. handle_session env rq h params u st"] show ?thesis
        by (auto simp: serve_request_def)
    next
      case ValidateSessionOrRedirect
      with Handle assms(2) same refused(2) [of "\<lambda>u. handle_session env rq h params u st"] show ?thesis
        by (auto simp: serve_request_def)
    qed
  qed (use assms(2) same in \<open>auto simp: serve_request_def\<close>)
qed

theorem anonymous_requests_are_harmless_witness:
  "\<exists>resp. serve_request sample_env (web_request DELETE ['''', ''api'', ''user'', ''1''] None (UserIdBody 1)) sample_system =
     (sample_system, Ret resp) \<and> status resp \<in> {303, 401, 500}"
proof -
  let ?rq = "web_request DELETE ['''', ''api'', ''user'', ''1''] None (UserIdBody 1)"
  have "\<not> has_session sample_env ?rq sample_system"
    by (simp add: has_session_def try_validate_session_def web_request_def)
  from anonymous_requests_are_harmless [OF this surjective_pairing] show ?thesis
    by (auto simp: web_request_def dispatch_user open_handlers_def prod_eq_iff)
qed

text \<open>C22: every session can delete every user. The route \<open>DELETE /api/user/:id\<close> takes the user from the body of the request and compares it neither
  with the path nor with the session: a request with anybody's valid session that names an existing user marks that
  user deleted and is answered 200.\<close>

theorem any_session_deletes_any_user:
  assumes "has_session env rq st" and "rq_method rq = DELETE" and "rq_path rq = ['''', ''api'', ''user'', x]" and "x \<noteq> []"
    and "rq_body rq = UserIdBody victim" and "e_up env 0"
    and "r \<in> set (users (sys_users st))" and "u_id r = victim" and "\<not> u_deleted r"
  shows "serve_request env rq st =
      (st\<lparr>sys_users := (sys_users st)\<lparr>users := map (mark_deleted victim) (users (sys_users st))\<rparr>\<rparr>,
       Ret (response 200 (StatusJson ''deleted'')))"
proof -
  obtain u where "try_validate_session (e_session_up env) (e_now env) (rq_cookie rq) (sys_users st) = Ok u"
    using assms(1) by (auto simp: has_session_def split: result.splits)
  with assms show ?thesis
    by (auto simp: serve_request_def dispatch_user validate_session_token_def handle_session_def on_users_def user_delete_def)
qed

theorem any_session_deletes_any_user_witness:
  "serve_request sample_env (web_request DELETE ['''', ''api'', ''user'', ''2''] (Some ''tok'') (UserIdBody 1)) sample_system =
     (sample_system\<lparr>sys_users := two_users\<lparr>users := map (mark_deleted 1) (users two_users)\<rparr>\<rparr>, Ret (response 200 (StatusJson ''deleted'')))"
  using any_session_deletes_any_user [where env = sample_env and st = sample_system and victim = 1 and x = "''2''"
      and rq = "web_request DELETE ['''', ''api'', ''user'', ''2''] (Some ''tok'') (UserIdBody 1)" and r = "hd (users two_users)"]
  by (simp add: has_session_def try_validate_session_def web_request_def sample_env_def sample_system_def AppCx_new_def two_users_def)

section \<open>The invariant of the whole system\<close>

definition sys_inv :: "nat \<Rightarrow> 'j System \<Rightarrow> bool" where
  "sys_inv k st \<longleftrightarrow> db_wf (sys_users st) \<and> ledger_wf (sys_ledger st) \<and> te_inv k (sys_engine st) \<and> sys_open st"

lemma sys_inv_Suc: "sys_inv k st \<Longrightarrow> sys_inv (Suc k) st"
  by (simp add: sys_inv_def te_inv_Suc)

lemma sys_inv_users: "sys_inv k st \<Longrightarrow> db_wf db \<Longrightarrow> sys_inv (Suc k) (st\<lparr>sys_users := db\<rparr>)"
  by (simp add: sys_inv_def te_inv_Suc)

lemma sys_inv_ledger: "sys_inv k st \<Longrightarrow> ledger_wf L \<Longrightarrow> sys_inv k (st\<lparr>sys_ledger := L\<rparr>)"
  by (simp add: sys_inv_def)

text \<open>The web server sends no command that ends the engine.\<close>

lemma deliver_inv:
  assumes "sys_inv k st" and "k < 2 ^ 32 - 1" and "cmd \<noteq> Some Shutdown"
  shows "sys_inv (Suc k) (deliver env cmd st)"
proof (cases cmd)
  case None
  with sys_inv_Suc [OF assms(1)] show ?thesis by (simp add: deliver_def)
next
  case (Some c)
  have "te_inv k (sys_engine st)" using assms(1) by (simp add: sys_inv_def)
  from supervisor_step_inv [OF this assms(2)] obtain e ctl where
    step: "supervisor_step (e_oc env) (e_codec env) (e_world env) c (sys_engine st) = Ret (e, ctl)" "te_inv (Suc k) e" by blast
  moreover have "ctl = Continue"
    using step(1) Some assms(3)
    by (auto simp: supervisor_step.simps run_simps split: if_splits TradingEngineCmd.splits TradeCmd.splits TradeCmdPayload.splits)
  ultimately show ?thesis using Some assms(1) by (simp add: deliver_def sys_inv_def)
qed

lemma place_order_cmd: "fst (snd (place_order up sc us ts op tx L asset u body)) \<noteq> Some Shutdown"
  by (auto simp: place_order_def Let_def split: prod.splits run.splits result.splits)

lemma trade_add_order_cmd: "fst (snd (trade_add_order up sc us ts op tx resp L u name body)) \<noteq> Some Shutdown"
proof -
  have "cmd \<noteq> Some Shutdown" if "place_order up sc us ts op tx L a u body = (L', cmd, res)" for a L' cmd res
    using that place_order_cmd [of up sc us ts op tx L a u body] by simp
  then show ?thesis by (auto simp: trade_add_order_def Let_def split: option.splits prod.splits run.splits result.splits)
qed

lemma trade_cancel_order_cmd: "fst (trade_cancel_order ts op tx resp u name i) \<noteq> Some Shutdown"
  by (auto simp: trade_cancel_order_def cancel_order_def Let_def split: option.splits)

lemma on_users_inv:
  "sys_inv k st \<Longrightarrow> db_wf (fst r) \<Longrightarrow> sys_inv (Suc k) (fst (on_users st r))"
  by (simp add: on_users_def sys_inv_users)

lemma handle_open_inv: "sys_inv k st \<Longrightarrow> sys_inv (Suc k) (fst (handle_open env rq h st))"
proof -
  assume inv: "sys_inv k st"
  then have db: "db_wf (sys_users st)" by (simp add: sys_inv_def)
  show ?thesis
    using sys_inv_Suc [OF inv]
    by (cases h; cases "rq_body rq")
      (simp_all add: handle_open_def rejected_def on_users_inv [OF inv] user_step_wfs [OF db])
qed

lemma handle_trade_inv:
  assumes "sys_inv k st" and "k < 2 ^ 32 - 1"
  shows "sys_inv (Suc k) (fst (handle_trade_add env u asset body st))"
    and "sys_inv (Suc k) (fst (handle_trade_cancel env u asset i st))"
proof -
  have L: "ledger_wf (sys_ledger st)" using assms(1) by (simp add: sys_inv_def)
  from deliver_inv [OF sys_inv_ledger [OF assms(1) wf.trade_add_order_keeps [OF L]] assms(2) trade_add_order_cmd]
  show "sys_inv (Suc k) (fst (handle_trade_add env u asset body st))"
    by (simp add: handle_trade_add_def case_prod_unfold Let_def)
  from deliver_inv [OF assms trade_cancel_order_cmd]
  show "sys_inv (Suc k) (fst (handle_trade_cancel env u asset i st))"
    by (simp add: handle_trade_cancel_def case_prod_unfold Let_def)
qed

lemma handle_balance_inv: "sys_inv k st \<Longrightarrow> sys_inv (Suc k) (fst (handle_balance env u target cur st))"
proof -
  assume inv: "sys_inv k st"
  then have "ledger_wf (sys_ledger st)" by (simp add: sys_inv_def)
  note wf.balance_handler_keeps [OF this, of "e_up env" "e_up' env" "e_schema env" "e_us env" "e_iter env" "e_listed env" target cur u]
  with sys_inv_ledger [OF inv] show ?thesis
    by (auto simp: handle_balance_def intro!: sys_inv_Suc split: prod.splits)
qed

lemma handle_session_inv:
  assumes "sys_inv k st" and "k < 2 ^ 32 - 1"
  shows "sys_inv (Suc k) (fst (handle_session env rq h params u st))"
proof -
  have db: "db_wf (sys_users st)" using assms(1) by (simp add: sys_inv_def)
  note simps = handle_session_def rejected_def sys_inv_Suc [OF assms(1)] handle_trade_inv [OF assms] handle_balance_inv [OF assms(1)]
    handle_open_inv [OF assms(1)] on_users_inv [OF assms(1)] reply_with_def user_step_wfs [OF db]
  show ?thesis
    by (cases h; cases "rq_body rq"; cases "map_of params ''asset''"; cases "rq_balance_path rq")
      (simp_all add: simps split: prod.splits)
qed

lemma serve_request_inv:
  assumes "sys_inv k st" and "k < 2 ^ 32 - 1"
  shows "sys_inv (Suc k) (fst (serve_request env rq st))"
  using handle_session_inv [OF assms] handle_open_inv [OF assms(1)] sys_inv_Suc [OF assms(1)]
  by (auto simp: serve_request_def validate_session_token_def validate_session_token_or_redirect_def
      split: Target.splits Layer.splits result.splits)

lemma deliver_ledger [simp]: "sys_ledger (deliver env cmd st) = sys_ledger st"
  by (auto simp: deliver_def split: option.splits run.splits prod.splits control.splits)

lemma handle_open_ledger [simp]: "sys_ledger (fst (handle_open env rq h st)) = sys_ledger st"
  using handle_open_frame [of env rq h st "fst (handle_open env rq h st)" "snd (handle_open env rq h st)"] by auto

context journal_writes begin

lemma handle_session_keeps:
  assumes "e_schema env = sc" and "P (sys_ledger st)"
  shows "P (sys_ledger (fst (handle_session env rq h params u st)))"
proof -
  have "P (sys_ledger (fst (handle_trade_add env u asset body st)))" for asset body
    using trade_add_order_keeps [OF assms(2)] assms(1) by (simp add: handle_trade_add_def case_prod_unfold Let_def)
  moreover have "P (sys_ledger (fst (handle_trade_cancel env u asset i st)))" for asset i
    using assms(2) by (simp add: handle_trade_cancel_def case_prod_unfold Let_def)
  moreover have "P (sys_ledger (fst (handle_balance env u target cur st)))" for target cur
    using balance_handler_keeps [OF assms(2)] assms(1) by (simp add: handle_balance_def case_prod_unfold Let_def)
  ultimately show ?thesis using assms(2)
    by (cases h; cases "rq_body rq"; cases "map_of params ''asset''"; cases "rq_balance_path rq")
      (simp_all add: handle_session_def rejected_def on_users_def split: prod.splits)
qed

lemma serve_request_keeps:
  assumes "e_schema env = sc" and "P (sys_ledger st)"
  shows "P (sys_ledger (fst (serve_request env rq st)))"
  using handle_session_keeps [OF assms] assms(2)
  by (auto simp: serve_request_def validate_session_token_def validate_session_token_or_redirect_def
      split: Target.splits Layer.splits result.splits)

end

text \<open>One request, in any environment with a given password hashing and schema.\<close>

inductive sys_step :: "'h hasher \<Rightarrow> Schema \<Rightarrow> 'j System \<Rightarrow> 'j System \<Rightarrow> bool" for ha sc where
  served: "e_hasher env = ha \<Longrightarrow> e_schema env = sc \<Longrightarrow> sys_step ha sc st (fst (serve_request env rq st))"

interpretation server: counted_system "sys_step ha sc" sys_inv "2 ^ 32 - 1" for ha sc
  by unfold_locales (auto elim!: sys_step.cases intro: serve_request_inv)

text \<open>C4: the exchange keeps its integrity as a whole. Start it on empty user tables, any well formed ledger and an engine in any reachable state, for instance
  after its recovery, and let it serve any sequence of requests of whatever kind, with whatever failures of the database,
  answers of bitcoind and times, fewer than 2^32 with the commands the engine had before: the user tables keep their keys and references,
  the ledger stays well formed and its balances sum to zero, both books stay well formed and uncrossed, and the engine still receives.\<close>

theorem exchange_invariant:
  assumes "(sys_step ha sc ^^ n) (AppCx_new no_users L e) st" and "te_reach oc cd rows k e" and "ledger_wf L" and "k + n < 2 ^ 32"
  shows "db_wf (sys_users st) \<and> ledger_wf (sys_ledger st) \<and>
    (\<Sum>a\<leftarrow>accounts (sys_ledger st). balance_of (sys_ledger st) (ac_id a)) = 0 \<and>
    (\<forall>a. book_wf (book_of (te_assets (sys_engine st)) a) \<and> uncrossed (book_of (te_assets (sys_engine st)) a)) \<and> sys_open st"
proof -
  have "te_inv k e" using te_reach_inv [OF assms(2)] assms(4) by simp
  then have "sys_inv k (AppCx_new no_users L e)"
    using assms(3) by (simp add: sys_inv_def AppCx_new_def no_users_wf)
  from server.inv_run [OF assms(1) this] assms(4) have inv: "sys_inv (k + n) st" by simp
  then have "ledger_wf (sys_ledger st)" by (simp add: sys_inv_def)
  with inv show ?thesis by (simp add: sys_inv_def ledger_sum_zero te_inv_def assets_ok_def book_ok_def)
qed

theorem exchange_invariant_witness:
  "let st = fst (serve_request sample_env (web_request POST ['''', ''api'', ''user''] None (UserCreateBody ''ann'' ''ann@x'' ''pw''))
       (AppCx_new no_users sample_ledger (supervisor_init [])))
   in db_wf (sys_users st) \<and> ledger_wf (sys_ledger st) \<and> sys_open st"
proof -
  have "(sys_step sample_hasher With_txid ^^ 1) (AppCx_new no_users sample_ledger (supervisor_init [])) (fst (serve_request sample_env
      (web_request POST ['''', ''api'', ''user''] None (UserCreateBody ''ann'' ''ann@x'' ''pw'')) (AppCx_new no_users sample_ledger (supervisor_init []))))"
    unfolding relpowp_1 by (rule served) (simp_all add: sample_env_def)
  from exchange_invariant [OF this te_init sample_ledger_wf] show ?thesis by (simp add: Let_def)
qed

context journal_writes begin

lemma sys_run_keeps: "(sys_step ha sc ^^ n) st st' \<Longrightarrow> P (sys_ledger st) \<Longrightarrow> P (sys_ledger st')"
proof (induction n arbitrary: st')
  case (Suc n)
  then obtain t where "(sys_step ha sc ^^ n) st t" "sys_step ha sc t st'" by auto
  with Suc serve_request_keeps show ?case by (auto elim!: sys_step.cases)
qed simp

end

text \<open>C31: the ledger stays well typed and is never rewritten. Whatever requests the exchange serves, on either schema, every row keeps the column types
  and constraints of the migrations (identifiers within \<open>INTEGER\<close>, positive amounts within \<open>BIGINT\<close>, currency codes, unique transaction
  ids), the accounts stay as they were, and the journal that was there remains a prefix of the journal.\<close>

theorem ledger_keeps_types:
  assumes "(sys_step ha sc ^^ n) st st'" and "ledger_typed sc (sys_ledger st)"
  shows "ledger_typed sc (sys_ledger st') \<and> prefix (journal (sys_ledger st)) (journal (sys_ledger st')) \<and>
    accounts (sys_ledger st') = accounts (sys_ledger st)"
  using typed.sys_run_keeps [OF assms] grows.sys_run_keeps [OF assms(1) journal_grows_refl] by (simp add: journal_grows_def)

theorem ledger_keeps_types_witness:
  "ledger_typed Before_txid (sys_ledger (fst (serve_request (sample_env\<lparr>e_schema := Before_txid\<rparr>)
     (web_request POST ['''', ''api'', ''trade'', ''btc'', ''order''] (Some ''tok'') (AddOrderBody sample_request)) sample_system)))"
proof -
  have "(sys_step sample_hasher Before_txid ^^ 1) sample_system (fst (serve_request (sample_env\<lparr>e_schema := Before_txid\<rparr>)
     (web_request POST ['''', ''api'', ''trade'', ''btc'', ''order''] (Some ''tok'') (AddOrderBody sample_request)) sample_system))"
    unfolding relpowp_1 by (rule served) (simp_all add: sample_env_def)
  from ledger_keeps_types [OF this] sample_ledger_typed show ?thesis by (simp add: sample_system_def AppCx_new_def)
qed

text \<open>A request to an exchange whose engine has stopped: the funds are reserved and given back at once.\<close>

lemma sample_reservation_reverted:
  "journal (fst (trade_add_order (\<lambda>_. True) Before_txid (\<lambda>_. ''u1'') TeRunning False tx f sample_ledger u ''btc'' sample_request)) =
     journal sample_ledger @
       [\<lparr>jr_id = 2, jr_credit = 1, jr_debit = 3, jr_currency = ''USD'', jr_amount = 40, jr_type = ''reserve asset'', jr_txid = None\<rparr>,
        \<lparr>jr_id = 3, jr_credit = 3, jr_debit = 1, jr_currency = ''USD'', jr_amount = 40, jr_type = ''revert reserve asset'', jr_txid = None\<rparr>]"
  by (simp add: trade_add_order_def place_order_def revert_def sample_request_def reserve_currency_def parse_asset_def
      reserve_by_asset_def reserve_check_def reserve_insert_def calculate_balance_from_accounting_def calculate_balance_def user_account_def
      sample_ledger_def credits_def debits_def bigint_def nonzero_u64_def journal_insert_def currency_code_def less_eq_char_def assert_run_def)

definition reserving_env :: "(string, TradeCmdPayload) Env" where
  "reserving_env = sample_env\<lparr>e_schema := Before_txid, e_us := (\<lambda>_. ''u1'')\<rparr>"

definition stopped_system :: "TradeCmdPayload System" where
  "stopped_system = sample_system\<lparr>sys_open := False\<rparr>"

lemma sample_reservation_served:
  "sys_ledger (fst (serve_request reserving_env
     (web_request POST ['''', ''api'', ''trade'', ''btc'', ''order''] (Some ''tok'') (AddOrderBody sample_request)) stopped_system)) =
   fst (trade_add_order (\<lambda>_. True) Before_txid (\<lambda>_. ''u1'') TeRunning False 0 (respond_of reserving_env stopped_system)
     sample_ledger 2 ''btc'' sample_request)"
  by (simp add: serve_request_def web_request_def dispatch_order validate_session_token_def try_validate_session_def reserving_env_def stopped_system_def
      sample_env_def sample_system_def AppCx_new_def two_users_def handle_session_def handle_trade_add_def trading_engine_state_def split_beta)

text \<open>C32: matching orders never moves money. Whatever requests the exchange serves and whatever the engine fills, the journal gains rows of three kinds only: reservations,
  their inverses, and deposits from the chain; and the account of a user is credited by nothing but an inverse or a deposit. So the buyer of a filled order never
  receives what was bought and the seller never receives its price: both only lose what they reserved.\<close>

theorem fills_never_settle:
  assumes "(sys_step ha sc ^^ n) st st'" and "distinct (map ac_id (accounts (sys_ledger st)))"
    and "r \<in> set (drop (length (journal (sys_ledger st))) (journal (sys_ledger st')))"
  shows "jr_type r \<in> {''reserve asset'', ''revert reserve asset'', ''CHAIN.DEPOSIT''} \<and>
    (\<forall>a\<in>set (accounts (sys_ledger st)). ac_source_type a = ''user'' \<and> jr_credit r = ac_id a \<longrightarrow>
       jr_type r \<in> {''revert reserve asset'', ''CHAIN.DEPOSIT''})"
proof -
  from adds.sys_run_keeps [OF assms(1) adds_rows_refl] assms(3) have row: "added_row (sys_ledger st) r" by (simp add: adds_rows_def)
  then have kind: "jr_type r \<in> {''reserve asset'', ''revert reserve asset'', ''CHAIN.DEPOSIT''}" unfolding added_row_def by (rule conjunct1)
  have "jr_type r \<noteq> ''reserve asset''" if a: "a \<in> set (accounts (sys_ledger st))" "ac_source_type a = ''user''" "jr_credit r = ac_id a" for a
  proof
    assume "jr_type r = ''reserve asset''"
    with row a(3) have "account_kind (sys_ledger st) (Some (ac_id a)) ''fiat''" by (simp add: added_row_def)
    from account_kind_unique [OF assms(2) a(1) this] a(2) show False by simp
  qed
  with kind show ?thesis by (intro conjI ballI impI) auto
qed

theorem fills_never_settle_witness:
  "\<exists>r. r \<in> set (drop 1 (journal (sys_ledger (fst (serve_request reserving_env
     (web_request POST ['''', ''api'', ''trade'', ''btc'', ''order''] (Some ''tok'') (AddOrderBody sample_request)) stopped_system))))) \<and>
     jr_credit r = 3 \<and> jr_type r \<in> {''revert reserve asset'', ''CHAIN.DEPOSIT''}"
proof -
  let ?st = "fst (serve_request reserving_env
     (web_request POST ['''', ''api'', ''trade'', ''btc'', ''order''] (Some ''tok'') (AddOrderBody sample_request)) stopped_system)"
  have run: "(sys_step sample_hasher Before_txid ^^ 1) stopped_system ?st"
    unfolding relpowp_1 by (rule served) (simp_all add: sample_env_def reserving_env_def)
  have L: "sys_ledger stopped_system = sample_ledger" by (simp add: stopped_system_def sample_system_def AppCx_new_def)
  have acc: "distinct (map ac_id (accounts sample_ledger))" "length (journal sample_ledger) = 1"
    "\<lparr>ac_id = 3, ac_currency = ''USD'', ac_source_type = ''user'', ac_source_id = ''u1''\<rparr> \<in> set (accounts sample_ledger)"
    by (simp_all add: sample_ledger_def)
  have "\<exists>r. r \<in> set (drop 1 (journal (sys_ledger ?st))) \<and> jr_credit r = 3"
    unfolding sample_reservation_served sample_reservation_reverted
    by (rule exI [of _ "\<lparr>jr_id = 3, jr_credit = 3, jr_debit = 1, jr_currency = ''USD'', jr_amount = 40, jr_type = ''revert reserve asset'', jr_txid = None\<rparr>"])
      (simp add: acc(2))
  then obtain r where r: "r \<in> set (drop 1 (journal (sys_ledger ?st)))" and credit: "jr_credit r = 3" by (elim exE conjE)
  from fills_never_settle [OF run, unfolded L acc(2), OF acc(1) r] acc(3) credit
  have "jr_type r \<in> {''revert reserve asset'', ''CHAIN.DEPOSIT''}" by fastforce
  with r credit show ?thesis by (intro exI [of _ r] conjI)
qed

section \<open>The server's view of the engine\<close>

text \<open>While the server takes the engine for suspended, the two order handlers change nothing at all; in reduce-only mode
  only a cancellation still reaches the engine.\<close>

lemma suspended_refuses_orders:
  "fst (handle_trade_add env u asset body (set_trading_engine_state TeSuspended st)) = set_trading_engine_state TeSuspended st"
  "fst (handle_trade_cancel env u asset order (set_trading_engine_state TeSuspended st)) = set_trading_engine_state TeSuspended st"
  by (simp_all add: handle_trade_add_def handle_trade_cancel_def trade_add_order_def trade_cancel_order_def place_order_def cancel_order_def
      trading_engine_state_def set_trading_engine_state_def deliver_def split: option.splits)

lemma reduce_only_refuses_placing:
  "fst (handle_trade_add env u asset body (set_trading_engine_state TeReduceOnly st)) = set_trading_engine_state TeReduceOnly st"
  by (simp add: handle_trade_add_def trade_add_order_def place_order_def trading_engine_state_def set_trading_engine_state_def deliver_def
      split: option.splits)

text \<open>No request moves that cell: it keeps the value \<open>AppCx::new\<close> gave it, even when the engine has stopped or is suspended.\<close>

lemma deliver_te_state [simp]: "trading_engine_state (deliver env cmd st) = trading_engine_state st"
  by (auto simp: deliver_def trading_engine_state_def split: option.splits run.splits prod.splits control.splits)

lemma handle_open_te_state [simp]: "trading_engine_state (fst (handle_open env rq h st)) = trading_engine_state st"
  by (cases "handle_open env rq h st") (auto dest: handle_open_frame simp: trading_engine_state_def)

lemma serve_request_te_state: "trading_engine_state (fst (serve_request env rq st)) = trading_engine_state st"
proof -
  have orders: "trading_engine_state (fst (handle_trade_add env u a b st)) = trading_engine_state st"
    "trading_engine_state (fst (handle_trade_cancel env u a c st)) = trading_engine_state st"
    "trading_engine_state (fst (handle_balance env u t cur st)) = trading_engine_state st"
    "trading_engine_state (fst (on_users st r)) = trading_engine_state st"
    "trading_engine_state (fst (rejected env st)) = trading_engine_state st" for u a b c t cur r
    by (simp_all add: handle_trade_add_def handle_trade_cancel_def handle_balance_def on_users_def rejected_def split_beta)
      (simp_all add: trading_engine_state_def)
  have "trading_engine_state (fst (handle_session env rq h params u st)) = trading_engine_state st" for h params u
    by (auto simp: handle_session_def orders split: Handler.splits RequestBody.splits option.splits)
  then show ?thesis
    by (auto simp: serve_request_def validate_session_token_def validate_session_token_or_redirect_def
        split: Target.splits Layer.splits result.splits)
qed

end
