(* ===== verification/Startup.thy ===== *)
theory Startup
  imports Server
begin

text \<open>
  Configuration and the life of the process: \<open>config.rs\<close>, the template directory of \<open>jinja.rs\<close>, and \<open>start_fullstack\<close> in \<open>lib.rs\<close>, which
  connects, recovers the engine, serves until the first of four events and then shuts the engine down. The parsers of addresses, endpoints
  and TOML are parameters.
\<close>

section \<open>Configuration\<close>

text \<open>The process environment, and socket addresses.\<close>

type_synonym environment = "string \<rightharpoonup> string"

datatype SocketAddr = SocketAddrV4 "8 word list" "16 word" | SocketAddrV6 "128 word" "16 word"

definition WEBSERVER_ADDRESS_DEFAULT_PORT :: "16 word" where
  "WEBSERVER_ADDRESS_DEFAULT_PORT = 3000"

definition WEBSERVER_ADDRESS_DEFAULT :: SocketAddr where
  "WEBSERVER_ADDRESS_DEFAULT = SocketAddrV4 [0, 0, 0, 0] WEBSERVER_ADDRESS_DEFAULT_PORT"

definition webserver_address :: "(string \<Rightarrow> SocketAddr option) \<Rightarrow> environment \<Rightarrow> SocketAddr" where
  "webserver_address parse env =
     (case Option.bind (env ''WEBSERVER_ADDRESS'') parse of Some a \<Rightarrow> a | None \<Rightarrow> WEBSERVER_ADDRESS_DEFAULT)"

definition database_url :: "environment \<Rightarrow> string run" where
  "database_url env =
     (case env ''DATABASE_URL'' of Some v \<Rightarrow> Ret v | None \<Rightarrow> Panic (ExplicitPanic ''DATABASE_URL env var not set''))"

definition config_file_path :: "environment \<Rightarrow> string option" where
  "config_file_path env = env ''CONFIG_FILE_PATH''"

definition default_te_channel_capacity :: nat where
  "default_te_channel_capacity = 1024"

definition bitcoin_rpc_url :: "environment \<Rightarrow> string run" where
  "bitcoin_rpc_url env =
     (case env ''BITCOIN_RPC_URL'' of Some v \<Rightarrow> Ret v | None \<Rightarrow> Panic (ExplicitPanic ''BITCOIN_RPC_URL env var not set''))"

definition default_bitcoin_grpc_endpoint :: string where
  "default_bitcoin_grpc_endpoint = ''http://[::1]:50051''"

definition bitcoin_grpc_url :: "environment \<Rightarrow> string run" where
  "bitcoin_grpc_url env =
     (case env ''BITCOIN_RPC_URL'' of Some v \<Rightarrow> Ret v | None \<Rightarrow> Panic (ExplicitPanic ''BITCOIN_RPC_URL env var not set''))"

definition BITCOIN_GRPC_BIND_ADDR_DEFAULT :: string where
  "BITCOIN_GRPC_BIND_ADDR_DEFAULT = ''0.0.0.0:50051''"

definition bitcoin_grpc_bind_url_default :: "(string \<Rightarrow> SocketAddr option) \<Rightarrow> SocketAddr run" where
  "bitcoin_grpc_bind_url_default parse =
     expect ''called Result::unwrap on an Err value'' (parse BITCOIN_GRPC_BIND_ADDR_DEFAULT)"

text \<open>An endpoint is the text of its URI; \<open>from_shared\<close> tells which texts are accepted.\<close>

definition de_grpc_endpoint :: "(string \<Rightarrow> bool) \<Rightarrow> string \<Rightarrow> string option" where
  "de_grpc_endpoint from_shared st = (if from_shared st then Some st else None)"

record Configuration =
  webserver_bind_addr :: SocketAddr
  cf_database_url :: string
  te_channel_capacity :: nat
  eth_wallet_mnemonic :: "string option"
  cf_bitcoin_rpc_url :: string
  bitcoin_rpc_auth_user :: string
  bitcoin_rpc_auth_password :: string
  bitcoin_wallet_name :: string
  bitcoin_grpc_endpoint :: string
  bitcoin_grpc_bind_addr :: SocketAddr
  cf_jinja_template_dir :: "string option"
  cf_fe_web_dir :: "string option"

text \<open>The same fields as the TOML file gives them: each may be missing. Fields with a \<open>serde\<close> default take it then.\<close>

record ConfigFile =
  t_webserver_bind_addr :: "SocketAddr option"
  t_database_url :: "string option"
  t_te_channel_capacity :: "nat option"
  t_eth_wallet_mnemonic :: "string option"
  t_bitcoin_rpc_url :: "string option"
  t_bitcoin_rpc_auth_user :: "string option"
  t_bitcoin_rpc_auth_password :: "string option"
  t_bitcoin_wallet_name :: "string option"
  t_bitcoin_grpc_endpoint :: "string option"
  t_bitcoin_grpc_bind_addr :: "SocketAddr option"
  t_jinja_template_dir :: "string option"
  t_fe_web_dir :: "string option"

definition or_default :: "'a option \<Rightarrow> 'a run \<Rightarrow> 'a run" where
  "or_default v d = (case v of Some x \<Rightarrow> Ret x | None \<Rightarrow> d)"

text \<open>The derived deserialisation: \<open>None\<close> when the endpoint of the file is not accepted.\<close>

definition Configuration_deserialize ::
  "(string \<Rightarrow> SocketAddr option) \<Rightarrow> (string \<Rightarrow> bool) \<Rightarrow> environment \<Rightarrow> ConfigFile \<Rightarrow> Configuration option run" where
  "Configuration_deserialize parse from_shared env f =
     (if (case t_bitcoin_grpc_endpoint f of Some st \<Rightarrow> de_grpc_endpoint from_shared st = None | None \<Rightarrow> False) then Ret None
      else
        bind_run (or_default (t_webserver_bind_addr f) (Ret (webserver_address parse env))) (\<lambda>addr.
        bind_run (or_default (t_database_url f) (database_url env)) (\<lambda>db_url.
        bind_run (or_default (t_bitcoin_rpc_url f) (bitcoin_rpc_url env)) (\<lambda>rpc_url.
        bind_run (or_default (t_bitcoin_grpc_bind_addr f) (bitcoin_grpc_bind_url_default parse)) (\<lambda>bind_addr.
        Ret (Some
          \<lparr>webserver_bind_addr = addr,
           cf_database_url = db_url,
           te_channel_capacity = (case t_te_channel_capacity f of Some n \<Rightarrow> n | None \<Rightarrow> default_te_channel_capacity),
           eth_wallet_mnemonic = t_eth_wallet_mnemonic f,
           cf_bitcoin_rpc_url = rpc_url,
           bitcoin_rpc_auth_user = (case t_bitcoin_rpc_auth_user f of Some s \<Rightarrow> s | None \<Rightarrow> []),
           bitcoin_rpc_auth_password = (case t_bitcoin_rpc_auth_password f of Some s \<Rightarrow> s | None \<Rightarrow> []),
           bitcoin_wallet_name = (case t_bitcoin_wallet_name f of Some s \<Rightarrow> s | None \<Rightarrow> []),
           bitcoin_grpc_endpoint = (case t_bitcoin_grpc_endpoint f of Some s \<Rightarrow> s | None \<Rightarrow> default_bitcoin_grpc_endpoint),
           bitcoin_grpc_bind_addr = bind_addr,
           cf_jinja_template_dir = t_jinja_template_dir f,
           cf_fe_web_dir = t_fe_web_dir f\<rparr>))))))"

text \<open>\<open>toml\<close> reads the text of a file, \<open>read\<close> the text at a path.\<close>

definition load_from_toml ::
  "(string \<Rightarrow> SocketAddr option) \<Rightarrow> (string \<Rightarrow> bool) \<Rightarrow> (string \<Rightarrow> ConfigFile option) \<Rightarrow> environment \<Rightarrow> string \<Rightarrow> Configuration run" where
  "load_from_toml parse from_shared toml env st =
     bind_run (expect ''Failed to parse config file'' (toml st)) (\<lambda>f.
     bind_run (Configuration_deserialize parse from_shared env f) (expect ''Failed to parse config file''))"

definition load_from_path ::
  "(string \<Rightarrow> SocketAddr option) \<Rightarrow> (string \<Rightarrow> bool) \<Rightarrow> (string \<Rightarrow> ConfigFile option) \<Rightarrow> (string \<Rightarrow> string option) \<Rightarrow> environment \<Rightarrow>
   string \<Rightarrow> Configuration option run" where
  "load_from_path parse from_shared toml read env path =
     (case Option.bind (read path) toml of
        None \<Rightarrow> Ret None
      | Some f \<Rightarrow> Configuration_deserialize parse from_shared env f)"

definition bitcoin_rpc_auth :: "Configuration \<Rightarrow> string \<times> string" where
  "bitcoin_rpc_auth c = (bitcoin_rpc_auth_user c, bitcoin_rpc_auth_password c)"

definition jinja_template_dir :: "environment \<Rightarrow> Configuration \<Rightarrow> string run" where
  "jinja_template_dir env c =
     or_default (cf_jinja_template_dir c) (expect ''called Result::unwrap on an Err value'' (env ''JINJA_TEMPLATE_DIR''))"

definition fe_web_dir :: "environment \<Rightarrow> Configuration \<Rightarrow> string run" where
  "fe_web_dir env c =
     or_default (cf_fe_web_dir c) (expect ''called Result::unwrap on an Err value'' (env ''FE_WEB_DIR''))"

section \<open>Starting and stopping\<close>

text \<open>A future that resolves, or one that never does.\<close>

datatype 'a future = Ready 'a | Never

text \<open>Signals (\<open>signal.rs\<close>): registering the handler may fail, and the stream of signals may end.\<close>

datatype SignalSource = Tokio

record Signals =
  ctrl_c_source :: SignalSource

definition from_host_os :: Signals where
  "from_host_os = \<lparr>ctrl_c_source = Tokio\<rparr>"

definition ctrl_c :: "Signals \<Rightarrow> bool \<Rightarrow> unit option future \<Rightarrow> (unit, unit) result future run" where
  "ctrl_c s registers recv =
     (case ctrl_c_source s of
        Tokio \<Rightarrow>
          if \<not> registers then Panic (ExpectFailed ''failed to register signal handler'')
          else Ret (case recv of Never \<Rightarrow> Never | Ready (Some _) \<Rightarrow> Ready (Ok ()) | Ready None \<Rightarrow> Ready (Err ())))"

text \<open>\<open>web::serve\<close>: bind, then serve until axum returns.\<close>

datatype ServeError = Axum | ServeIo

definition serve :: "bool \<Rightarrow> (unit, unit) result future \<Rightarrow> (unit, ServeError) result future" where
  "serve binds app =
     (if \<not> binds then Ready (Err ServeIo)
      else case app of Never \<Rightarrow> Never | Ready (Ok _) \<Rightarrow> Ready (Ok ()) | Ready (Err _) \<Rightarrow> Ready (Err Axum))"

text \<open>\<open>automatic_shutdown\<close>: the seconds after which it resolves, with debug assertions.\<close>

definition AUTOMATIC_SHUTDOWN_AFTER_DUR :: nat where
  "AUTOMATIC_SHUTDOWN_AFTER_DUR = 300"

definition automatic_shutdown :: "bool \<Rightarrow> nat future" where
  "automatic_shutdown debug_assertions = (if debug_assertions then Ready AUTOMATIC_SHUTDOWN_AFTER_DUR else Never)"

text \<open>\<open>mpsc::channel\<close> panics on a capacity of zero.\<close>

definition spawn_trading_engine :: "Configuration \<Rightarrow> unit run" where
  "spawn_trading_engine config =
     (if te_channel_capacity config = 0 then Panic (ExpectFailed ''mpsc bounded channel requires buffer > 0'') else Ret ())"

datatype StartFullstackError = Webserver ServeError | StartDatabase | BitcoinRpc | Interrupted

text \<open>The branches of \<open>select!\<close> and what the first one to resolve yields.\<close>

datatype event = ServeReturned "(unit, ServeError) result" | EngineFinished | AutoShutdown | CtrlC "(unit, unit) result"

text \<open>What connecting, reading the event table and registering the signal handler yield. \<open>rows\<close> is \<open>None\<close> when the query fails.\<close>

record 'j boot =
  db_connects :: bool
  btc_connects :: bool
  boot_rows :: "'j list option"
  boot_world :: world
  sigint_registers :: bool
  sigint_recv :: "unit option future"
  web_binds :: bool
  web_app :: "(unit, unit) result future"

text \<open>The events that can happen.\<close>

definition possible_event :: "bool \<Rightarrow> Signals \<Rightarrow> 'j boot \<Rightarrow> event \<Rightarrow> bool" where
  "possible_event debug_assertions signals b ev \<longleftrightarrow>
     (case ev of
        ServeReturned res \<Rightarrow> serve (web_binds b) (web_app b) = Ready res
      | EngineFinished \<Rightarrow> True
      | AutoShutdown \<Rightarrow> automatic_shutdown debug_assertions \<noteq> Never
      | CtrlC res \<Rightarrow> ctrl_c signals (sigint_registers b) (sigint_recv b) = Ret (Ready res))"

definition event_result :: "('j Supervisor \<times> bool) run \<Rightarrow> event \<Rightarrow> (unit, StartFullstackError) result future" where
  "event_result engine ev =
     (case ev of
        ServeReturned (Ok _) \<Rightarrow> Ready (Ok ())
      | ServeReturned (Err e) \<Rightarrow> Ready (Err (Webserver e))
      | EngineFinished \<Rightarrow>
          (case engine of
             Panic _ \<Rightarrow> Ready (Err Interrupted)
           | Ret (_, True) \<Rightarrow> Ready (Ok ())
           | Ret (_, False) \<Rightarrow> Never)
      | AutoShutdown \<Rightarrow> Ready (Ok ())
      | CtrlC _ \<Rightarrow> Ready (Err Interrupted))"

text \<open>The end of \<open>start_fullstack\<close>: unless the engine task is finished, send \<open>Shutdown\<close> and wait for the task. The sender is still alive, so a
  task that does not leave its loop at \<open>Shutdown\<close> is waited for in vain.\<close>

definition graceful_shutdown :: "bool \<Rightarrow> 'j codec \<Rightarrow> world \<Rightarrow> ('j Supervisor \<times> bool) run \<Rightarrow> 'r \<Rightarrow> 'r future" where
  "graceful_shutdown oc cd w engine res =
     (case engine of
        Panic _ \<Rightarrow> Ready res
      | Ret (_, True) \<Rightarrow> Ready res
      | Ret (st, False) \<Rightarrow>
          (case supervisor_step oc cd w Shutdown st of
             Panic _ \<Rightarrow> Ready res
           | Ret (_, Break) \<Rightarrow> Ready res
           | Ret (_, Continue) \<Rightarrow> Never))"

text \<open>\<open>rx\<close> are the commands the engine received from the web server before the event.\<close>

definition start_fullstack ::
  "bool \<Rightarrow> 'j codec \<Rightarrow> environment \<Rightarrow> Configuration \<Rightarrow> Signals \<Rightarrow> 'j boot \<Rightarrow> (TradingEngineCmd \<times> world) list \<Rightarrow> event \<Rightarrow>
   (unit, StartFullstackError) result run future" where
  "start_fullstack oc cd env config signals b rx ev =
     (if \<not> db_connects b then Ready (Ret (Err StartDatabase))
      else if \<not> btc_connects b then Ready (Ret (Err BitcoinRpc))
      else case spawn_trading_engine config of
        Panic p \<Rightarrow> Ready (Panic p)
      | Ret _ \<Rightarrow>
        (case boot_rows b of
           None \<Rightarrow> Ready (Ret (Err StartDatabase))
         | Some rows \<Rightarrow>
             (case init_from_db cd rows of
                Panic p \<Rightarrow> Ready (Panic p)
              | Ret cmds \<Rightarrow>
                  (case bind_run (jinja_template_dir env config) (\<lambda>_. bind_run (fe_web_dir env config) (\<lambda>_.
                          ctrl_c signals (sigint_registers b) (sigint_recv b))) of
                     Panic p \<Rightarrow> Ready (Panic p)
                   | Ret _ \<Rightarrow>
                       (let engine = trading_engine_supervisor oc cd (map (\<lambda>c. (c, boot_world b)) cmds @ rx) (supervisor_init rows) in
                        case event_result engine ev of
                          Never \<Rightarrow> Never
                        | Ready res \<Rightarrow> graceful_shutdown oc cd (boot_world b) engine (Ret res))))))"

section \<open>Properties\<close>

text \<open>The documentation of \<open>jinja_template_dir\<close> names a default directory; the code panics without the variable.\<close>

lemma template_dir_has_no_default:
  "cf_jinja_template_dir c = None \<Longrightarrow> env ''JINJA_TEMPLATE_DIR'' = None \<Longrightarrow> \<not> returns (jinja_template_dir env c)"
  by (simp add: jinja_template_dir_def or_default_def)

text \<open>Reading the configuration fails without a message of its own exactly when one of the two addresses without a default is neither in the file nor in the environment.\<close>

lemma Configuration_deserialize_panics:
  assumes "parse BITCOIN_GRPC_BIND_ADDR_DEFAULT \<noteq> None" and "t_bitcoin_grpc_endpoint f = None"
  shows "\<not> returns (Configuration_deserialize parse from_shared env f) \<longleftrightarrow>
    (t_database_url f = None \<and> env ''DATABASE_URL'' = None) \<or> (t_bitcoin_rpc_url f = None \<and> env ''BITCOIN_RPC_URL'' = None)"
  using assms
  by (cases "t_database_url f"; cases "t_bitcoin_rpc_url f"; cases "env ''DATABASE_URL''"; cases "env ''BITCOIN_RPC_URL''";
      cases "t_bitcoin_grpc_bind_addr f"; cases "t_webserver_bind_addr f")
    (auto simp: Configuration_deserialize_def or_default_def database_url_def bitcoin_rpc_url_def bitcoin_grpc_bind_url_default_def)

lemma supervisor_step_control:
  assumes "supervisor_step oc cd w cmd st = Ret (st', c)"
  shows "c = Break \<longleftrightarrow> running st \<and> cmd = Shutdown" and "running st' \<longleftrightarrow> running st \<and> cmd \<noteq> Suspend"
  using assms
  by (auto simp: supervisor_step.simps try_event_log_def run_simps
      split: if_splits TradingEngineCmd.splits TradeCmd.splits TradeCmdPayload.splits option.splits)

text \<open>Whether a \<open>Suspend\<close> comes before the first \<open>Shutdown\<close>.\<close>

definition suspended_by :: "TradingEngineCmd list \<Rightarrow> bool" where
  "suspended_by cmds \<longleftrightarrow> Suspend \<in> set (takeWhile (\<lambda>c. c \<noteq> Shutdown) cmds)"

lemma suspended_by_Cons: "suspended_by (c # cs) \<longleftrightarrow> c \<noteq> Shutdown \<and> (c = Suspend \<or> suspended_by cs)"
  by (auto simp: suspended_by_def)

lemma supervisor_run_result:
  assumes "trading_engine_supervisor oc cd rx st = Ret (st', b)"
  shows "if running st \<and> \<not> suspended_by (map fst rx) then running st' \<and> (b \<longleftrightarrow> Shutdown \<in> set (map fst rx))
    else \<not> running st' \<and> \<not> b"
  using assms
proof (induction rx arbitrary: st)
  case (Cons x rx)
  obtain cmd w where x: "x = (cmd, w)" by (cases x)
  with Cons.prems obtain st1 c where st1: "supervisor_step oc cd w cmd st = Ret (st1, c)"
    and rest: "(case c of Break \<Rightarrow> Ret (st1, True) | Continue \<Rightarrow> trading_engine_supervisor oc cd rx st1) = Ret (st', b)"
    by (auto simp: run_simps)
  note ctl = supervisor_step_control [OF st1]
  show ?case
  proof (cases c)
    case Break
    with ctl rest x show ?thesis by (simp add: suspended_by_Cons)
  next
    case Continue
    with Cons.IH [of st1] rest ctl x show ?thesis by (auto simp: suspended_by_Cons split: if_splits)
  qed
qed (simp add: suspended_by_def)

lemma init_from_db_bootstraps:
  "init_from_db cd rows = Ret cmds \<Longrightarrow> length cmds = length rows \<and> (\<forall>c\<in>set cmds. \<exists>p. c = Bootstrap p)"
  by (induction rows arbitrary: cmds) (auto simp: run_simps)

lemma suspended_by_bootstrap: "\<forall>c\<in>set cmds. \<exists>p. c = Bootstrap p \<Longrightarrow> suspended_by (cmds @ cs) = suspended_by cs"
  by (induction cmds) (auto simp: suspended_by_Cons)

text \<open>The process ends after each of the events it waits for, unless the engine was suspended. When the connections are made, the event
  table decodes and the directories are configured, then once the web server returns, the debug timer runs out or the user interrupts,
  \<open>start_fullstack\<close> sends \<open>Shutdown\<close> and returns the event's result, for any fewer than 2^32 commands before;
  but after a \<open>Suspend\<close> that no \<open>Shutdown\<close> precedes it waits for the engine for ever.\<close>

lemma start_fullstack_returns:
  assumes "db_connects b" and "btc_connects b" and "boot_rows b = Some rows" and "init_from_db cd rows = Ret cmds"
    and "returns (jinja_template_dir env config)" and "returns (fe_web_dir env config)" and "sigint_registers b" and "0 < te_channel_capacity config"
    and "length rows + length rx < 2 ^ 32 - 1" and "ev \<noteq> EngineFinished"
  shows "start_fullstack oc cd env config signals b rx ev =
    (if suspended_by (map fst rx) then Never
     else Ready (Ret (case ev of
            ServeReturned (Err e) \<Rightarrow> Err (Webserver e)
          | CtrlC _ \<Rightarrow> Err Interrupted
          | _ \<Rightarrow> Ok ())))"
proof -
  let ?rx = "map (\<lambda>c. (c, boot_world b)) cmds @ rx"
  note boot = init_from_db_bootstraps [OF assms(4)]
  have "length ?rx < 2 ^ 32" using boot assms(9) by simp
  with supervisor_run [OF te_inv_init, of ?rx oc cd rows] obtain st fin where
    run: "trading_engine_supervisor oc cd ?rx (supervisor_init rows) = Ret (st, fin)" by auto
  have "map fst ?rx = cmds @ map fst rx" by (simp add: comp_def)
  then have "suspended_by (map fst ?rx) = suspended_by (map fst rx)"
    using suspended_by_bootstrap boot by simp
  with supervisor_run_result [OF run] have
    ctl: "if suspended_by (map fst rx) then \<not> running st \<and> \<not> fin else running st"
    by (simp add: supervisor_init_def split: if_splits)
  have shut: "supervisor_step oc cd w Shutdown st = Ret (st, if running st then Break else Continue)" for w
    by (simp add: supervisor_step.simps)
  obtain dir where "bind_run (jinja_template_dir env config) (\<lambda>_. bind_run (fe_web_dir env config) (\<lambda>_.
      ctrl_c signals (sigint_registers b) (sigint_recv b))) = Ret dir"
    using assms(5-7) by (cases "jinja_template_dir env config"; cases "fe_web_dir env config"; cases "ctrl_c_source signals") (auto simp: ctrl_c_def)
  with assms(1-4,8,10) run ctl shut show ?thesis
    by (cases fin; cases ev)
      (auto simp: start_fullstack_def spawn_trading_engine_def event_result_def graceful_shutdown_def Let_def split: result.splits if_splits)
qed

definition sample_config :: Configuration where
  "sample_config = \<lparr>webserver_bind_addr = WEBSERVER_ADDRESS_DEFAULT, cf_database_url = ''db'', te_channel_capacity = 1024,
     eth_wallet_mnemonic = None, cf_bitcoin_rpc_url = ''rpc'', bitcoin_rpc_auth_user = [], bitcoin_rpc_auth_password = [],
     bitcoin_wallet_name = [], bitcoin_grpc_endpoint = default_bitcoin_grpc_endpoint, bitcoin_grpc_bind_addr = WEBSERVER_ADDRESS_DEFAULT,
     cf_jinja_template_dir = Some ''templates'', cf_fe_web_dir = Some ''www''\<rparr>"

definition sample_boot :: "TradeCmdPayload boot" where
  "sample_boot = \<lparr>db_connects = True, btc_connects = True,
     boot_rows = Some [PayloadPlaceOrder (sample_buy GoodTilCanceled 70)], boot_world = sample_world True, sigint_registers = True,
     sigint_recv = Never, web_binds = True, web_app = Never\<rparr>"

end
