(* ===== verification/Json_Args.thy ===== *)
theory Json_Args
  imports Prelude "HOL-Library.Char_ord" "HOL-Library.List_Lexorder"
begin

text \<open>
  JSON values and the argument lists of JSON-RPC calls (\<open>bitcoin/rpc.rs\<close>, the free functions).
  \<open>handle_defaults\<close> is the source's backward loop over the optional arguments; it is shown equal to a declarative
  reading of its documentation, and its panic is characterised by the table of defaults.
\<close>

section \<open>Values\<close>

text \<open>The entries of an object are kept in the order of the keys, as \<open>serde_json::Map\<close> does. \<open>Float\<close> carries the
  bits of an \<open>f64\<close>, which the client only passes on.\<close>

datatype json =
    Null
  | Bool bool
  | Number int
  | Float "64 word"
  | Str string
  | Array "json list"
  | Object "(string \<times> json) list"

definition map_insert :: "string \<Rightarrow> 'v \<Rightarrow> (string \<times> 'v) list \<Rightarrow> (string \<times> 'v) list" where
  "map_insert k v m = insort_key fst (k, v) (filter (\<lambda>e. fst e \<noteq> k) m)"

definition map_remove :: "string \<Rightarrow> (string \<times> 'v) list \<Rightarrow> (string \<times> 'v) list" where
  "map_remove k m = filter (\<lambda>e. fst e \<noteq> k) m"

definition map_from_iter :: "(string \<times> 'v) list \<Rightarrow> (string \<times> 'v) list" where
  "map_from_iter es = fold (\<lambda>(k, v). map_insert k v) es []"

lemma map_of_map_remove [simp]: "map_of (map_remove k m) = (map_of m)(k := None)"
  by (induction m) (auto simp: map_remove_def)

lemma map_of_insort: "k \<notin> fst ` set m \<Longrightarrow> map_of (insort_key fst (k, v) m) = (map_of m)(k \<mapsto> v)"
  by (induction m) (auto simp: fun_upd_twist)

lemma map_of_map_insert [simp]: "map_of (map_insert k v m) = (map_of m)(k \<mapsto> v)"
proof -
  have "k \<notin> fst ` set (filter (\<lambda>e. fst e \<noteq> k) m)" by auto
  from map_of_insort [OF this] show ?thesis
    using map_of_map_remove [of k m] by (simp add: map_insert_def map_remove_def)
qed

lemma map_of_rev_distinct: "distinct (map fst m) \<Longrightarrow> map_of (rev m) = map_of m"
  by (rule map_of_eqI) (auto simp: rev_map [symmetric] distinct_rev image_image)

section \<open>Errors\<close>

text \<open>The client's error type. The payloads are values of the libraries that failed, which the client only wraps.\<close>

datatype Error =
    JsonRpc
  | Hex
  | Json
  | BitcoinSerialization
  | Secp256k1
  | Io
  | InvalidAmount
  | InvalidCookieFile
  | UnexpectedStructure

text \<open>\<open>Display\<close> and the cause of an error; \<open>text\<close> prints the payload.\<close>

definition Error_fmt :: "(Error \<Rightarrow> string) \<Rightarrow> Error \<Rightarrow> string" where
  "Error_fmt text e =
     (case e of
        JsonRpc \<Rightarrow> ''JSON-RPC error: '' @ text e
      | Hex \<Rightarrow> ''hex decode error: '' @ text e
      | Json \<Rightarrow> ''JSON error: '' @ text e
      | BitcoinSerialization \<Rightarrow> ''Bitcoin serialization error: '' @ text e
      | Secp256k1 \<Rightarrow> ''secp256k1 error: '' @ text e
      | Io \<Rightarrow> ''I/O error: '' @ text e
      | InvalidAmount \<Rightarrow> ''invalid amount: '' @ text e
      | InvalidCookieFile \<Rightarrow> ''invalid cookie file''
      | UnexpectedStructure \<Rightarrow> ''the JSON result had an unexpected structure'')"

definition Error_cause :: "(Error \<Rightarrow> string) \<Rightarrow> Error \<Rightarrow> string option" where
  "Error_cause text e =
     (case e of
        JsonRpc \<Rightarrow> Some (text e)
      | Json \<Rightarrow> Some (text e)
      | BitcoinSerialization \<Rightarrow> Some (text e)
      | Secp256k1 \<Rightarrow> Some (text e)
      | Io \<Rightarrow> Some (text e)
      | _ \<Rightarrow> None)"

text \<open>Whatever the payloads print, the text of an error tells its kind; a cause is the text behind the prefix.\<close>

lemma Error_fmt_kind: "Error_fmt text e = Error_fmt text' e' \<Longrightarrow> e = e'"
  by (cases e; cases e') (simp_all add: Error_fmt_def)

lemma Error_cause_suffix: "Error_cause text e = Some c \<Longrightarrow> \<exists>p. Error_fmt text e = p @ c"
  by (cases e) (simp_all add: Error_fmt_def Error_cause_def)

text \<open>Two errors that wrap another one do not report it.\<close>

lemma Error_cause_misses:
  "Error_cause text e = None \<longleftrightarrow> e \<in> {Hex, InvalidAmount, InvalidCookieFile, UnexpectedStructure}"
  by (cases e) (simp_all add: Error_cause_def)

definition bind_result :: "('a, 'e) result \<Rightarrow> ('a \<Rightarrow> ('b, 'e) result) \<Rightarrow> ('b, 'e) result" where
  "bind_result r f = (case r of Ok x \<Rightarrow> f x | Err e \<Rightarrow> Err e)"

definition ok_or :: "'e \<Rightarrow> 'a option \<Rightarrow> ('a, 'e) result" where
  "ok_or e v = (case v of None \<Rightarrow> Err e | Some x \<Rightarrow> Ok x)"

section \<open>Arguments\<close>

text \<open>
  What \<open>serde_json::to_value\<close> makes of a value: \<open>None\<close> when serialising fails. The values of types of
  the bitcoin libraries enter the client only through it, so they are represented by it.
\<close>

type_synonym serialized = "json option"

definition of_str :: "string \<Rightarrow> serialized" where "of_str s = Some (Str s)"

definition of_bool :: "bool \<Rightarrow> serialized" where "of_bool b = Some (Bool b)"

definition of_u64 :: "u64 \<Rightarrow> serialized" where "of_u64 w = Some (Number (uint w))"

definition of_u32 :: "u32 \<Rightarrow> serialized" where "of_u32 w = Some (Number (uint w))"

definition of_i64 :: "i64 \<Rightarrow> serialized" where "of_i64 w = Some (Number (sint w))"

text \<open>A slice or vector serialises when its elements do.\<close>

definition of_slice :: "('a \<Rightarrow> serialized) \<Rightarrow> 'a list \<Rightarrow> serialized" where
  "of_slice ser xs = map_option Array (those (map ser xs))"

definition into_json :: "serialized \<Rightarrow> (json, Error) result" where
  "into_json v = (case v of Some j \<Rightarrow> Ok j | None \<Rightarrow> Err Json)"

definition opt_into_json :: "serialized option \<Rightarrow> (json, Error) result" where
  "opt_into_json opt =
     (case opt of
        Some val \<Rightarrow> bind_result (into_json val) (\<lambda>j. Ok j)
      | None \<Rightarrow> Ok Null)"

definition null :: json where "null = Null"

definition empty_arr :: json where "empty_arr = Array []"

definition empty_obj :: json where "empty_obj = Object []"

text \<open>An array literal whose elements end in \<open>?\<close>: the first error leaves the function.\<close>

fun array_of :: "(json, Error) result list \<Rightarrow> (json list, Error) result" where
  "array_of [] = Ok []"
| "array_of (r # rs) = bind_result r (\<lambda>x. bind_result (array_of rs) (\<lambda>xs. Ok (x # xs)))"

text \<open>The loop \<open>for i in 0..defaults.len()\<close>, on the remaining indices, the arguments as modified so far and the
  index of the last argument given.\<close>

fun handle_defaults_loop :: "json list \<Rightarrow> nat list \<Rightarrow> json list \<Rightarrow> nat option \<Rightarrow> (json list \<times> nat option) run" where
  "handle_defaults_loop defaults [] args first_non_null = Ret (args, first_non_null)"
| "handle_defaults_loop defaults (i # is) args first_non_null =
     (let args_i = length args - 1 - i; defaults_i = length defaults - 1 - i in
      if args ! args_i = Null then
        (if first_non_null \<noteq> None then
           (if defaults ! defaults_i = Null then Panic (ExplicitPanic ''Missing default for argument'')
            else handle_defaults_loop defaults is (args[args_i := defaults ! defaults_i]) first_non_null)
         else handle_defaults_loop defaults is args first_non_null)
      else if first_non_null = None then handle_defaults_loop defaults is args (Some args_i)
      else handle_defaults_loop defaults is args first_non_null)"

definition handle_defaults :: "json list \<Rightarrow> json list \<Rightarrow> json list run" where
  "handle_defaults args defaults =
     bind_run (assert_run (length args \<ge> length defaults)) (\<lambda>_.
     bind_run (handle_defaults_loop defaults [0..<length defaults] args None) (\<lambda>(args', first_non_null).
     let required_num = length args' - length defaults in
     Ret (case first_non_null of
            Some i \<Rightarrow> take (i + 1) args'
          | None \<Rightarrow> take required_num args')))"

text \<open>A null result of a call that may have none.\<close>

definition opt_result :: "(json \<Rightarrow> 'a option) \<Rightarrow> json \<Rightarrow> ('a option, Error) result" where
  "opt_result from_json res =
     (if res = Null then Ok None
      else case from_json res of Some x \<Rightarrow> Ok (Some x) | None \<Rightarrow> Err Json)"

section \<open>What the defaults do\<close>

text \<open>The arguments up to the last one given.\<close>

definition given :: "json list \<Rightarrow> json list" where
  "given xs = rev (dropWhile (\<lambda>j. j = Null) (rev xs))"

definition fill :: "json \<Rightarrow> json \<Rightarrow> json" where
  "fill a d = (if a = Null then d else a)"

text \<open>The documentation of \<open>handle_defaults\<close> on the optional arguments and their defaults.\<close>

definition with_defaults :: "json list \<Rightarrow> json list \<Rightarrow> json list" where
  "with_defaults os ds = map2 fill (given os) ds"

definition missing_default :: "json list \<Rightarrow> json list \<Rightarrow> bool" where
  "missing_default os ds \<longleftrightarrow> (Null, Null) \<in> set (zip (given os) ds)"


lemma given_simps [simp]:
  "given [] = []" "given (xs @ [Null]) = given xs" "x \<noteq> Null \<Longrightarrow> given (xs @ [x]) = xs @ [x]"
  by (simp_all add: given_def)

lemma length_given: "length (given xs) \<le> length xs"
  by (simp add: given_def) (metis length_dropWhile_le length_rev)

lemma fill_id: "x \<noteq> Null \<Longrightarrow> fill x d = x"
  by (simp add: fill_def)

lemma snoc_split: "length (xs @ [x]) = length ys \<Longrightarrow> \<exists>ys' y. ys = ys' @ [y] \<and> length ys' = length xs"
  by (cases ys rule: rev_cases) auto

lemma upt_split: "[n..<Suc m + n] = n # [Suc n..<m + Suc n]"
  using upt_conv_Cons [of n "Suc m + n"] by simp

text \<open>Once an argument has been given, every earlier null one is replaced.\<close>

lemma handle_defaults_loop_filling:
  assumes "length os = length ds" and "length zs = length ds'"
  shows "handle_defaults_loop (ds @ ds') [length ds'..<length ds + length ds'] (rs @ os @ zs) (Some f) =
    (if (Null, Null) \<in> set (zip os ds) then Panic (ExplicitPanic ''Missing default for argument'')
     else Ret (rs @ map2 fill os ds @ zs, Some f))"
  using assms
proof (induction os arbitrary: ds ds' zs rule: rev_induct)
  case (snoc x os)
  then obtain e d where ds: "ds = e @ [d]" "length e = length os" using snoc_split by metis
  have upt: "[length ds'..<length ds + length ds'] = length ds' # [length (d # ds')..<length e + length (d # ds')]"
    using upt_split [of "length ds'" "length e"] ds(1) by simp
  have at: "(rs @ os @ x # zs) ! (length rs + length os) = x" "(e @ d # ds') ! length e = d"
    "(rs @ os @ x # zs)[length rs + length os := y] = rs @ os @ y # zs" for y
    by (simp_all add: nth_append list_update_append)
  show ?case
    using snoc.IH [of e "fill x d # zs" "d # ds'"] snoc.prems ds upt at
    by (auto simp: Let_def fill_def zip_append)
qed simp

lemma handle_defaults_loop_spec:
  assumes "length os = length ds" and "length zs = length ds'"
  shows "handle_defaults_loop (ds @ ds') [length ds'..<length ds + length ds'] (rs @ os @ zs) None =
    (if given os = [] then Ret (rs @ os @ zs, None)
     else if missing_default os ds then Panic (ExplicitPanic ''Missing default for argument'')
     else Ret (rs @ with_defaults os ds @ drop (length (given os)) os @ zs, Some (length rs + length (given os) - 1)))"
  using assms
proof (induction os arbitrary: ds ds' zs rule: rev_induct)
  case (snoc x os)
  then obtain e d where ds: "ds = e @ [d]" "length e = length os" using snoc_split by metis
  have upt: "[length ds'..<length ds + length ds'] = length ds' # [length (d # ds')..<length e + length (d # ds')]"
    using upt_split [of "length ds'" "length e"] ds(1) by simp
  have at: "(rs @ os @ x # zs) ! (length rs + length os) = x" "(e @ d # ds') ! length e = d"
    by (simp_all add: nth_append)
  show ?case
  proof (cases "x = Null")
    case True
    have "zip (given os) (e @ [d]) = zip (given os) e" using length_given [of os] ds(2) by (simp add: zip_append2)
    with True snoc.IH [of e "x # zs" "d # ds'"] snoc.prems ds upt at length_given [of os] show ?thesis
      by (simp add: Let_def missing_default_def with_defaults_def)
  next
    case False
    with handle_defaults_loop_filling [of os e "x # zs" "d # ds'" rs "length rs + length os"] snoc.prems ds upt at
    show ?thesis by (simp add: Let_def missing_default_def with_defaults_def fill_id zip_append)
  qed
qed simp


text \<open>\<open>handle_defaults\<close> on required arguments \<open>rs\<close> and optional ones \<open>os\<close>.\<close>

lemma handle_defaults_append:
  assumes "length os = length ds"
  shows "handle_defaults (rs @ os) ds =
    (if missing_default os ds then Panic (ExplicitPanic ''Missing default for argument'') else Ret (rs @ with_defaults os ds))"
proof (cases "given os = []")
  case True
  with handle_defaults_loop_spec [of os ds "[]" "[]" rs] assms show ?thesis
    by (simp add: handle_defaults_def missing_default_def with_defaults_def)
next
  case False
  then have pos: "0 < length (given os)" by simp
  have "length (with_defaults os ds) = length (given os)"
    using length_given [of os] assms by (simp add: with_defaults_def)
  with pos handle_defaults_loop_spec [of os ds "[]" "[]" rs] assms False show ?thesis
    by (simp add: handle_defaults_def)
qed

lemma set_zip_butlast:
  assumes "(Null, d) \<in> set (zip (given os) ds)" and "length os = length ds"
  shows "d \<in> set (butlast ds)"
proof (cases os rule: rev_cases)
  case (snoc os' x)
  with assms(2) obtain e d' where ds: "ds = e @ [d']" "length e = length os'" using snoc_split by metis
  have "(Null, d) \<in> set (zip os' e) \<or> (Null, d) \<in> set (zip (given os') e)"
    using assms(1) snoc ds length_given [of os'] by (cases "x = Null") (auto simp: zip_append2)
  then have "d \<in> set e" by (auto dest: set_zip_rightD)
  with ds show ?thesis by simp
qed (use assms in simp)

lemma handle_defaults_safe:
  assumes "Null \<notin> set (butlast ds)" and "length ds \<le> length args"
  shows "\<exists>xs. handle_defaults args ds = Ret xs"
proof -
  let ?n = "length args - length ds"
  have "\<not> missing_default (drop ?n args) ds"
    using set_zip_butlast [of Null "drop ?n args" ds] assms by (auto simp: missing_default_def)
  with handle_defaults_append [of "drop ?n args" ds "take ?n args"] assms show ?thesis by simp
qed

lemma handle_defaults_unsafe:
  assumes "Null \<in> set (butlast ds)"
  shows "\<not> returns (handle_defaults (replicate (length ds - 1) Null @ [Bool True]) ds)"
proof -
  let ?os = "replicate (length ds - 1) Null @ [Bool True]"
  have ds: "butlast ds @ [last ds] = ds" using assms by (intro append_butlast_last_id) auto
  have "(Null, Null) \<in> set (zip (replicate (length (butlast ds)) Null) (butlast ds))"
    using assms by (auto simp: in_set_zip in_set_conv_nth)
  moreover have "zip ?os ds = zip (replicate (length (butlast ds)) Null) (butlast ds) @ [(Bool True, last ds)]"
    by (subst (2) ds [symmetric]) (simp add: zip_append)
  ultimately have "missing_default ?os ds" by (simp add: missing_default_def)
  moreover have "length ?os = length ds" using assms by (cases ds) auto
  ultimately show ?thesis using handle_defaults_append [of ?os ds "[]"] by simp
qed

text \<open>C25: filling in the defaults of a call does what its documentation says. The optional arguments are the last ones,
  as many as there are defaults. With enough arguments the trailing optional arguments that are null are dropped, the null ones before
  the last one given are replaced by their default, and the required ones are passed on; the call panics exactly when such
  an argument has a null default, or when there are more defaults than arguments.\<close>

theorem handle_defaults_substitutes:
  "handle_defaults args ds =
     (let n = length args - length ds; os = drop n args in
      if length args < length ds then Panic AssertFailed
      else if missing_default os ds then Panic (ExplicitPanic ''Missing default for argument'')
      else Ret (take n args @ with_defaults os ds))"
proof (cases "length args < length ds")
  case True
  then show ?thesis by (simp add: handle_defaults_def)
next
  case False
  with handle_defaults_append [of "drop (length args - length ds) args" ds "take (length args - length ds) args"]
  show ?thesis by (simp add: Let_def)
qed

end
