(* ===== verification/Bitcoin_Rpc.thy ===== *)
theory Bitcoin_Rpc
  imports Json_Args
begin

text \<open>
  The JSON-RPC client of bitcoind (\<open>BitcoinCoreRpcHttp\<close> in \<open>bitcoin/rpc.rs\<close>), method by method. A method builds its arguments, sends
  one request and decodes the answer. The HTTP transport is the parameter \<open>net\<close> and the decoder of the answer's type is
  \<open>from_json\<close>. Addresses, keys and signatures that a method only prints are given by their text, other values of the bitcoin libraries by
  what \<open>serde\<close> makes of them; a transaction is a \<open>RawTx\<close>.
\<close>

section \<open>Requests\<close>

text \<open>The result in the answer to a command and its arguments; \<open>None\<close> when the transport fails or the answer is an error.\<close>

type_synonym transport = "string \<Rightarrow> json list \<Rightarrow> json option"

text \<open>Decoding to the type of the answer, and how a method ends: \<open>handle_defaults\<close> may panic.\<close>

type_synonym 'r decoder = "json \<Rightarrow> 'r option"

type_synonym 'r reply = "('r, Error) result run"

definition send_request :: "transport \<Rightarrow> 'r decoder \<Rightarrow> string \<Rightarrow> json list \<Rightarrow> ('r, Error) result" where
  "send_request net from_json cmd args = ok_or JsonRpc (Option.bind (net cmd args) from_json)"

text \<open>The two shapes of a method: with an array of arguments, and with defaults for the last ones.\<close>

definition call :: "transport \<Rightarrow> 'r decoder \<Rightarrow> string \<Rightarrow> (json, Error) result list \<Rightarrow> 'r reply" where
  "call net from_json cmd args = Ret (bind_result (array_of args) (send_request net from_json cmd))"

definition call_defaults ::
  "transport \<Rightarrow> 'r decoder \<Rightarrow> string \<Rightarrow> (json, Error) result list \<Rightarrow> (json, Error) result list \<Rightarrow> 'r reply" where
  "call_defaults net from_json cmd args defaults =
     (case array_of args of
        Err e \<Rightarrow> Ret (Err e)
      | Ok xs \<Rightarrow>
          (case array_of defaults of
             Err e \<Rightarrow> Ret (Err e)
           | Ok ds \<Rightarrow> bind_run (handle_defaults xs ds) (\<lambda>ys. Ret (send_request net from_json cmd ys))))"

definition and_then :: "'a reply \<Rightarrow> ('a \<Rightarrow> ('b, Error) result) \<Rightarrow> 'b reply" where
  "and_then r f = bind_run r (\<lambda>x. Ret (bind_result x f))"

text \<open>\<open>RawTx\<close>: what may be given for a transaction. A \<open>Transaction\<close> is given by its consensus encoding; \<open>to_hex\<close> writes
  bytes in hexadecimal.\<close>

datatype RawTx = Transaction string | Slice string | Vec string | StrRef string | OwnedString string

definition raw_hex :: "(string \<Rightarrow> string) \<Rightarrow> RawTx \<Rightarrow> string" where
  "raw_hex to_hex r =
     (case r of
        Transaction bytes \<Rightarrow> to_hex bytes
      | Slice bytes \<Rightarrow> to_hex bytes
      | Vec bytes \<Rightarrow> to_hex bytes
      | StrRef st \<Rightarrow> st
      | OwnedString st \<Rightarrow> st)"

section \<open>Wallets and the node\<close>

definition get_network_info :: "transport \<Rightarrow> 'r decoder \<Rightarrow> 'r reply" where
  "get_network_info net from_json =
     call net from_json ''getnetworkinfo'' []"

text \<open>\<open>from_json\<close> reads the field \<open>version\<close> of the answer.\<close>

definition version :: "transport \<Rightarrow> 'r decoder \<Rightarrow> 'r reply" where
  "version net from_json =
     call net from_json ''getnetworkinfo'' []"

definition add_multisig_address ::
  "transport \<Rightarrow> 'r decoder \<Rightarrow> u64 \<Rightarrow> serialized list \<Rightarrow> string option \<Rightarrow> serialized option \<Rightarrow>
   'r reply" where
  "add_multisig_address net from_json nrequired keys label address_type =
     call_defaults net from_json ''addmultisigaddress''
       [into_json (of_u64 nrequired), into_json (of_slice id keys), opt_into_json (map_option of_str label),
        opt_into_json address_type]
       [into_json (of_str []), Ok null]"

definition load_wallet :: "transport \<Rightarrow> 'r decoder \<Rightarrow> string \<Rightarrow> 'r reply" where
  "load_wallet net from_json wallet =
     call net from_json ''loadwallet'' [Ok (Str wallet)]"

definition unload_wallet :: "transport \<Rightarrow> 'r decoder \<Rightarrow> string option \<Rightarrow> 'r reply" where
  "unload_wallet net from_json wallet =
     call_defaults net from_json ''unloadwallet''
       [opt_into_json (map_option of_str wallet)]
       [Ok null]"

definition create_wallet ::
  "transport \<Rightarrow> 'r decoder \<Rightarrow> string \<Rightarrow> bool option \<Rightarrow> bool option \<Rightarrow> string option \<Rightarrow> bool option \<Rightarrow>
   'r reply" where
  "create_wallet net from_json wallet disable_private_keys blank passphrase avoid_reuse =
     call_defaults net from_json ''createwallet''
       [Ok (Str wallet), opt_into_json (map_option of_bool disable_private_keys), opt_into_json (map_option of_bool blank),
        opt_into_json (map_option of_str passphrase), opt_into_json (map_option of_bool avoid_reuse)]
       [Ok (Bool False), Ok (Bool False), into_json (of_str []), Ok (Bool False)]"

definition list_wallets :: "transport \<Rightarrow> 'r decoder \<Rightarrow> 'r reply" where
  "list_wallets net from_json =
     call net from_json ''listwallets'' []"

definition get_wallet_info :: "transport \<Rightarrow> 'r decoder \<Rightarrow> 'r reply" where
  "get_wallet_info net from_json =
     call net from_json ''getwalletinfo'' []"

definition backup_wallet :: "transport \<Rightarrow> 'r decoder \<Rightarrow> string option \<Rightarrow> 'r reply" where
  "backup_wallet net from_json destination =
     call_defaults net from_json ''backupwallet''
       [opt_into_json (map_option of_str destination)]
       [Ok null]"

definition dump_private_key :: "transport \<Rightarrow> 'r decoder \<Rightarrow> string \<Rightarrow> 'r reply" where
  "dump_private_key net from_json address =
     call net from_json ''dumpprivkey'' [Ok (Str address)]"

definition encrypt_wallet :: "transport \<Rightarrow> 'r decoder \<Rightarrow> string \<Rightarrow> 'r reply" where
  "encrypt_wallet net from_json passphrase =
     call net from_json ''encryptwallet'' [into_json (of_str passphrase)]"

definition get_difficulty :: "transport \<Rightarrow> 'r decoder \<Rightarrow> 'r reply" where
  "get_difficulty net from_json =
     call net from_json ''getdifficulty'' []"

definition get_connection_count :: "transport \<Rightarrow> 'r decoder \<Rightarrow> 'r reply" where
  "get_connection_count net from_json =
     call net from_json ''getconnectioncount'' []"

definition get_block_hex :: "transport \<Rightarrow> 'r decoder \<Rightarrow> serialized \<Rightarrow> 'r reply" where
  "get_block_hex net from_json block_hash =
     call net from_json ''getblock'' [into_json block_hash, Ok (Number 0)]"

definition get_block_info :: "transport \<Rightarrow> 'r decoder \<Rightarrow> serialized \<Rightarrow> 'r reply" where
  "get_block_info net from_json block_hash =
     call net from_json ''getblock'' [into_json block_hash, Ok (Number 1)]"

definition get_block_header_info :: "transport \<Rightarrow> 'r decoder \<Rightarrow> serialized \<Rightarrow> 'r reply" where
  "get_block_header_info net from_json block_hash =
     call net from_json ''getblockheader'' [into_json block_hash, Ok (Bool True)]"

definition get_mining_info :: "transport \<Rightarrow> 'r decoder \<Rightarrow> 'r reply" where
  "get_mining_info net from_json =
     call net from_json ''getmininginfo'' []"

text \<open>\<open>'st\<close> and \<open>'sx\<close> are the status and the statistics of the bitcoin library,
 \<open>'i\<close> the fields of the answer other than the soft forks.\<close>

record ('st, 'sx) OldBip9SoftFork =
  old_status :: 'st
  old_bit :: "8 word option"
  old_start_time :: i64
  old_timeout :: u64
  old_since :: u32
  old_statistics :: "'sx option"

record ('st, 'sx) Bip9SoftforkInfo =
  b9_status :: 'st
  b9_bit :: "8 word option"
  b9_start_time :: i64
  b9_timeout :: u64
  b9_since :: u32
  b9_statistics :: "'sx option"

datatype SoftforkType = Buried | Bip9

record ('st, 'sx) Softfork =
  sf_type :: SoftforkType
  sf_bip9 :: "('st, 'sx) Bip9SoftforkInfo option"
  sf_height :: "u32 option"
  sf_active :: bool

record ('st, 'sx, 'i) GetBlockchainInfoResult =
  softforks :: "string \<rightharpoonup> ('st, 'sx) Softfork"
  other_fields :: 'i

definition as_object :: "json \<Rightarrow> (string \<times> json) list option" where
  "as_object j = (case j of Object m \<Rightarrow> Some m | _ \<Rightarrow> None)"

definition as_array :: "json \<Rightarrow> json list option" where
  "as_array j = (case j of Array xs \<Rightarrow> Some xs | _ \<Rightarrow> None)"

definition as_str :: "json \<Rightarrow> string option" where
  "as_str j = (case j of Str s \<Rightarrow> Some s | _ \<Rightarrow> None)"

definition as_bool :: "json \<Rightarrow> bool option" where
  "as_bool j = (case j of Bool b \<Rightarrow> Some b | _ \<Rightarrow> None)"

text \<open>The five lookups of the first loop, each ending in \<open>ok_or(UnexpectedStructure)?\<close>.\<close>

definition old_softfork :: "json \<Rightarrow> (string \<times> bool) option" where
  "old_softfork sf =
     Option.bind (as_object sf) (\<lambda>obj.
     Option.bind (Option.bind (map_of obj ''id'') as_str) (\<lambda>ident.
     Option.bind (Option.bind (map_of obj ''reject'') as_object) (\<lambda>reject.
     Option.bind (Option.bind (map_of reject ''status'') as_bool) (\<lambda>active. Some (ident, active)))))"

fun old_softforks_loop :: "json list \<Rightarrow> (string \<rightharpoonup> ('st, 'sx) Softfork) \<Rightarrow> (string \<rightharpoonup> ('st, 'sx) Softfork, Error) result" where
  "old_softforks_loop [] sfs = Ok sfs"
| "old_softforks_loop (sf # rest) sfs =
     bind_result (ok_or UnexpectedStructure (old_softfork sf)) (\<lambda>(ident, active).
     old_softforks_loop rest
       (sfs(ident \<mapsto> \<lparr>sf_type = Buried, sf_bip9 = None, sf_height = None, sf_active = active\<rparr>)))"

definition new_softfork :: "'st \<Rightarrow> ('st, 'sx) OldBip9SoftFork \<Rightarrow> ('st, 'sx) Softfork" where
  "new_softfork Active sf =
     \<lparr>sf_type = Bip9,
      sf_bip9 = Some \<lparr>b9_status = old_status sf, b9_bit = old_bit sf, b9_start_time = old_start_time sf,
        b9_timeout = old_timeout sf, b9_since = old_since sf, b9_statistics = old_statistics sf\<rparr>,
      sf_height = None,
      sf_active = (old_status sf = Active)\<rparr>"

fun bip9_softforks_loop ::
  "('st, 'sx) OldBip9SoftFork decoder \<Rightarrow> 'st \<Rightarrow> (string \<times> json) list \<Rightarrow> (string \<rightharpoonup> ('st, 'sx) Softfork) \<Rightarrow>
   (string \<rightharpoonup> ('st, 'sx) Softfork, Error) result" where
  "bip9_softforks_loop from_old Active [] sfs = Ok sfs"
| "bip9_softforks_loop from_old Active ((ident, sf) # rest) sfs =
     bind_result (ok_or Json (from_old sf)) (\<lambda>sf.
     bip9_softforks_loop from_old Active rest (sfs(ident \<mapsto> new_softfork Active sf)))"

text \<open>The branch for nodes before 0.19.\<close>

definition upgrade_blockchain_info ::
  "('st, 'sx, 'i) GetBlockchainInfoResult decoder \<Rightarrow> ('st, 'sx) OldBip9SoftFork decoder \<Rightarrow> 'st \<Rightarrow> json \<Rightarrow>
   (('st, 'sx, 'i) GetBlockchainInfoResult, Error) result" where
  "upgrade_blockchain_info from_info from_old Active raw =
     bind_result (ok_or UnexpectedStructure (as_object raw)) (\<lambda>m.
     bind_result (ok_or UnexpectedStructure (map_of m ''bip9_softforks'')) (\<lambda>bip9_softforks.
     bind_result (ok_or UnexpectedStructure (map_of (map_remove ''bip9_softforks'' m) ''softforks'')) (\<lambda>old_softforks.
     let m' = map_insert ''softforks'' (Object []) (map_remove ''softforks'' (map_remove ''bip9_softforks'' m)) in
     bind_result (ok_or Json (from_info (Object m'))) (\<lambda>ret.
     bind_result (ok_or UnexpectedStructure (as_array old_softforks)) (\<lambda>olds.
     bind_result (old_softforks_loop olds (softforks ret)) (\<lambda>sfs.
     bind_result (ok_or UnexpectedStructure (as_object bip9_softforks)) (\<lambda>bip9s.
     bind_result (bip9_softforks_loop from_old Active bip9s sfs) (\<lambda>sfs'.
     Ok (ret\<lparr>softforks := sfs'\<rparr>)))))))))"

definition get_blockchain_info ::
  "transport \<Rightarrow> u64 decoder \<Rightarrow> ('st, 'sx, 'i) GetBlockchainInfoResult decoder \<Rightarrow>
   ('st, 'sx) OldBip9SoftFork decoder \<Rightarrow> 'st \<Rightarrow> ('st, 'sx, 'i) GetBlockchainInfoResult reply" where
  "get_blockchain_info net from_version from_info from_old Active =
     bind_run (call net Some ''getblockchaininfo'' []) (\<lambda>raw.
     case raw of
       Err e \<Rightarrow> Ret (Err e)
     | Ok raw \<Rightarrow>
         and_then (version net from_version) (\<lambda>v.
         if v < 190000 then upgrade_blockchain_info from_info from_old Active raw
         else ok_or Json (from_info raw)))"

definition get_block_count :: "transport \<Rightarrow> 'r decoder \<Rightarrow> 'r reply" where
  "get_block_count net from_json =
     call net from_json ''getblockcount'' []"

definition get_best_block_hash :: "transport \<Rightarrow> 'r decoder \<Rightarrow> 'r reply" where
  "get_best_block_hash net from_json =
     call net from_json ''getbestblockhash'' []"

definition get_block_hash :: "transport \<Rightarrow> 'r decoder \<Rightarrow> u64 \<Rightarrow> 'r reply" where
  "get_block_hash net from_json block_height =
     call net from_json ''getblockhash'' [Ok (Number (uint block_height))]"

section \<open>Transactions\<close>

text \<open>\<open>from_hex\<close> and \<open>deserialize\<close> are the bitcoin library's.\<close>

definition decode_tx :: "(string \<Rightarrow> 'b option) \<Rightarrow> ('b \<Rightarrow> 'x option) \<Rightarrow> string \<Rightarrow> ('x, Error) result" where
  "decode_tx from_hex deserialize hex =
     bind_result (ok_or Hex (from_hex hex)) (\<lambda>bytes. ok_or BitcoinSerialization (deserialize bytes))"

definition get_raw_transaction ::
  "transport \<Rightarrow> string decoder \<Rightarrow> (string \<Rightarrow> 'b option) \<Rightarrow> ('b \<Rightarrow> 'x option) \<Rightarrow> serialized \<Rightarrow> serialized option \<Rightarrow>
   'x reply" where
  "get_raw_transaction net from_json from_hex deserialize txid block_hash =
     and_then (call_defaults net from_json ''getrawtransaction''
       [into_json txid, into_json (of_bool False), opt_into_json block_hash]
       [Ok null]) (decode_tx from_hex deserialize)"

definition get_raw_transaction_hex :: "transport \<Rightarrow> 'r decoder \<Rightarrow> serialized \<Rightarrow> serialized option \<Rightarrow> 'r reply" where
  "get_raw_transaction_hex net from_json txid block_hash =
     call_defaults net from_json ''getrawtransaction''
       [into_json txid, into_json (of_bool False), opt_into_json block_hash]
       [Ok null]"

definition get_raw_transaction_info :: "transport \<Rightarrow> 'r decoder \<Rightarrow> serialized \<Rightarrow> serialized option \<Rightarrow> 'r reply" where
  "get_raw_transaction_info net from_json txid block_hash =
     call_defaults net from_json ''getrawtransaction''
       [into_json txid, into_json (of_bool True), opt_into_json block_hash]
       [Ok null]"

definition get_block_filter :: "transport \<Rightarrow> 'r decoder \<Rightarrow> serialized \<Rightarrow> 'r reply" where
  "get_block_filter net from_json block_hash =
     call net from_json ''getblockfilter'' [into_json block_hash]"

text \<open>\<open>from_btc\<close> is \<open>Amount::from_btc\<close> on the number in the answer.\<close>

definition get_balance ::
  "transport \<Rightarrow> 'f decoder \<Rightarrow> ('f \<Rightarrow> 'a option) \<Rightarrow> u64 option \<Rightarrow> bool option \<Rightarrow> 'a reply" where
  "get_balance net from_json from_btc minconf include_watchonly =
     and_then (call_defaults net from_json ''getbalance''
       [Ok (Str ''*''), opt_into_json (map_option of_u64 minconf), opt_into_json (map_option of_bool include_watchonly)]
       [Ok (Number 0), Ok null]) (\<lambda>x. ok_or InvalidAmount (from_btc x))"

definition get_balances :: "transport \<Rightarrow> 'r decoder \<Rightarrow> 'r reply" where
  "get_balances net from_json =
     call net from_json ''getbalances'' []"

definition get_received_by_address ::
  "transport \<Rightarrow> 'f decoder \<Rightarrow> ('f \<Rightarrow> 'a option) \<Rightarrow> string \<Rightarrow> u32 option \<Rightarrow> 'a reply" where
  "get_received_by_address net from_json from_btc address minconf =
     and_then (call_defaults net from_json ''getreceivedbyaddress''
       [Ok (Str address), opt_into_json (map_option of_u32 minconf)]
       [Ok null]) (\<lambda>x. ok_or InvalidAmount (from_btc x))"

definition get_transaction :: "transport \<Rightarrow> 'r decoder \<Rightarrow> serialized \<Rightarrow> bool option \<Rightarrow> 'r reply" where
  "get_transaction net from_json txid include_watchonly =
     call_defaults net from_json ''gettransaction''
       [into_json txid, opt_into_json (map_option of_bool include_watchonly)]
       [Ok null]"

definition list_transactions ::
  "transport \<Rightarrow> 'r decoder \<Rightarrow> string option \<Rightarrow> u64 option \<Rightarrow> u64 option \<Rightarrow> bool option \<Rightarrow>
   'r reply" where
  "list_transactions net from_json label count skip include_watchonly =
     call_defaults net from_json ''listtransactions''
       [Ok (Str (case label of None \<Rightarrow> ''*'' | Some l \<Rightarrow> l)), opt_into_json (map_option of_u64 count),
        opt_into_json (map_option of_u64 skip), opt_into_json (map_option of_bool include_watchonly)]
       [Ok (Number 10), Ok (Number 0), Ok null]"

definition list_since_block ::
  "transport \<Rightarrow> 'r decoder \<Rightarrow> serialized option \<Rightarrow> u64 option \<Rightarrow> bool option \<Rightarrow> bool option \<Rightarrow>
   'r reply" where
  "list_since_block net from_json blockhash target_confirmations include_watchonly include_removed =
     call_defaults net from_json ''listsinceblock''
       [opt_into_json blockhash, opt_into_json (map_option of_u64 target_confirmations),
        opt_into_json (map_option of_bool include_watchonly), opt_into_json (map_option of_bool include_removed)]
       [Ok null]"

definition get_tx_out ::
  "transport \<Rightarrow> 'o decoder \<Rightarrow> serialized \<Rightarrow> u32 \<Rightarrow> bool option \<Rightarrow> ('o option, Error) result run" where
  "get_tx_out net from_json txid vout include_mempool =
     and_then (call_defaults net Some ''gettxout''
       [into_json txid, into_json (of_u32 vout), opt_into_json (map_option of_bool include_mempool)]
       [Ok null]) (opt_result from_json)"

definition get_tx_out_proof ::
  "transport \<Rightarrow> string decoder \<Rightarrow> (string \<Rightarrow> 'b option) \<Rightarrow> serialized list \<Rightarrow> serialized option \<Rightarrow>
   'b reply" where
  "get_tx_out_proof net from_json from_hex txids block_hash =
     and_then (call_defaults net from_json ''gettxoutproof''
       [into_json (of_slice id txids), opt_into_json block_hash]
       [Ok null]) (\<lambda>hex. ok_or Hex (from_hex hex))"

definition import_public_key :: "transport \<Rightarrow> 'r decoder \<Rightarrow> string \<Rightarrow> string option \<Rightarrow> bool option \<Rightarrow> 'r reply" where
  "import_public_key net from_json pubkey label rescan =
     call_defaults net from_json ''importpubkey''
       [Ok (Str pubkey), opt_into_json (map_option of_str label), opt_into_json (map_option of_bool rescan)]
       [into_json (of_str []), Ok null]"

definition import_private_key :: "transport \<Rightarrow> 'r decoder \<Rightarrow> string \<Rightarrow> string option \<Rightarrow> bool option \<Rightarrow> 'r reply" where
  "import_private_key net from_json privkey label rescan =
     call_defaults net from_json ''importprivkey''
       [Ok (Str privkey), opt_into_json (map_option of_str label), opt_into_json (map_option of_bool rescan)]
       [into_json (of_str []), Ok null]"

definition import_address :: "transport \<Rightarrow> 'r decoder \<Rightarrow> string \<Rightarrow> string option \<Rightarrow> bool option \<Rightarrow> 'r reply" where
  "import_address net from_json address label rescan =
     call_defaults net from_json ''importaddress''
       [Ok (Str address), opt_into_json (map_option of_str label), opt_into_json (map_option of_bool rescan)]
       [into_json (of_str []), Ok null]"

text \<open>The script is given by its hexadecimal text.\<close>

definition import_address_script ::
  "transport \<Rightarrow> 'r decoder \<Rightarrow> string \<Rightarrow> string option \<Rightarrow> bool option \<Rightarrow> bool option \<Rightarrow>
   'r reply" where
  "import_address_script net from_json script label rescan p2sh =
     call_defaults net from_json ''importaddress''
       [Ok (Str script), opt_into_json (map_option of_str label), opt_into_json (map_option of_bool rescan),
        opt_into_json (map_option of_bool p2sh)]
       [into_json (of_str []), Ok (Bool True), Ok null]"

definition import_multi :: "transport \<Rightarrow> 'r decoder \<Rightarrow> serialized list \<Rightarrow> serialized option \<Rightarrow> 'r reply" where
  "import_multi net from_json requests options =
     call_defaults net from_json ''importmulti''
       [into_json (of_slice id requests), opt_into_json options]
       [Ok null]"

definition set_label :: "transport \<Rightarrow> 'r decoder \<Rightarrow> string \<Rightarrow> string \<Rightarrow> 'r reply" where
  "set_label net from_json address label =
     call net from_json ''setlabel'' [Ok (Str address), Ok (Str label)]"

definition key_pool_refill :: "transport \<Rightarrow> 'r decoder \<Rightarrow> u64 option \<Rightarrow> 'r reply" where
  "key_pool_refill net from_json new_size =
     call_defaults net from_json ''keypoolrefill''
       [opt_into_json (map_option of_u64 new_size)]
       [Ok null]"

definition list_unspent ::
  "transport \<Rightarrow> 'r decoder \<Rightarrow> u64 option \<Rightarrow> u64 option \<Rightarrow> serialized option \<Rightarrow> bool option \<Rightarrow>
   serialized option \<Rightarrow> 'r reply" where
  "list_unspent net from_json minconf maxconf addresses include_unsafe query_options =
     call_defaults net from_json ''listunspent''
       [opt_into_json (map_option of_u64 minconf), opt_into_json (map_option of_u64 maxconf), opt_into_json addresses,
        opt_into_json (map_option of_bool include_unsafe), opt_into_json query_options]
       [into_json (Some (Number 0)), into_json (Some (Number 9999999)), Ok empty_arr, into_json (of_bool True), Ok null]"

record OutPoint =
  out_txid :: serialized
  out_vout :: u32

record JsonOutPoint =
  op_txid :: serialized
  op_vout :: u32

definition JsonOutPoint_from :: "OutPoint \<Rightarrow> JsonOutPoint" where
  "JsonOutPoint_from o' = \<lparr>op_txid = out_txid o', op_vout = out_vout o'\<rparr>"

definition OutPoint_from :: "JsonOutPoint \<Rightarrow> OutPoint" where
  "OutPoint_from jop = \<lparr>out_txid = op_txid jop, out_vout = op_vout jop\<rparr>"

lemma OutPoint_from_inverse [simp]: "OutPoint_from (JsonOutPoint_from o') = o'" "JsonOutPoint_from (OutPoint_from jop) = jop"
  by (simp_all add: OutPoint_from_def JsonOutPoint_from_def)

text \<open>The derived serialisation.\<close>

definition of_out_point :: "JsonOutPoint \<Rightarrow> serialized" where
  "of_out_point o' = map_option (\<lambda>t. Object (map_from_iter [(''txid'', t), (''vout'', Number (uint (op_vout o')))])) (op_txid o')"

text \<open>The closure of both methods unwraps each serialisation.\<close>

fun unwrap_out_points :: "OutPoint list \<Rightarrow> json list run" where
  "unwrap_out_points [] = Ret []"
| "unwrap_out_points (o' # os) =
     bind_run (expect ''called Result::unwrap on an Err value'' (of_out_point (JsonOutPoint_from o'))) (\<lambda>j.
     bind_run (unwrap_out_points os) (\<lambda>js. Ret (j # js)))"

definition lock_unspent :: "transport \<Rightarrow> bool decoder \<Rightarrow> OutPoint list \<Rightarrow> bool reply" where
  "lock_unspent net from_json outputs =
     bind_run (unwrap_out_points outputs) (\<lambda>outputs. call net from_json ''lockunspent'' [Ok (Bool False), Ok (Array outputs)])"

definition unlock_unspent :: "transport \<Rightarrow> bool decoder \<Rightarrow> OutPoint list \<Rightarrow> bool reply" where
  "unlock_unspent net from_json outputs =
     bind_run (unwrap_out_points outputs) (\<lambda>outputs. call net from_json ''lockunspent'' [Ok (Bool True), Ok (Array outputs)])"

definition list_received_by_address ::
  "transport \<Rightarrow> 'r decoder \<Rightarrow> serialized option \<Rightarrow> u32 option \<Rightarrow> bool option \<Rightarrow> bool option \<Rightarrow>
   'r reply" where
  "list_received_by_address net from_json address_filter minconf include_empty include_watchonly =
     call_defaults net from_json ''listreceivedbyaddress''
       [opt_into_json (map_option of_u32 minconf), opt_into_json (map_option of_bool include_empty),
        opt_into_json (map_option of_bool include_watchonly), opt_into_json address_filter]
       [Ok (Number 1), Ok (Bool False), Ok (Bool False), Ok null]"

section \<open>Building and signing transactions\<close>

text \<open>The outputs are the entries of the hash map in its iteration order, each amount as the number \<open>to_btc\<close> gives.\<close>

definition create_raw_transaction_hex ::
  "transport \<Rightarrow> 'r decoder \<Rightarrow> serialized list \<Rightarrow> (string \<times> json) list \<Rightarrow> i64 option \<Rightarrow>
   bool option \<Rightarrow> 'r reply" where
  "create_raw_transaction_hex net from_json utxos outs locktime replaceable =
     call_defaults net from_json ''createrawtransaction''
       [into_json (of_slice id utxos), into_json (Some (Object (map_from_iter outs))),
        opt_into_json (map_option of_i64 locktime), opt_into_json (map_option of_bool replaceable)]
       [into_json (of_i64 0), Ok null]"

definition create_raw_transaction ::
  "transport \<Rightarrow> string decoder \<Rightarrow> (string \<Rightarrow> 'b option) \<Rightarrow> ('b \<Rightarrow> 'x option) \<Rightarrow> serialized list \<Rightarrow> (string \<times> json) list \<Rightarrow>
   i64 option \<Rightarrow> bool option \<Rightarrow> 'x reply" where
  "create_raw_transaction net from_json from_hex deserialize utxos outs locktime replaceable =
     and_then (create_raw_transaction_hex net from_json utxos outs locktime replaceable) (decode_tx from_hex deserialize)"

definition fund_raw_transaction ::
  "transport \<Rightarrow> 'r decoder \<Rightarrow> (string \<Rightarrow> string) \<Rightarrow> RawTx \<Rightarrow> serialized option \<Rightarrow> bool option \<Rightarrow>
   'r reply" where
  "fund_raw_transaction net from_json to_hex tx options is_witness =
     call_defaults net from_json ''fundrawtransaction''
       [Ok (Str (raw_hex to_hex tx)), opt_into_json options, opt_into_json (map_option of_bool is_witness)]
       [Ok empty_obj, Ok null]"

definition sign_raw_transaction ::
  "transport \<Rightarrow> 'r decoder \<Rightarrow> (string \<Rightarrow> string) \<Rightarrow> RawTx \<Rightarrow> serialized option \<Rightarrow> serialized option \<Rightarrow>
   serialized option \<Rightarrow> 'r reply" where
  "sign_raw_transaction net from_json to_hex tx utxos private_keys sighash_type =
     call_defaults net from_json ''signrawtransaction''
       [Ok (Str (raw_hex to_hex tx)), opt_into_json utxos, opt_into_json private_keys, opt_into_json sighash_type]
       [Ok empty_arr, Ok empty_arr, Ok null]"

definition sign_raw_transaction_with_wallet ::
  "transport \<Rightarrow> 'r decoder \<Rightarrow> (string \<Rightarrow> string) \<Rightarrow> RawTx \<Rightarrow> serialized option \<Rightarrow>
   serialized option \<Rightarrow> 'r reply" where
  "sign_raw_transaction_with_wallet net from_json to_hex tx utxos sighash_type =
     call_defaults net from_json ''signrawtransactionwithwallet''
       [Ok (Str (raw_hex to_hex tx)), opt_into_json utxos, opt_into_json sighash_type]
       [Ok empty_arr, Ok null]"

definition sign_raw_transaction_with_key ::
  "transport \<Rightarrow> 'r decoder \<Rightarrow> (string \<Rightarrow> string) \<Rightarrow> RawTx \<Rightarrow> serialized list \<Rightarrow>
   serialized option \<Rightarrow> serialized option \<Rightarrow> 'r reply" where
  "sign_raw_transaction_with_key net from_json to_hex tx privkeys prevtxs sighash_type =
     call_defaults net from_json ''signrawtransactionwithkey''
       [Ok (Str (raw_hex to_hex tx)), into_json (of_slice id privkeys), opt_into_json prevtxs, opt_into_json sighash_type]
       [Ok empty_arr, Ok null]"

definition test_mempool_accept :: "transport \<Rightarrow> 'r decoder \<Rightarrow> (string \<Rightarrow> string) \<Rightarrow> RawTx list \<Rightarrow> 'r reply" where
  "test_mempool_accept net from_json to_hex rawtxs =
     call net from_json ''testmempoolaccept'' [Ok (Array (map (\<lambda>r. Str (raw_hex to_hex r)) rawtxs))]"

definition stop :: "transport \<Rightarrow> 'r decoder \<Rightarrow> 'r reply" where
  "stop net from_json =
     call net from_json ''stop'' []"

definition verify_message :: "transport \<Rightarrow> 'r decoder \<Rightarrow> string \<Rightarrow> string \<Rightarrow> string \<Rightarrow> 'r reply" where
  "verify_message net from_json address signature message =
     call net from_json ''verifymessage'' [Ok (Str address), Ok (Str signature), into_json (of_str message)]"

definition get_new_address :: "transport \<Rightarrow> 'r decoder \<Rightarrow> string option \<Rightarrow> serialized option \<Rightarrow> 'r reply" where
  "get_new_address net from_json label address_type =
     call net from_json ''getnewaddress'' [opt_into_json (map_option of_str label), opt_into_json address_type]"

definition get_address_info :: "transport \<Rightarrow> 'r decoder \<Rightarrow> string \<Rightarrow> 'r reply" where
  "get_address_info net from_json address =
     call net from_json ''getaddressinfo'' [Ok (Str address)]"

definition generate_to_address :: "transport \<Rightarrow> 'r decoder \<Rightarrow> u64 \<Rightarrow> string \<Rightarrow> 'r reply" where
  "generate_to_address net from_json block_num address =
     call net from_json ''generatetoaddress'' [Ok (Number (uint block_num)), Ok (Str address)]"

definition generate :: "transport \<Rightarrow> 'r decoder \<Rightarrow> u64 \<Rightarrow> u64 option \<Rightarrow> 'r reply" where
  "generate net from_json block_num maxtries =
     call net from_json ''generate'' [Ok (Number (uint block_num)), opt_into_json (map_option of_u64 maxtries)]"

definition invalidate_block :: "transport \<Rightarrow> 'r decoder \<Rightarrow> serialized \<Rightarrow> 'r reply" where
  "invalidate_block net from_json block_hash =
     call net from_json ''invalidateblock'' [into_json block_hash]"

definition reconsider_block :: "transport \<Rightarrow> 'r decoder \<Rightarrow> serialized \<Rightarrow> 'r reply" where
  "reconsider_block net from_json block_hash =
     call net from_json ''reconsiderblock'' [into_json block_hash]"

definition get_raw_mempool :: "transport \<Rightarrow> 'r decoder \<Rightarrow> 'r reply" where
  "get_raw_mempool net from_json =
     call net from_json ''getrawmempool'' []"

definition get_mempool_entry :: "transport \<Rightarrow> 'r decoder \<Rightarrow> serialized \<Rightarrow> 'r reply" where
  "get_mempool_entry net from_json txid =
     call net from_json ''getmempoolentry'' [into_json txid]"

text \<open>\<open>amount\<close> is the \<open>f64\<close> of \<open>amount.to_btc()\<close>, serialised.\<close>

definition send_to_address ::
  "transport \<Rightarrow> 'r decoder \<Rightarrow> string \<Rightarrow> serialized \<Rightarrow> string option \<Rightarrow> string option \<Rightarrow> bool option \<Rightarrow>
   bool option \<Rightarrow> u32 option \<Rightarrow> serialized option \<Rightarrow> 'r reply" where
  "send_to_address net from_json address amount comment comment_to subtract_fee replaceable confirmation_target estimate_mode =
     call_defaults net from_json ''sendtoaddress''
       [Ok (Str address), into_json amount, opt_into_json (map_option of_str comment),
        opt_into_json (map_option of_str comment_to), opt_into_json (map_option of_bool subtract_fee),
        opt_into_json (map_option of_bool replaceable), opt_into_json (map_option of_u32 confirmation_target),
        opt_into_json estimate_mode]
       [Ok (Str []), Ok (Str []), Ok (Bool False), Ok (Bool False), Ok (Number 6), Ok null]"

definition get_peer_info :: "transport \<Rightarrow> 'r decoder \<Rightarrow> 'r reply" where
  "get_peer_info net from_json =
     call net from_json ''getpeerinfo'' []"

definition ping :: "transport \<Rightarrow> 'r decoder \<Rightarrow> 'r reply" where
  "ping net from_json =
     call net from_json ''ping'' []"

definition send_raw_transaction :: "transport \<Rightarrow> 'r decoder \<Rightarrow> (string \<Rightarrow> string) \<Rightarrow> RawTx \<Rightarrow> 'r reply" where
  "send_raw_transaction net from_json to_hex tx =
     call net from_json ''sendrawtransaction'' [Ok (Str (raw_hex to_hex tx))]"

definition estimate_smart_fee :: "transport \<Rightarrow> 'r decoder \<Rightarrow> 16 word \<Rightarrow> serialized option \<Rightarrow> 'r reply" where
  "estimate_smart_fee net from_json conf_target estimate_mode =
     call_defaults net from_json ''estimatesmartfee''
       [into_json (Some (Number (uint conf_target))), opt_into_json estimate_mode]
       [Ok null]"

section \<open>Blocks, descriptors and statistics\<close>

definition wait_for_new_block :: "transport \<Rightarrow> 'r decoder \<Rightarrow> u64 \<Rightarrow> 'r reply" where
  "wait_for_new_block net from_json timeout =
     call net from_json ''waitfornewblock'' [into_json (of_u64 timeout)]"

definition wait_for_block :: "transport \<Rightarrow> 'r decoder \<Rightarrow> serialized \<Rightarrow> u64 \<Rightarrow> 'r reply" where
  "wait_for_block net from_json blockhash timeout =
     call net from_json ''waitforblock'' [into_json blockhash, into_json (of_u64 timeout)]"

definition wallet_create_funded_psbt ::
  "transport \<Rightarrow> 'r decoder \<Rightarrow> serialized list \<Rightarrow> (string \<times> json) list \<Rightarrow> i64 option \<Rightarrow>
   serialized option \<Rightarrow> bool option \<Rightarrow> 'r reply" where
  "wallet_create_funded_psbt net from_json inputs outputs locktime options bip32derivs =
     call_defaults net from_json ''walletcreatefundedpsbt''
       [into_json (of_slice id inputs), into_json (Some (Object (map_from_iter outputs))),
        opt_into_json (map_option of_i64 locktime), opt_into_json options, opt_into_json (map_option of_bool bip32derivs)]
       [Ok (Number 0), Ok (Object []), Ok (Bool False)]"

definition get_descriptor_info :: "transport \<Rightarrow> 'r decoder \<Rightarrow> string \<Rightarrow> 'r reply" where
  "get_descriptor_info net from_json desc =
     call net from_json ''getdescriptorinfo'' [Ok (Str desc)]"

definition combine_psbt :: "transport \<Rightarrow> 'r decoder \<Rightarrow> string list \<Rightarrow> 'r reply" where
  "combine_psbt net from_json psbts =
     call net from_json ''combinepsbt'' [into_json (of_slice of_str psbts)]"

definition finalize_psbt :: "transport \<Rightarrow> 'r decoder \<Rightarrow> string \<Rightarrow> bool option \<Rightarrow> 'r reply" where
  "finalize_psbt net from_json psbt extract =
     call_defaults net from_json ''finalizepsbt''
       [into_json (of_str psbt), opt_into_json (map_option of_bool extract)]
       [Ok (Bool True)]"

text \<open>The range is a pair of bounds.\<close>

definition derive_addresses :: "transport \<Rightarrow> 'r decoder \<Rightarrow> string \<Rightarrow> (u32 \<times> u32) option \<Rightarrow> 'r reply" where
  "derive_addresses net from_json descriptor bounds =
     call_defaults net from_json ''deriveaddresses''
       [into_json (of_str descriptor), opt_into_json (map_option (\<lambda>(a, b). of_slice of_u32 [a, b]) bounds)]
       [Ok null]"

text \<open>\<open>from_json\<close> reads the fields \<open>start_height\<close> and \<open>stop_height\<close> of the answer.\<close>

definition rescan_blockchain :: "transport \<Rightarrow> 'r decoder \<Rightarrow> u64 option \<Rightarrow> u64 option \<Rightarrow> 'r reply" where
  "rescan_blockchain net from_json start_from stop_height =
     call_defaults net from_json ''rescanblockchain''
       [opt_into_json (map_option of_u64 start_from), opt_into_json (map_option of_u64 stop_height)]
       [Ok (Number 0), Ok null]"

definition get_tx_out_set_info :: "transport \<Rightarrow> 'r decoder \<Rightarrow> 'r reply" where
  "get_tx_out_set_info net from_json =
     call net from_json ''gettxoutsetinfo'' []"

definition get_net_totals :: "transport \<Rightarrow> 'r decoder \<Rightarrow> 'r reply" where
  "get_net_totals net from_json =
     call net from_json ''getnettotals'' []"

definition get_network_hash_ps :: "transport \<Rightarrow> 'r decoder \<Rightarrow> u64 option \<Rightarrow> u64 option \<Rightarrow> 'r reply" where
  "get_network_hash_ps net from_json nblocks block_height =
     call_defaults net from_json ''getnetworkhashps''
       [opt_into_json (map_option of_u64 nblocks), opt_into_json (map_option of_u64 block_height)]
       [Ok null, Ok null]"

definition uptime :: "transport \<Rightarrow> 'r decoder \<Rightarrow> 'r reply" where
  "uptime net from_json =
     call net from_json ''uptime'' []"

definition scan_tx_out_set_blocking :: "transport \<Rightarrow> 'r decoder \<Rightarrow> serialized list \<Rightarrow> 'r reply" where
  "scan_tx_out_set_blocking net from_json descriptors =
     call net from_json ''scantxoutset'' [Ok (Str ''start''), into_json (of_slice id descriptors)]"

section \<open>Which calls can panic\<close>

lemma array_of_Ok_length: "array_of rs = Ok xs \<Longrightarrow> length xs = length rs"
  by (induction rs arbitrary: xs) (auto simp: bind_result_def split: result.splits)

lemma bind_result_simps [simp]: "bind_result (Ok x) f = f x" "bind_result (Err e) f = Err e"
  by (simp_all add: bind_result_def)

lemma ok_or_simps [simp]: "ok_or e (Some x) = Ok x" "ok_or e None = Err e"
  by (simp_all add: ok_or_def)

lemma returns_iff: "returns r \<longleftrightarrow> (\<exists>x. r = Ret x)"
  by (cases r) auto

lemma call_returns [simp]: "returns (call net dec cmd args)"
  by (simp add: call_def)

lemma and_then_returns [simp]: "returns (and_then r f) = returns r"
  by (cases r) (simp_all add: and_then_def)

text \<open>A table of defaults is safe when only its last entry may be null.\<close>

definition safe_defaults :: "(json, Error) result list \<Rightarrow> bool" where
  "safe_defaults defaults \<longleftrightarrow> (case array_of defaults of Ok ds \<Rightarrow> list_all (\<lambda>d. d \<noteq> Null) (butlast ds) | Err _ \<Rightarrow> True)"

lemma call_defaults_returns:
  assumes "safe_defaults defaults" and "length defaults \<le> length args"
  shows "returns (call_defaults net dec cmd args defaults)"
proof -
  have "\<exists>ys. handle_defaults xs ds = Ret ys" if "array_of args = Ok xs" "array_of defaults = Ok ds" for xs ds
    using that assms array_of_Ok_length [OF that(1)] array_of_Ok_length [OF that(2)]
    by (intro handle_defaults_safe) (auto simp: safe_defaults_def list_all_iff)
  then show ?thesis
    by (fastforce simp: call_defaults_def split: result.splits)
qed

lemmas default_table_simps =
  safe_defaults_def into_json_def of_str_def of_bool_def of_i64_def null_def empty_arr_def empty_obj_def

lemma unwrap_out_points_returns: "returns (unwrap_out_points os) \<longleftrightarrow> list_all (\<lambda>p. out_txid p \<noteq> None) os"
proof (induction os)
  case (Cons p os)
  then show ?case
    by (cases "out_txid p"; cases "unwrap_out_points os") (simp_all add: of_out_point_def JsonOutPoint_from_def)
qed simp

text \<open>C26: no method with optional arguments can panic, whatever is left out, with one exception: \<open>get_network_hash_ps\<close>, whose table of
  defaults is null throughout, panics exactly when a height is given without a number of blocks. \<open>lock_unspent\<close>
  and \<open>unlock_unspent\<close> panic exactly when an output does not serialise.\<close>

theorem only_get_network_hash_ps_panics:
  "(\<not> returns (get_network_hash_ps net dec nblocks block_height) \<longleftrightarrow> nblocks = None \<and> block_height \<noteq> None) \<and>
   (returns (lock_unspent net decb outputs) \<longleftrightarrow> list_all (\<lambda>p. out_txid p \<noteq> None) outputs) \<and>
   (returns (unlock_unspent net decb outputs) \<longleftrightarrow> list_all (\<lambda>p. out_txid p \<noteq> None) outputs) \<and>
   returns (add_multisig_address net dec n js so jo) \<and> returns (unload_wallet net dec so) \<and>
   returns (create_wallet net dec s bo bo2 so bo3) \<and> returns (backup_wallet net dec so) \<and>
   returns (get_raw_transaction net decs from_hex deserialize j jo) \<and>
   returns (get_raw_transaction_hex net dec j jo) \<and> returns (get_raw_transaction_info net dec j jo) \<and>
   returns (get_balance net decf from_btc no bo) \<and> returns (get_received_by_address net decf from_btc s mo) \<and>
   returns (get_transaction net dec j bo) \<and> returns (list_transactions net dec so no no2 bo) \<and>
   returns (list_since_block net dec jo no bo bo2) \<and> returns (get_tx_out net dec j k bo) \<and>
   returns (get_tx_out_proof net decs from_hex js jo) \<and> returns (import_public_key net dec s so bo) \<and>
   returns (import_private_key net dec s so bo) \<and> returns (import_address net dec s so bo) \<and>
   returns (import_address_script net dec s so bo bo2) \<and> returns (import_multi net dec js jo) \<and>
   returns (key_pool_refill net dec no) \<and> returns (list_unspent net dec no no2 jo bo jo2) \<and>
   returns (list_received_by_address net dec jo mo bo bo2) \<and>
   returns (create_raw_transaction_hex net dec js outs lo bo) \<and>
   returns (fund_raw_transaction net dec to_hex tx jo bo) \<and>
   returns (sign_raw_transaction net dec to_hex tx jo jo2 jo3) \<and>
   returns (sign_raw_transaction_with_wallet net dec to_hex tx jo jo2) \<and>
   returns (sign_raw_transaction_with_key net dec to_hex tx js jo jo2) \<and>
   returns (send_to_address net dec s j so so2 bo bo2 mo jo) \<and> returns (estimate_smart_fee net dec h jo) \<and>
   returns (wallet_create_funded_psbt net dec js outs lo jo bo) \<and> returns (finalize_psbt net dec s bo) \<and>
   returns (derive_addresses net dec s bounds) \<and> returns (rescan_blockchain net dec no no2) \<and>
   returns (create_raw_transaction net decs from_hex deserialize js outs lo bo)"
proof (intro conjI)
  have hd: "handle_defaults [a, b] [Null, Null] = (if a = Null \<and> b \<noteq> Null then Panic (ExplicitPanic ''Missing default for argument'')
      else Ret (given [a, b]))" for a b
    using handle_defaults_append [of "[a, b]" "[Null, Null]" "[]"]
    by (auto simp: missing_default_def with_defaults_def given_def fill_def)
  show "\<not> returns (get_network_hash_ps net dec nblocks block_height) \<longleftrightarrow> nblocks = None \<and> block_height \<noteq> None"
    by (cases nblocks; cases block_height)
      (simp_all add: get_network_hash_ps_def call_defaults_def opt_into_json_def into_json_def of_u64_def null_def hd)
  show "returns (lock_unspent net decb outputs) \<longleftrightarrow> list_all (\<lambda>p. out_txid p \<noteq> None) outputs"
    unfolding lock_unspent_def unwrap_out_points_returns [symmetric] by (cases "unwrap_out_points outputs") simp_all
  show "returns (unlock_unspent net decb outputs) \<longleftrightarrow> list_all (\<lambda>p. out_txid p \<noteq> None) outputs"
    unfolding unlock_unspent_def unwrap_out_points_returns [symmetric] by (cases "unwrap_out_points outputs") simp_all
qed (simp_all add: add_multisig_address_def unload_wallet_def create_wallet_def backup_wallet_def get_raw_transaction_def
  get_raw_transaction_hex_def get_raw_transaction_info_def get_balance_def get_received_by_address_def
  get_transaction_def list_transactions_def list_since_block_def get_tx_out_def get_tx_out_proof_def
  import_public_key_def import_private_key_def import_address_def import_address_script_def import_multi_def
  key_pool_refill_def list_unspent_def list_received_by_address_def create_raw_transaction_hex_def
  fund_raw_transaction_def sign_raw_transaction_def sign_raw_transaction_with_wallet_def
  sign_raw_transaction_with_key_def send_to_address_def estimate_smart_fee_def wallet_create_funded_psbt_def
  finalize_psbt_def derive_addresses_def rescan_blockchain_def create_raw_transaction_def
  call_defaults_returns default_table_simps)


section \<open>Soft forks of old nodes\<close>

definition buried :: "bool \<Rightarrow> ('st, 'sx) Softfork" where
  "buried active = \<lparr>sf_type = Buried, sf_bip9 = None, sf_height = None, sf_active = active\<rparr>"

lemma those_Cons_Some: "those (x # xs) = Some ys \<longleftrightarrow> (\<exists>y zs. x = Some y \<and> those xs = Some zs \<and> ys = y # zs)"
  by (auto split: option.splits)

lemma old_softforks_loop_Ok:
  "those (map old_softfork olds) = Some es \<Longrightarrow>
   old_softforks_loop olds sfs = Ok (sfs ++ map_of (rev (map (\<lambda>(i, a). (i, buried a)) es)))"
proof (induction olds arbitrary: es sfs)
  case (Cons sf olds)
  then obtain i a es' where "old_softfork sf = Some (i, a)" "those (map old_softfork olds) = Some es'" "es = (i, a) # es'"
    by (auto simp: those_Cons_Some simp del: those.simps)
  then show ?case by (simp add: Cons.IH buried_def [symmetric]) (auto simp: fun_eq_iff map_add_def split: option.splits)
qed simp

lemma old_softforks_loop_Err:
  "those (map old_softfork olds) = None \<Longrightarrow> old_softforks_loop olds sfs = Err UnexpectedStructure"
proof (induction olds arbitrary: sfs)
  case (Cons sf olds)
  then show ?case by (cases "old_softfork sf") (auto split: option.splits)
qed simp

lemma bip9_softforks_loop_Ok:
  "those (map (\<lambda>(i, j). from_old j) bs) = Some fs \<Longrightarrow>
   bip9_softforks_loop from_old act bs sfs = Ok (sfs ++ map_of (rev (zip (map fst bs) (map (new_softfork act) fs))))"
proof (induction bs arbitrary: fs sfs)
  case (Cons b bs)
  obtain i j where b: "b = (i, j)" by (cases b)
  with Cons.prems obtain f fs' where "from_old j = Some f" "those (map (\<lambda>(i, j). from_old j) bs) = Some fs'" "fs = f # fs'"
    by (auto simp: those_Cons_Some simp del: those.simps)
  with b show ?case by (simp add: Cons.IH) (auto simp: fun_eq_iff map_add_def split: option.splits)
qed simp

text \<open>For a node before 0.19 the answer to \<open>get_blockchain_info\<close> is brought into the new form. Its two soft fork fields are taken out and the
  rest is decoded with an empty table of soft forks (the decoder, the library's, then yields an empty table and otherwise depends on the other
  fields only). When every listed soft fork has the old structure, the result's table
  has every BIP9 fork under its name with all its data, active exactly when its status is, every other listed
  fork as a buried one with the activity of its last entry, and nothing else. When an entry of the list has another structure the result is that error.\<close>

lemma get_blockchain_info_old_node:
  assumes "net ''getblockchaininfo'' [] = Some (Object m)"
    and "Option.bind (net ''getnetworkinfo'' []) from_version = Some v" and "v < 190000"
    and "map_of m ''softforks'' = Some (Array olds)" and "map_of m ''bip9_softforks'' = Some (Object bs)"
    and "distinct (map fst bs)" and "those (map (\<lambda>(i, j). from_old j) bs) = Some fs"
    and decoder: "\<And>m'. map_of m' ''softforks'' = Some (Object []) \<Longrightarrow> map_of m' ''bip9_softforks'' = None \<Longrightarrow>
      (\<And>k. k \<noteq> ''softforks'' \<Longrightarrow> k \<noteq> ''bip9_softforks'' \<Longrightarrow> map_of m' k = map_of m k) \<Longrightarrow>
      from_info (Object m') = Some \<lparr>softforks = Map.empty, other_fields = info\<rparr>"
  shows "(case those (map old_softfork olds) of
      None \<Rightarrow> get_blockchain_info net from_version from_info from_old act = Ret (Err UnexpectedStructure)
    | Some es \<Rightarrow>
        (\<exists>r. get_blockchain_info net from_version from_info from_old act = Ret (Ok r) \<and> other_fields r = info \<and>
           (\<forall>i. softforks r i =
              (case map_of (zip (map fst bs) fs) i of
                 Some f \<Rightarrow> Some (new_softfork act f)
               | None \<Rightarrow> map_option buried (map_of (rev es) i)))))"
proof -
  let ?m = "map_insert ''softforks'' (Object []) (map_remove ''softforks'' (map_remove ''bip9_softforks'' m))"
  have info: "from_info (Object ?m) = Some \<lparr>softforks = Map.empty, other_fields = info\<rparr>"
    by (rule decoder) simp_all
  have run: "get_blockchain_info net from_version from_info from_old act = Ret (upgrade_blockchain_info from_info from_old act (Object m))"
    using assms(1-3) by (simp add: get_blockchain_info_def version_def call_def send_request_def and_then_def)
  have len: "length fs = length bs" using assms(7)
    by (induction bs arbitrary: fs) (auto simp: those_Cons_Some simp del: those.simps(2))
  have up: "upgrade_blockchain_info from_info from_old act (Object m) =
      bind_result (old_softforks_loop olds Map.empty) (\<lambda>sfs.
      bind_result (bip9_softforks_loop from_old act bs sfs) (\<lambda>sfs'. Ok \<lparr>softforks = sfs', other_fields = info\<rparr>))"
    using assms(4,5) info by (simp add: upgrade_blockchain_info_def as_object_def as_array_def)
  show ?thesis
  proof (cases "those (map old_softfork olds)")
    case None
    then show ?thesis by (simp add: run up old_softforks_loop_Err)
  next
    case (Some es)
    let ?z = "zip (map fst bs) (map (new_softfork act) fs)"
    have "map_of (rev ?z) = map_of ?z" using assms(6) len by (intro map_of_rev_distinct) simp
    moreover have "map_of ?z i = map_option (new_softfork act) (map_of (zip (map fst bs) fs) i)" for i
      by (simp add: zip_map2 map_of_map)
    moreover have "map_of (rev (map (\<lambda>(i, a). (i, buried a)) es)) i = map_option buried (map_of (rev es) i)" for i
      by (simp add: rev_map map_of_map)
    ultimately show ?thesis
      using Some by (auto simp: run up old_softforks_loop_Ok bip9_softforks_loop_Ok [OF assms(7)] map_add_def split: option.splits)
  qed
qed


text \<open>The answer of a node of version 0.18 with one fork of each kind.\<close>

definition old_node_fields :: "(string \<times> json) list" where
  "old_node_fields =
     [(''bip9_softforks'', Object [(''segwit'', Str ''active'')]),
      (''chain'', Str ''main''),
      (''softforks'', Array [Object [(''id'', Str ''bip34''), (''reject'', Object [(''status'', Bool True)])]])]"

definition old_node :: transport where
  "old_node cmd args =
     (if cmd = ''getblockchaininfo'' then Some (Object old_node_fields)
      else if cmd = ''getnetworkinfo'' then Some (Number 180000) else None)"

definition sample_version :: "u64 decoder" where
  "sample_version j = (case j of Number n \<Rightarrow> Some (word_of_int n) | _ \<Rightarrow> None)"

definition sample_info :: "(string, unit, json option) GetBlockchainInfoResult decoder" where
  "sample_info j =
     (case j of
        Object m \<Rightarrow>
          if map_of m ''softforks'' = Some (Object [])
          then Some \<lparr>softforks = Map.empty, other_fields = map_of m ''chain''\<rparr> else None
      | _ \<Rightarrow> None)"

definition sample_fork :: "(string, unit) OldBip9SoftFork" where
  "sample_fork = \<lparr>old_status = ''active'', old_bit = Some 1, old_start_time = 0, old_timeout = 1, old_since = 2, old_statistics = None\<rparr>"

definition sample_old :: "(string, unit) OldBip9SoftFork decoder" where
  "sample_old j = (case j of Str st \<Rightarrow> Some (sample_fork\<lparr>old_status := st\<rparr>) | _ \<Rightarrow> None)"

lemma get_blockchain_info_old_node_witness:
  "\<exists>r. get_blockchain_info old_node sample_version sample_info sample_old ''active'' = Ret (Ok r) \<and>
     other_fields r = Some (Str ''main'') \<and> softforks r ''bip34'' = Some (buried True) \<and>
     softforks r ''segwit'' = Some (new_softfork ''active'' sample_fork) \<and> softforks r ''csv'' = None"
proof -
  have "sample_info (Object m') = Some \<lparr>softforks = Map.empty, other_fields = Some (Str ''main'')\<rparr>"
    if "map_of m' ''softforks'' = Some (Object [])" "\<And>k. k \<noteq> ''softforks'' \<Longrightarrow> k \<noteq> ''bip9_softforks'' \<Longrightarrow> map_of m' k = map_of old_node_fields k" for m'
    using that(1) that(2) [of "''chain''"] by (simp add: sample_info_def old_node_fields_def)
  then show ?thesis
    using get_blockchain_info_old_node [where net = old_node and m = old_node_fields and from_version = sample_version and v = 180000
        and olds = "[Object [(''id'', Str ''bip34''), (''reject'', Object [(''status'', Bool True)])]]"
        and bs = "[(''segwit'', Str ''active'')]" and fs = "[sample_fork]" and from_old = sample_old
        and from_info = sample_info and info = "Some (Str ''main'')" and act = "''active''"]
    by (auto simp: old_node_def sample_version_def sample_old_def sample_fork_def old_node_fields_def
        old_softfork_def as_object_def as_str_def as_bool_def)
qed

end
