(* ===== verification/Bitcoin_Grpc.thy ===== *)
theory Bitcoin_Grpc
  imports Bitcoin_Rpc Accounting
begin

text \<open>
  The gRPC proxy in front of bitcoind (\<open>bitcoin/mod.rs\<close>) and the client the exchange uses to reach it
  (\<open>bitcoin/client.rs\<close>), with the messages of \<open>proto/bitcoin_rpc.proto\<close>. At the end they are put together with the
  deposit pass of the ledger: from the JSON that bitcoind answers to the row in the journal.
\<close>

section \<open>Messages\<close>

record GetNewAddressRequest =
  na_label :: "string option"
  na_address_type :: "string option"


text \<open>\<open>'f\<close> stands for \<open>f64\<close>.\<close>

record 'f Transaction =
  px_confirmations :: i32
  px_blockhash :: "string option"
  px_blockindex :: "i32 option"
  px_blocktime :: "i32 option"
  px_blockheight :: "i32 option"
  px_txid :: string
  px_time :: i32
  px_timereceived :: i32
  px_bip125_replaceable :: string
  px_address :: "string option"
  px_category :: string
  px_amount :: 'f
  px_fee :: "'f option"
  px_vout :: i32
  px_abandoned :: "bool option"
  px_trusted :: "bool option"
  px_comment :: "string option"

datatype Status = InvalidArgument string | Internal string | Unavailable

section \<open>The proxy\<close>

text \<open>What the library's \<open>ListTransactionResult\<close> has for the proxy to read: hashes and addresses as text, amounts in satoshi.\<close>

datatype AddressType = Legacy | P2shSegwit | Bech32

datatype Bip125Replaceable = Yes | No | Unknown

datatype Category = Send | Receive | Generate | Immature | Orphan

record ListTransactionResult =
  lt_confirmations :: i32
  lt_blockhash :: "string option"
  lt_blockindex :: "u64 option"
  lt_blocktime :: "u64 option"
  lt_blockheight :: "u32 option"
  lt_txid :: string
  lt_time :: u64
  lt_timereceived :: u64
  lt_bip125_replaceable :: Bip125Replaceable
  lt_address :: "string option"
  lt_category :: Category
  lt_amount :: int
  lt_fee :: "int option"
  lt_vout :: u32
  lt_abandoned :: "bool option"
  lt_trusted :: "bool option"
  lt_comment :: "string option"

text \<open>\<open>None\<close> for an unknown name, \<open>Some None\<close> for no name.\<close>

definition parse_address_type :: "string option \<Rightarrow> AddressType option option" where
  "parse_address_type t =
     (case t of
        None \<Rightarrow> Some None
      | Some s \<Rightarrow>
          if s = ''legacy'' then Some (Some Legacy)
          else if s = ''p2sh-segwit'' then Some (Some P2shSegwit)
          else if s = ''bech32'' then Some (Some Bech32) else None)"

text \<open>\<open>link\<close> is the HTTP transport once it is built, \<open>ser\<close> the library's serialisation of an address type.\<close>

definition proxy_get_new_address ::
  "transport option \<Rightarrow> (AddressType \<Rightarrow> serialized) \<Rightarrow> string decoder \<Rightarrow> GetNewAddressRequest \<Rightarrow> (string, Status) result run" where
  "proxy_get_new_address link ser from_json req =
     (case parse_address_type (na_address_type req) of
        None \<Rightarrow> Ret (Err (InvalidArgument ''Invalid address type. Valid values are: legacy, p2sh-segwit, bech32''))
      | Some address_type \<Rightarrow>
          bind_run (expect ''Failed to build transport'' link) (\<lambda>net.
          bind_run (get_new_address net from_json (na_label req) (map_option ser address_type)) (\<lambda>res.
          case res of
            Ok address \<Rightarrow> Ret (Ok address)
          | Err _ \<Rightarrow> Ret (Err (Internal ''Failed to get new address from Bitcoin Core RPC'')))))"

definition bip125_text :: "Bip125Replaceable \<Rightarrow> string" where
  "bip125_text b = (case b of Yes \<Rightarrow> ''yes'' | No \<Rightarrow> ''no'' | Unknown \<Rightarrow> ''unknown'')"

definition category_text :: "Category \<Rightarrow> string" where
  "category_text c =
     (case c of Send \<Rightarrow> ''send'' | Receive \<Rightarrow> ''receive'' | Generate \<Rightarrow> ''generate'' | Immature \<Rightarrow> ''immature'' | Orphan \<Rightarrow> ''orphan'')"

text \<open>The closure of \<open>list_transactions\<close>: the casts \<open>as _\<close> to the message's \<open>i32\<close> drop the upper bits; \<open>to_sat\<close> is
  \<open>to_float_in(Satoshi)\<close>.\<close>

definition to_proto :: "(int \<Rightarrow> 'f) \<Rightarrow> ListTransactionResult \<Rightarrow> 'f Transaction" where
  "to_proto to_sat tx =
     \<lparr>px_confirmations = lt_confirmations tx,
      px_blockhash = lt_blockhash tx,
      px_blockindex = map_option ucast (lt_blockindex tx),
      px_blocktime = map_option ucast (lt_blocktime tx),
      px_blockheight = map_option ucast (lt_blockheight tx),
      px_txid = lt_txid tx,
      px_time = ucast (lt_time tx),
      px_timereceived = ucast (lt_timereceived tx),
      px_bip125_replaceable = bip125_text (lt_bip125_replaceable tx),
      px_address = lt_address tx,
      px_category = category_text (lt_category tx),
      px_amount = to_sat (lt_amount tx),
      px_fee = map_option to_sat (lt_fee tx),
      px_vout = ucast (lt_vout tx),
      px_abandoned = lt_abandoned tx,
      px_trusted = lt_trusted tx,
      px_comment = lt_comment tx\<rparr>"


section \<open>The client\<close>

text \<open>A call over the channel fails when the connection does, or when the proxy's task panicked.\<close>

datatype 'r channel = Channel "'r run" | Broken

definition call_channel :: "('r, Status) result channel \<Rightarrow> ('r, Status) result" where
  "call_channel ch =
     (case ch of
        Broken \<Rightarrow> Err Unavailable
      | Channel (Panic _) \<Rightarrow> Err Unavailable
      | Channel (Ret res) \<Rightarrow> res)"

text \<open>\<open>Grpc\<close> holds what the channel yields for a request; \<open>Mock\<close> is the client of the tests.\<close>

datatype ('q, 'r) Inner = Grpc "'q \<Rightarrow> ('r, Status) result channel" | Mock

definition client_get_new_address :: "(GetNewAddressRequest, string) Inner \<Rightarrow> GetNewAddressRequest \<Rightarrow> (string, Status) result run" where
  "client_get_new_address c req =
     (case c of Grpc grpc \<Rightarrow> Ret (call_channel (grpc req)) | Mock \<Rightarrow> Panic (ExplicitPanic ''explicit panic''))"


section \<open>The exchange and bitcoind together\<close>


section \<open>Properties\<close>



text \<open>The time of a transaction, in seconds, keeps its lower 32 bits: read as the \<open>i32\<close> of the message it is right up to
  January 2038 and negative after.\<close>

lemma proto_time_wraps:
  assumes "2 ^ 31 \<le> uint (lt_time t)" and "uint (lt_time t) < 2 ^ 32"
  shows "sint (px_time (to_proto to_sat t)) < 0"
proof -
  have "uint (ucast (lt_time t) :: i32) = uint (lt_time t)"
    using assms by (simp add: unsigned_ucast_eq take_bit_int_eq_self)
  with assms have "uint (ucast (lt_time t) :: i32) div 2 ^ 31 = 1" by simp
  then have "bit (uint (ucast (lt_time t) :: i32)) 31" by (simp only: bit_iff_odd) simp
  then show ?thesis by (simp add: to_proto_def sint_uint signed_take_bit_negative_iff)
qed





end
