(* ===== verification/Processes.thy ===== *)
theory Processes
  imports Startup Bitcoin_Grpc
begin

text \<open>
  The two server programs: \<open>bin/exchange.rs\<close>, which loads the configuration and starts the exchange, and \<open>bin/bitcoind-grpc.rs\<close>, which starts the
  proxy in front of bitcoind (\<open>start_grpc_proxy\<close> in \<open>bitcoin/mod.rs\<close>); with the connection from one to the other
  (\<open>connect_bitcoin_rpc\<close>, \<open>BitcoinRpcClient::new_grpc\<close>). A program ends with a value of \<open>main\<close>, by a panic, by \<open>process::exit\<close>, or never.
\<close>

section \<open>The client of the proxy\<close>

text \<open>\<open>connect\<close> opens a channel to an endpoint, or fails with the error of the transport.\<close>

definition new_grpc :: "(string \<Rightarrow> ('q \<Rightarrow> ('r, Status) result channel, 'e) result) \<Rightarrow> string \<Rightarrow> (('q, 'r) Inner, 'e) result" where
  "new_grpc connect endpoint =
     (case connect endpoint of
        Err e \<Rightarrow> Err e
      | Ok bitcoin_core_rpc_client \<Rightarrow> Ok (Grpc bitcoin_core_rpc_client))"

definition new_mock :: "('q, 'r) Inner" where
  "new_mock = Mock"

definition connect_bitcoin_rpc ::
  "(string \<Rightarrow> ('q \<Rightarrow> ('r, Status) result channel, 'e) result) \<Rightarrow> Configuration \<Rightarrow> (('q, 'r) Inner, 'e) result" where
  "connect_bitcoin_rpc connect config = new_grpc connect (bitcoin_grpc_endpoint config)"

section \<open>Programs\<close>

text \<open>\<open>library\<close> collects what the environment and the libraries answer while a program starts: the parsers of the configuration, the files,
  and \<open>dotenv\<close>, the environment extended by the file \<open>.env\<close> when there is one.\<close>

record library =
  l_parse :: "string \<Rightarrow> SocketAddr option"
  l_from_shared :: "string \<Rightarrow> bool"
  l_toml :: "string \<Rightarrow> ConfigFile option"
  l_read :: "string \<Rightarrow> string option"
  l_process_env :: environment
  l_dotenv :: "environment option"

definition load_config :: "library \<Rightarrow> environment \<Rightarrow> Configuration option run" where
  "load_config l env =
     bind_run (expect ''called Option::unwrap on a None value'' (config_file_path env)) (\<lambda>path.
     load_from_path (l_parse l) (l_from_shared l) (l_toml l) (l_read l) env path)"

text \<open>\<open>Box<dyn Error>\<close>: the errors that \<open>main\<close> may return.\<close>

datatype MainError = ConfigError | Fullstack StartFullstackError | ProxyTransport

text \<open>How a process ends, and the exit status the runtime of the language gives it.\<close>

datatype ending = MainReturned "(unit, MainError) result run" | Exit nat

definition exit_status :: "ending \<Rightarrow> nat" where
  "exit_status e =
     (case e of
        MainReturned (Ret (Ok _)) \<Rightarrow> 0
      | MainReturned (Ret (Err _)) \<Rightarrow> 1
      | MainReturned (Panic _) \<Rightarrow> 101
      | Exit n \<Rightarrow> n)"

definition connected :: "('c, 'e) result \<Rightarrow> bool" where
  "connected r = (case r of Ok _ \<Rightarrow> True | Err _ \<Rightarrow> False)"

text \<open>\<open>main\<close> of \<open>bin/exchange.rs\<close>. A missing \<open>.env\<close> file panics before anything else.\<close>

definition exchange_main ::
  "bool \<Rightarrow> 'j codec \<Rightarrow> library \<Rightarrow> (string \<Rightarrow> ('q \<Rightarrow> ('r, Status) result channel, 'e) result) \<Rightarrow> 'j boot \<Rightarrow>
   (TradingEngineCmd \<times> world) list \<Rightarrow> event \<Rightarrow> ending future" where
  "exchange_main oc cd l connect b rx ev =
     (case bind_run (expect ''called Result::unwrap on an Err value'' (l_dotenv l)) (\<lambda>env.
             bind_run (load_config l env) (\<lambda>config. Ret (env, config))) of
        Panic p \<Rightarrow> Ready (MainReturned (Panic p))
      | Ret (env, None) \<Rightarrow> Ready (MainReturned (Ret (Err ConfigError)))
      | Ret (env, Some config) \<Rightarrow>
          map_future (\<lambda>r. MainReturned (bind_run r (\<lambda>res. Ret (case res of Ok u \<Rightarrow> Ok u | Err err \<Rightarrow> Err (Fullstack err)))))
            (start_fullstack oc cd env config from_host_os (b\<lparr>btc_connects := connected (connect_bitcoin_rpc connect config)\<rparr>) rx ev))"

section \<open>The proxy\<close>

record BitcoinCoreRpcImpl =
  impl_config :: Configuration
  impl_signals :: Signals

text \<open>What happens to the server: whether the reflection service builds, whether the address binds, the signal, and the milliseconds that the open
  connections still take once the server is told to stop (\<open>Never\<close> when they stay open).\<close>

record proxy_world =
  reflection_builds :: bool
  proxy_binds :: bool
  proxy_registers :: bool
  proxy_recv :: "unit option future"
  draining :: "nat future"

definition SHUTDOWN_AFTER_MS :: nat where
  "SHUTDOWN_AFTER_MS = 3000"

text \<open>
  \<open>start_grpc_proxy\<close>: how it ends, and how many milliseconds after the signal. The signal starts a timer of three seconds that exits the
  process; the server returns when its connections are done, if that is earlier.
\<close>

definition start_grpc_proxy :: "Configuration \<Rightarrow> Signals \<Rightarrow> proxy_world \<Rightarrow> (ending \<times> nat) future" where
  "start_grpc_proxy config signals w =
     (let svc = \<lparr>impl_config = config, impl_signals = signals\<rparr> in
      if \<not> reflection_builds w then Ready (MainReturned (Panic (ExpectFailed ''failed to build reflection service'')), 0)
      else if \<not> proxy_binds w then Ready (MainReturned (Ret (Err ProxyTransport)), 0)
      else case ctrl_c (impl_signals svc) (proxy_registers w) (proxy_recv w) of
        Panic p \<Rightarrow> Ready (MainReturned (Panic p), 0)
      | Ret Never \<Rightarrow> Never
      | Ret (Ready _) \<Rightarrow>
          (case draining w of
             Ready ms \<Rightarrow>
               if ms < SHUTDOWN_AFTER_MS then Ready (MainReturned (Ret (Ok ())), ms) else Ready (Exit 1, SHUTDOWN_AFTER_MS)
           | Never \<Rightarrow> Ready (Exit 1, SHUTDOWN_AFTER_MS)))"

text \<open>\<open>main\<close> of \<open>bin/bitcoind-grpc.rs\<close>, where a missing \<open>.env\<close> file is no error.\<close>

definition bitcoind_grpc_main :: "library \<Rightarrow> proxy_world \<Rightarrow> (ending \<times> nat) future" where
  "bitcoind_grpc_main l w =
     (let env = (case l_dotenv l of Some env \<Rightarrow> env | None \<Rightarrow> l_process_env l) in
      case load_config l env of
        Panic p \<Rightarrow> Ready (MainReturned (Panic p), 0)
      | Ret None \<Rightarrow> Ready (MainReturned (Ret (Err ConfigError)), 0)
      | Ret (Some config) \<Rightarrow> start_grpc_proxy config from_host_os w)"

section \<open>How the programs end\<close>

text \<open>Without a file \<open>.env\<close> the exchange panics, while the proxy goes on with the environment of the process.\<close>

lemma missing_dotenv:
  assumes "l_dotenv l = None"
  shows "map_future exit_status (exchange_main oc cd l connect b rx ev) = Ready 101"
    and "load_config l (l_process_env l) = Ret (Some config) \<Longrightarrow> bitcoind_grpc_main l w = start_grpc_proxy config from_host_os w"
  using assms by (simp_all add: exchange_main_def bitcoind_grpc_main_def exit_status_def)

text \<open>Once the signal arrived, the proxy is gone within three seconds, and its status is 0 exactly when the open connections ended before.\<close>

lemma proxy_stops:
  assumes "reflection_builds w" and "proxy_binds w" and "proxy_registers w" and "proxy_recv w = Ready r"
  shows "case start_grpc_proxy config from_host_os w of
      Never \<Rightarrow> False
    | Ready (e, ms) \<Rightarrow> ms \<le> SHUTDOWN_AFTER_MS \<and> (exit_status e = 0 \<longleftrightarrow> (\<exists>d < SHUTDOWN_AFTER_MS. draining w = Ready d))"
  using assms by (cases r; cases "draining w") (auto simp: start_grpc_proxy_def ctrl_c_def from_host_os_def exit_status_def)






end
