(* ===== verification/Bitcoind_Cli.thy ===== *)
theory Bitcoind_Cli
  imports Bitcoin_Rpc
begin

text \<open>
  The command line client of bitcoind (\<open>bin/bitcoind-cli.rs\<close>): each subcommand is one call of the JSON-RPC client, whose
  result is printed. The parsers of addresses, hashes and outputs and the printer are parameters.
\<close>

datatype Command =
    GetNetworkinfo
  | LoadWallet string
  | ListWallets
  | ListTransactions string u64
  | GetWalletInfo
  | DumpPrivkey string
  | EncryptWallet string
  | GetDifficulty
  | GetConnectioncount
  | GetBlock string
  | GetBlockheader string
  | GetMiningInfo
  | GetBlockchainInfo
  | GetBlockCount
  | GetBestBlockHash
  | GetBlockHash u64
  | GetBlockFilter string
  | GetBalances
  | SetLabel string string
  | LockUnspent bool "string list"
  | TestMempoolAccept "string list"
  | Stop
  | GetAddressInfo string
  | Generate u64 "u64 option"
  | InvalidateBlock string
  | ReconsiderBlock string
  | GetRawmempool
  | GetMempoolEntry string
  | GetPeerinfo
  | Ping
  | SendRawTransaction string
  | WaitForNewBlock
  | GetDescriptorInfo string
  | CombinePsbt "string list"
  | GetTxOutsetInfo
  | GetNetTotals
  | Uptime
  | ScanTxOutset

text \<open>
  What the libraries do: \<open>decode\<close> reads the answer to a method as its result type and gives the JSON of that result, \<open>pretty\<close> prints JSON,
  \<open>parse_address\<close> gives the text of an address, \<open>parse_hash\<close> a hash as it serialises, \<open>parse_output\<close> an output;
  \<open>to_hex\<close> writes bytes in hexadecimal. The last five are what \<open>get_blockchain_info\<close> needs, and its result as JSON.
\<close>

record ('st, 'sx, 'i) libs =
  decode :: "string \<Rightarrow> json decoder"
  pretty :: "json \<Rightarrow> string"
  parse_address :: "string \<Rightarrow> string option"
  parse_hash :: "string \<Rightarrow> serialized option"
  parse_output :: "string \<Rightarrow> OutPoint option"
  to_hex :: "string \<Rightarrow> string"
  from_version :: "u64 decoder"
  from_info :: "('st, 'sx, 'i) GetBlockchainInfoResult decoder"
  from_old :: "('st, 'sx) OldBip9SoftFork decoder"
  status_active :: 'st
  show_info :: "('st, 'sx, 'i) GetBlockchainInfoResult \<Rightarrow> json"

definition unwrap_call :: "json reply \<Rightarrow> json run" where
  "unwrap_call r =
     bind_run r (\<lambda>res. case res of Ok t \<Rightarrow> Ret t | Err _ \<Rightarrow> Panic (ExpectFailed ''called Result::unwrap on an Err value''))"

definition unwrap :: "'a option \<Rightarrow> 'a run" where
  "unwrap v = expect ''called Result::unwrap on an Err value'' v"

fun unwrap_all :: "('a \<Rightarrow> 'b option) \<Rightarrow> 'a list \<Rightarrow> 'b list run" where
  "unwrap_all f [] = Ret []"
| "unwrap_all f (x # xs) = bind_run (unwrap (f x)) (\<lambda>y. bind_run (unwrap_all f xs) (\<lambda>ys. Ret (y # ys)))"

text \<open>A boolean result is read as JSON and printed as such.\<close>

definition lock_reply :: "bool reply \<Rightarrow> json reply" where
  "lock_reply r = and_then r (\<lambda>b. Ok (Bool b))"

text \<open>\<open>main\<close>, on a built transport: the printed text.\<close>

fun run_command :: "('st, 'sx, 'i) libs \<Rightarrow> transport \<Rightarrow> Command \<Rightarrow> json run" where
  "run_command l net GetNetworkinfo = unwrap_call (get_network_info net (decode l ''getnetworkinfo''))"
| "run_command l net (ListTransactions label count) =
     unwrap_call (list_transactions net (decode l ''listtransactions'') (Some label) (Some count) None None)"
| "run_command l net (LoadWallet wallet) = unwrap_call (load_wallet net (decode l ''loadwallet'') wallet)"
| "run_command l net ListWallets = unwrap_call (list_wallets net (decode l ''listwallets''))"
| "run_command l net GetWalletInfo = unwrap_call (get_wallet_info net (decode l ''getwalletinfo''))"
| "run_command l net (DumpPrivkey address) =
     bind_run (unwrap (parse_address l address)) (\<lambda>a. unwrap_call (dump_private_key net (decode l ''dumpprivkey'') a))"
| "run_command l net (EncryptWallet passphrase) = unwrap_call (encrypt_wallet net (decode l ''encryptwallet'') passphrase)"
| "run_command l net GetDifficulty = unwrap_call (get_difficulty net (decode l ''getdifficulty''))"
| "run_command l net GetConnectioncount = unwrap_call (get_connection_count net (decode l ''getconnectioncount''))"
| "run_command l net (GetBlock blockhash) =
     bind_run (unwrap (parse_hash l blockhash)) (\<lambda>h. unwrap_call (get_block_info net (decode l ''getblock'') h))"
| "run_command l net (GetBlockheader blockhash) = Panic TodoReached"
| "run_command l net GetMiningInfo = unwrap_call (get_mining_info net (decode l ''getmininginfo''))"
| "run_command l net GetBlockchainInfo = 
     unwrap_call (and_then (get_blockchain_info net (from_version l) (from_info l) (from_old l) (status_active l)) (\<lambda>i. Ok (show_info l i)))"
| "run_command l net GetBlockCount = unwrap_call (get_block_count net (decode l ''getblockcount''))"
| "run_command l net GetBestBlockHash = unwrap_call (get_best_block_hash net (decode l ''getbestblockhash''))"
| "run_command l net (GetBlockHash block_height) = unwrap_call (get_block_hash net (decode l ''getblockhash'') block_height)"
| "run_command l net (GetBlockFilter blockhash) =
     bind_run (unwrap (parse_hash l blockhash)) (\<lambda>h. unwrap_call (get_block_filter net (decode l ''getblockfilter'') h))"
| "run_command l net GetBalances = unwrap_call (get_balances net (decode l ''getbalances''))"
| "run_command l net (SetLabel address label) =
     bind_run (unwrap (parse_address l address)) (\<lambda>a. unwrap_call (set_label net (decode l ''setlabel'') a label))"
| "run_command l net (LockUnspent unlock outputs) =
     bind_run (unwrap_all (parse_output l) outputs) (\<lambda>outputs.
     if unlock then unwrap_call (lock_reply (unlock_unspent net (\<lambda>j. Option.bind (decode l ''lockunspent'' j) as_bool) outputs))
     else unwrap_call (lock_reply (lock_unspent net (\<lambda>j. Option.bind (decode l ''lockunspent'' j) as_bool) outputs)))"
| "run_command l net (TestMempoolAccept rawtxs) =
     unwrap_call (test_mempool_accept net (decode l ''testmempoolaccept'') (to_hex l) (map OwnedString rawtxs))"
| "run_command l net Stop = unwrap_call (stop net (decode l ''stop''))"
| "run_command l net (GetAddressInfo address) =
     bind_run (unwrap (parse_address l address)) (\<lambda>a. unwrap_call (get_address_info net (decode l ''getaddressinfo'') a))"
| "run_command l net (Generate nblocks maxtries) = unwrap_call (generate net (decode l ''generate'') nblocks maxtries)"
| "run_command l net (InvalidateBlock blockhash) =
     bind_run (unwrap (parse_hash l blockhash)) (\<lambda>h. unwrap_call (invalidate_block net (decode l ''invalidateblock'') h))"
| "run_command l net (ReconsiderBlock blockhash) =
     bind_run (unwrap (parse_hash l blockhash)) (\<lambda>h. unwrap_call (reconsider_block net (decode l ''reconsiderblock'') h))"
| "run_command l net GetRawmempool = unwrap_call (get_raw_mempool net (decode l ''getrawmempool''))"
| "run_command l net (GetMempoolEntry txid) =
     bind_run (unwrap (parse_hash l txid)) (\<lambda>h. unwrap_call (get_mempool_entry net (decode l ''getmempoolentry'') h))"
| "run_command l net GetPeerinfo = unwrap_call (get_peer_info net (decode l ''getpeerinfo''))"
| "run_command l net Ping = bind_run (unwrap_call (ping net (decode l ''ping''))) (\<lambda>_. Ret Null)"
| "run_command l net (SendRawTransaction hexstring) =
     unwrap_call (send_raw_transaction net (decode l ''sendrawtransaction'') (to_hex l) (Slice hexstring))"
| "run_command l net WaitForNewBlock = unwrap_call (wait_for_new_block net (decode l ''waitfornewblock'') 1000)"
| "run_command l net (GetDescriptorInfo desc) = unwrap_call (get_descriptor_info net (decode l ''getdescriptorinfo'') desc)"
| "run_command l net (CombinePsbt txs) = unwrap_call (combine_psbt net (decode l ''combinepsbt'') txs)"
| "run_command l net GetTxOutsetInfo = unwrap_call (get_tx_out_set_info net (decode l ''gettxoutsetinfo''))"
| "run_command l net GetNetTotals = unwrap_call (get_net_totals net (decode l ''getnettotals''))"
| "run_command l net Uptime = unwrap_call (uptime net (decode l ''uptime''))"
| "run_command l net ScanTxOutset = unwrap_call (scan_tx_out_set_blocking net (decode l ''scantxoutset'') [])"

record Args =
  bitcoind_rpc_url :: string
  user :: string
  pass :: string
  command :: Command

text \<open>\<open>main\<close>: \<open>build url auth\<close> builds the HTTP transport.\<close>

definition cli_main ::
  "('st, 'sx, 'i) libs \<Rightarrow> (string \<Rightarrow> string \<times> string option \<Rightarrow> transport option) \<Rightarrow> Args \<Rightarrow> string run" where
  "cli_main l build args =
     bind_run (expect ''Failed to build transport'' (build (bitcoind_rpc_url args) (user args, Some (pass args)))) (\<lambda>net.
     bind_run (run_command l net (command args)) (\<lambda>t. Ret (pretty l t)))"

section \<open>Properties\<close>

lemma unwrap_call_call:
  "unwrap_call (call net dec cmd args) = Ret t \<longleftrightarrow> (\<exists>xs. array_of args = Ok xs \<and> Option.bind (net cmd xs) dec = Some t)"
  by (auto simp: unwrap_call_def call_def send_request_def bind_result_def ok_or_def split: result.splits option.splits)

text \<open>Sending a transaction from the command line never sends it. The text of the transaction, already hexadecimal, is written in hexadecimal a
  second time: what bitcoind receives is the encoding of the text's bytes, twice as long, and never the transaction that
  was given, while the dry run \<open>test-mempool-accept\<close> passes the same text on as it is.\<close>

lemma send_raw_transaction_encodes_twice:
  assumes "\<And>bs. length (to_hex l bs) = 2 * length bs" and "tx \<noteq> []"
    and "run_command l net (SendRawTransaction tx) = Ret t" and "run_command l net (TestMempoolAccept [tx]) = Ret t'"
  shows "\<exists>sent. sent \<noteq> tx \<and> length sent = 2 * length tx \<and>
    Option.bind (net ''sendrawtransaction'' [Str sent]) (decode l ''sendrawtransaction'') = Some t \<and>
    Option.bind (net ''testmempoolaccept'' [Array [Str tx]]) (decode l ''testmempoolaccept'') = Some t'"
proof (intro exI [of _ "to_hex l tx"] conjI)
  show "to_hex l tx \<noteq> tx" using assms(1) [of tx] assms(2) by auto
qed (use assms in \<open>simp_all add: send_raw_transaction_def test_mempool_accept_def raw_hex_def unwrap_call_call\<close>)

definition sample_libs :: "(unit, unit, unit) libs" where
  "sample_libs = \<lparr>decode = (\<lambda>_. Some), pretty = (\<lambda>_. []), parse_address = Some, parse_hash = (\<lambda>s. Some (of_str s)),
     parse_output = (\<lambda>_. None), to_hex = (\<lambda>bs. concat (map (\<lambda>c. [CHR ''3'', c]) bs)), from_version = (\<lambda>_. None), from_info = (\<lambda>_. None),
     from_old = (\<lambda>_. None), status_active = (), show_info = (\<lambda>_. Null)\<rparr>"

lemma send_raw_transaction_encodes_twice_witness:
  "\<exists>sent. sent \<noteq> ''02'' \<and> length sent = 4 \<and> Option.bind ((\<lambda>cmd args. Some (Array args)) ''sendrawtransaction'' [Str sent]) Some =
     Some (Array [Str ''3032''])"
proof -
  have len: "length (to_hex sample_libs bs) = 2 * length bs" for bs
    by (induction bs) (simp_all add: sample_libs_def)
  have "run_command sample_libs (\<lambda>cmd args. Some (Array args)) (SendRawTransaction ''02'') = Ret (Array [Str ''3032''])"
    "run_command sample_libs (\<lambda>cmd args. Some (Array args)) (TestMempoolAccept [''02'']) = Ret (Array [Array [Str ''02'']])"
    by (simp_all add: sample_libs_def send_raw_transaction_def test_mempool_accept_def raw_hex_def unwrap_call_call)
  from send_raw_transaction_encodes_twice [OF len _ this] show ?thesis by (auto simp: sample_libs_def)
qed

end
