(* ===== verification/Order_Tasks.thy ===== *)
theory Order_Tasks
  imports App_Cx
begin

text \<open>
  Order requests that run at the same time. A handler gives up control at every \<open>await\<close>: after each query, when the bounded channel to the
  engine is full, and while the engine has not answered. Between two of these points it is a step of a task; the
  engine's loop is another task, and the timeout layer of \<open>web/mod.rs\<close>, like a client that goes away, drops the future of a
  request at any of them. The sequential handler is \<open>trade_add_order\<close> of \<open>App_Cx\<close>; here the same code
  (\<open>trade_add_order.rs\<close>, \<open>app_cx.rs\<close>, \<open>reserve_ok.rs\<close>, \<open>defer_guard.rs\<close>) is cut into its steps.
\<close>

section \<open>Tasks and what they share\<close>

text \<open>Where a request stands; a request that ended may leave the journal row of its reservation in place.\<close>

datatype phase =
    Entered
  | Checking Asset
  | Inserting Asset u64
  | Rechecking Asset u64 int
  | Sending Asset ReserveOk
  | Reverting ReserveOk
  | Waiting ReserveOk
  | Deferred ReserveOk
  | Finished "int option"

record order_task =
  ot_user :: Uuid
  ot_path :: string
  ot_body :: TradeAddOrder
  ot_phase :: phase
  ot_answer :: "Response run option"

definition new_task :: "Uuid \<Rightarrow> string \<Rightarrow> TradeAddOrder \<Rightarrow> order_task" where
  "new_task u path body = \<lparr>ot_user = u, ot_path = path, ot_body = body, ot_phase = Entered, ot_answer = None\<rparr>"

text \<open>The ledger, the engine, the commands in its channel, and whether the engine still receives.\<close>

record 'j Shared =
  sh_ledger :: Ledger
  sh_engine :: "'j Supervisor"
  sh_queue :: "TradingEngineCmd list"
  sh_open :: bool

definition finish :: "int option \<Rightarrow> Response run \<Rightarrow> order_task \<Rightarrow> order_task" where
  "finish kept res t = t\<lparr>ot_phase := Finished kept, ot_answer := Some res\<rparr>"

definition not_placed :: "Response run" where
  "not_placed = Ret (internal_server_error ''failed to place order'')"

definition task_currency :: "order_task \<Rightarrow> Asset \<Rightarrow> string" where
  "task_currency t asset = reserve_currency (ta_side (ot_body t)) asset"

definition task_quantity :: "order_task \<Rightarrow> NonZeroU32" where
  "task_quantity t = ta_quantity (ot_body t)"

text \<open>The \<open>?\<close> on a reservation error: the conversion of a database error is \<open>todo!\<close>.\<close>

definition refused :: "int option \<Rightarrow> ReserveError \<Rightarrow> order_task \<Rightarrow> order_task" where
  "refused kept e t = finish kept (bind_run (PlaceOrderError_from_ReserveError e) (\<lambda>_. not_placed)) t"

section \<open>Steps of a request\<close>

definition step_enter :: "TradingEngineState \<Rightarrow> order_task \<Rightarrow> order_task" where
  "step_enter te_state t =
     (case parse_asset (ot_path t) of
        None \<Rightarrow> finish None (Ret (response 404 (Text ''invalid asset''))) t
      | Some asset \<Rightarrow>
          if \<not> contains_asset internal_asset_list (ByValue asset)
          then finish None (Ret (response 404 (Text ''asset not enabled''))) t
          else if te_state \<noteq> TeRunning then finish None not_placed t
          else t\<lparr>ot_phase := Checking asset\<rparr>)"

definition step_check :: "bool \<Rightarrow> (Uuid \<Rightarrow> string) \<Rightarrow> Ledger \<Rightarrow> Asset \<Rightarrow> order_task \<Rightarrow> order_task" where
  "step_check up us L asset t =
     (case reserve_check up us L (ot_user t) (task_quantity t) (task_currency t asset) of
        Err e \<Rightarrow> refused None e t
      | Ok balance \<Rightarrow> t\<lparr>ot_phase := Inserting asset balance\<rparr>)"

definition step_insert ::
  "bool \<Rightarrow> Schema \<Rightarrow> (Uuid \<Rightarrow> string) \<Rightarrow> Ledger \<Rightarrow> Asset \<Rightarrow> u64 \<Rightarrow> order_task \<Rightarrow> Ledger \<times> order_task" where
  "step_insert up sc us L asset balance t =
     (case reserve_insert up sc us L (ot_user t) (task_quantity t) (task_currency t asset) of
        Err e \<Rightarrow> (L, refused None (ReserveDatabase e) t)
      | Ok (L', i) \<Rightarrow> (L', t\<lparr>ot_phase := Rechecking asset balance i\<rparr>))"

definition step_recheck :: "bool \<Rightarrow> (Uuid \<Rightarrow> string) \<Rightarrow> Ledger \<Rightarrow> Asset \<Rightarrow> u64 \<Rightarrow> int \<Rightarrow> order_task \<Rightarrow> order_task" where
  "step_recheck up us L asset balance i t =
     (case calculate_balance_from_accounting up us L (ot_user t) (task_currency t asset) of
        Err e \<Rightarrow> refused (Some i) (ReserveDatabase e) t
      | Ok nb \<Rightarrow>
          if case nb of Some b \<Rightarrow> b < balance | None \<Rightarrow> True
          then t\<lparr>ot_phase := Sending asset \<lparr>row_id = word_of_int i, previous_balance = balance, new_balance = nb\<rparr>\<rparr>
          else finish (Some i) (Panic AssertFailed) t)"

text \<open>\<open>te_tx.send(..).await\<close>: an error when the receiver is gone, otherwise it waits for room.\<close>

definition step_send ::
  "nat \<Rightarrow> nat \<Rightarrow> Asset \<Rightarrow> ReserveOk \<Rightarrow> 'j Shared \<Rightarrow> order_task \<Rightarrow> ('j Shared \<times> order_task) option" where
  "step_send cap tx asset r sh t =
     (if \<not> sh_open sh then Some (sh, t\<lparr>ot_phase := Reverting r\<rparr>)
      else if length (sh_queue sh) < cap
      then Some (sh\<lparr>sh_queue := sh_queue sh @ [Trade (CmdPlaceOrder (order_of_request asset (ot_user t) (ot_body t)) tx)]\<rparr>,
                 t\<lparr>ot_phase := Waiting r\<rparr>)
      else None)"

text \<open>The revert, awaited in \<open>place_order\<close> or spawned by the guard: a failure is logged and the row stays.\<close>

definition step_revert :: "bool \<Rightarrow> Schema \<Rightarrow> Ledger \<Rightarrow> ReserveOk \<Rightarrow> Ledger \<times> int option" where
  "step_revert up sc L r =
     (case revert up sc L r of
        (L', Ok _) \<Rightarrow> (L', None)
      | (L', Err _) \<Rightarrow> (L', Some (sint (row_id r))))"

definition channel_of_cmd :: "TradingEngineCmd \<Rightarrow> nat option" where
  "channel_of_cmd cmd =
     (case cmd of Trade (CmdPlaceOrder _ tx) \<Rightarrow> Some tx | Trade (CmdCancelOrder _ tx) \<Rightarrow> Some tx | _ \<Rightarrow> None)"

text \<open>\<open>response.wait().await\<close> is ready when the answer was sent, or when the sender is gone with the command. The guard is cancelled if the
  order was placed; otherwise its drop at the end of the handler spawns the revert.\<close>

definition step_wait :: "nat \<Rightarrow> ReserveOk \<Rightarrow> 'j Shared \<Rightarrow> order_task \<Rightarrow> order_task option" where
  "step_wait tx r sh t =
     (let reply = TeResponse_wait (sent (sh_engine sh)) tx in
      if reply = None \<and> Some tx \<in> channel_of_cmd ` set (sh_queue sh) then None
      else Some ((if reply_placed reply then finish (Some (sint (row_id r))) (Ret (add_order_response reply)) t
                  else t\<lparr>ot_phase := Deferred r, ot_answer := Some (Ret (add_order_response reply))\<rparr>)))"

text \<open>One step of the request with channel \<open>tx\<close>; \<open>None\<close> when it waits or has ended.\<close>

definition order_step ::
  "Schema \<Rightarrow> (Uuid \<Rightarrow> string) \<Rightarrow> TradingEngineState \<Rightarrow> nat \<Rightarrow> bool \<Rightarrow> nat \<Rightarrow> 'j Shared \<Rightarrow> order_task \<Rightarrow>
   ('j Shared \<times> order_task) option" where
  "order_step sc us te_state cap up tx sh t =
     (case ot_phase t of
        Entered \<Rightarrow> Some (sh, step_enter te_state t)
      | Checking asset \<Rightarrow> Some (sh, step_check up us (sh_ledger sh) asset t)
      | Inserting asset balance \<Rightarrow>
          (let (L, t') = step_insert up sc us (sh_ledger sh) asset balance t in Some (sh\<lparr>sh_ledger := L\<rparr>, t'))
      | Rechecking asset balance i \<Rightarrow> Some (sh, step_recheck up us (sh_ledger sh) asset balance i t)
      | Sending asset r \<Rightarrow> step_send cap tx asset r sh t
      | Reverting r \<Rightarrow>
          (let (L, kept) = step_revert up sc (sh_ledger sh) r in Some (sh\<lparr>sh_ledger := L\<rparr>, finish kept not_placed t))
      | Waiting r \<Rightarrow> map_option (Pair sh) (step_wait tx r sh t)
      | Deferred r \<Rightarrow>
          (let (L, kept) = step_revert up sc (sh_ledger sh) r in Some (sh\<lparr>sh_ledger := L\<rparr>, t\<lparr>ot_phase := Finished kept\<rparr>))
      | Finished _ \<Rightarrow> None)"

text \<open>
  The future of the request is dropped, by the timeout or with its connection. Only from \<open>response.wait()\<close> on is there a guard
  to drop; the spawned revert is a task of its own and goes on.
\<close>

definition drop_request :: "order_task \<Rightarrow> order_task" where
  "drop_request t =
     (case ot_phase t of
        Rechecking _ _ i \<Rightarrow> t\<lparr>ot_phase := Finished (Some i)\<rparr>
      | Sending _ r \<Rightarrow> t\<lparr>ot_phase := Finished (Some (sint (row_id r)))\<rparr>
      | Reverting r \<Rightarrow> t\<lparr>ot_phase := Finished (Some (sint (row_id r)))\<rparr>
      | Waiting r \<Rightarrow> t\<lparr>ot_phase := Deferred r\<rparr>
      | Deferred _ \<Rightarrow> t
      | Finished _ \<Rightarrow> t
      | _ \<Rightarrow> t\<lparr>ot_phase := Finished None\<rparr>)"

section \<open>The engine and the whole\<close>

text \<open>The engine takes the oldest command; when its task ends, the commands still in the channel are dropped with their senders.\<close>

definition engine_step :: "bool \<Rightarrow> 'j codec \<Rightarrow> world \<Rightarrow> 'j Shared \<Rightarrow> 'j Shared option" where
  "engine_step oc cd w sh =
     (if \<not> sh_open sh then None
      else case sh_queue sh of
        [] \<Rightarrow> None
      | cmd # queue \<Rightarrow>
          Some (case supervisor_step oc cd w cmd (sh_engine sh) of
                  Panic _ \<Rightarrow> sh\<lparr>sh_queue := [], sh_open := False\<rparr>
                | Ret (e, Continue) \<Rightarrow> sh\<lparr>sh_engine := e, sh_queue := queue\<rparr>
                | Ret (e, Break) \<Rightarrow> sh\<lparr>sh_engine := e, sh_queue := [], sh_open := False\<rparr>))"

text \<open>An event: a request runs, with its query served or not; a request is dropped; the engine runs; somebody else sends a command.\<close>

datatype task_event = Run nat bool | Drop nat | EngineRuns world | Sends TradingEngineCmd

record 'j setting =
  st_schema :: Schema
  st_us :: "Uuid \<Rightarrow> string"
  st_te_state :: TradingEngineState
  st_capacity :: nat
  st_oc :: bool
  st_codec :: "'j codec"

definition do_event :: "'j setting \<Rightarrow> task_event \<Rightarrow> 'j Shared \<times> order_task list \<Rightarrow> ('j Shared \<times> order_task list) option" where
  "do_event cfg ev s =
     (case s of (sh, ts) \<Rightarrow>
      case ev of
        Run i up \<Rightarrow>
          if i < length ts
          then map_option (\<lambda>(sh', t'). (sh', ts[i := t']))
                 (order_step (st_schema cfg) (st_us cfg) (st_te_state cfg) (st_capacity cfg) up i sh (ts ! i))
          else None
      | Drop i \<Rightarrow> if i < length ts then Some (sh, ts[i := drop_request (ts ! i)]) else None
      | EngineRuns w \<Rightarrow> map_option (\<lambda>sh'. (sh', ts)) (engine_step (st_oc cfg) (st_codec cfg) w sh)
      | Sends cmd \<Rightarrow>
          if sh_open sh \<and> length (sh_queue sh) < st_capacity cfg \<and> (case channel_of_cmd cmd of None \<Rightarrow> True | Some tx \<Rightarrow> length ts \<le> tx)
          then Some (sh\<lparr>sh_queue := sh_queue sh @ [cmd]\<rparr>, ts) else None)"

fun do_events :: "'j setting \<Rightarrow> task_event list \<Rightarrow> 'j Shared \<times> order_task list \<Rightarrow> ('j Shared \<times> order_task list) option" where
  "do_events cfg [] s = Some s"
| "do_events cfg (ev # evs) s = Option.bind (do_event cfg ev s) (do_events cfg evs)"

section \<open>What a request holds\<close>

text \<open>The journal row of a reservation that is neither reverted nor known to be unwritten.\<close>

definition held_row :: "order_task \<Rightarrow> int option" where
  "held_row t =
     (case ot_phase t of
        Rechecking _ _ i \<Rightarrow> Some i
      | Sending _ r \<Rightarrow> Some (sint (row_id r))
      | Reverting r \<Rightarrow> Some (sint (row_id r))
      | Waiting r \<Rightarrow> Some (sint (row_id r))
      | Deferred r \<Rightarrow> Some (sint (row_id r))
      | Finished kept \<Rightarrow> kept
      | _ \<Rightarrow> None)"

definition phase_asset :: "order_task \<Rightarrow> Asset option" where
  "phase_asset t =
     (case ot_phase t of
        Checking a \<Rightarrow> Some a | Inserting a _ \<Rightarrow> Some a | Rechecking a _ _ \<Rightarrow> Some a | Sending a _ \<Rightarrow> Some a | _ \<Rightarrow> None)"

definition credit_ids :: "Account list \<Rightarrow> string \<Rightarrow> int list" where
  "credit_ids acs cur =
     map ac_id (filter (\<lambda>a. ac_source_type a = ''fiat'' \<and> ac_source_id a = ''exchange'' \<and> ac_currency a = cur) acs)"

definition debit_ids :: "Account list \<Rightarrow> string \<Rightarrow> int list" where
  "debit_ids acs source = map ac_id (filter (\<lambda>a. ac_source_type a = ''user'' \<and> ac_source_id a = source) acs)"

text \<open>What a reservation moves: the quantity, from the user's account to the exchange's.\<close>

definition reservation :: "(Uuid \<Rightarrow> string) \<Rightarrow> Account list \<Rightarrow> order_task \<Rightarrow> int \<Rightarrow> int" where
  "reservation us acs t i =
     (case parse_asset (ot_path t) of
        None \<Rightarrow> 0
      | Some a \<Rightarrow>
          (if credit_ids acs (task_currency t a) = [i] then uint (nz_get (task_quantity t)) else 0) -
          (if debit_ids acs (us (ot_user t)) = [i] then uint (nz_get (task_quantity t)) else 0))"

definition held :: "(Uuid \<Rightarrow> string) \<Rightarrow> Account list \<Rightarrow> order_task \<Rightarrow> int \<Rightarrow> int" where
  "held us acs t i = (if held_row t = None then 0 else reservation us acs t i)"

lemma reservation_phase [simp]: "reservation us acs (t\<lparr>ot_phase := p\<rparr>) i = reservation us acs t i"
  by (simp add: reservation_def task_currency_def task_quantity_def split: option.splits)

text \<open>What a request may rely on: the row it holds is in the journal, as it wrote it.\<close>

definition row_of :: "(Uuid \<Rightarrow> string) \<Rightarrow> Ledger \<Rightarrow> order_task \<Rightarrow> JournalRow \<Rightarrow> bool" where
  "row_of us L t r \<longleftrightarrow> r \<in> set (journal L) \<and> jr_amount r = uint (nz_get (task_quantity t)) \<and>
     (\<exists>a. parse_asset (ot_path t) = Some a \<and> credit_ids (accounts L) (task_currency t a) = [jr_credit r]) \<and>
     debit_ids (accounts L) (us (ot_user t)) = [jr_debit r]"

definition task_ok :: "(Uuid \<Rightarrow> string) \<Rightarrow> Ledger \<Rightarrow> order_task \<Rightarrow> bool" where
  "task_ok us L t \<longleftrightarrow>
     (\<forall>a. phase_asset t = Some a \<longrightarrow> parse_asset (ot_path t) = Some a) \<and>
     (\<forall>k. held_row t = Some k \<longrightarrow> 0 < k \<and> k < 2 ^ 31 \<and> (\<exists>r. row_of us L t r \<and> jr_id r = k))"

lemmas task_defs = held_row_def phase_asset_def finish_def refused_def task_currency_def task_quantity_def

lemma scalar_subquery_Some [simp]: "scalar_subquery xs = Ok (Some x) \<longleftrightarrow> xs = [x]"
  by (cases xs rule: scalar_subquery.cases) auto

lemma reserve_insert_Ok:
  assumes "reserve_insert up sc us L u q cur = Ok (L', i)"
  obtains c d where "credit_ids (accounts L) cur = [c]" "debit_ids (accounts L) (us u) = [d]"
    "journal_insert sc L (Some c) (Some d) cur (uint (nz_get q)) ''reserve asset'' None = Ok (L', i)"
proof -
  from assms obtain credit debit where sub: "scalar_subquery (credit_ids (accounts L) cur) = Ok credit"
      "scalar_subquery (debit_ids (accounts L) (us u)) = Ok debit"
      "journal_insert sc L credit debit cur (uint (nz_get q)) ''reserve asset'' None = Ok (L', i)"
    by (auto simp: reserve_insert_def credit_ids_def debit_ids_def split: if_splits result.splits)
  from sub(3) obtain c d where "credit = Some c" "debit = Some d" by (rule journal_insert_Ok)
  with sub that show thesis by simp
qed

lemma revert_Err: "revert up sc L r = (L', Err e) \<Longrightarrow> L' = L"
  by (auto simp: revert_def split: if_splits option.splits result.splits)

text \<open>A step keeps the ledger and the held row, or writes the row, or reverts it.\<close>

lemma order_step_effect:
  assumes "order_step sc us te cap up tx sh t = Some (sh', t')" and "task_ok us (sh_ledger sh) t"
  shows "ot_user t' = ot_user t \<and> ot_path t' = ot_path t \<and> ot_body t' = ot_body t \<and>
    (\<forall>a. phase_asset t' = Some a \<longrightarrow> parse_asset (ot_path t) = Some a) \<and>
    (sh_ledger sh' = sh_ledger sh \<and> held_row t' = held_row t \<or>
     (\<exists>a i. parse_asset (ot_path t) = Some a \<and> held_row t = None \<and> held_row t' = Some i \<and>
        reserve_insert up sc us (sh_ledger sh) (ot_user t) (task_quantity t) (task_currency t a) = Ok (sh_ledger sh', i)) \<or>
     (\<exists>r n. held_row t = Some (sint (row_id r)) \<and> held_row t' = None \<and> revert up sc (sh_ledger sh) r = (sh_ledger sh', Ok n)))"
proof (cases "ot_phase t")
  case (Rechecking a b i)
  with assms(2) have "sint (word_of_int i :: u32) = i" by (auto simp: task_ok_def held_row_def intro!: sint_row_id)
  with assms Rechecking show ?thesis
    by (auto simp: order_step_def step_recheck_def task_ok_def task_defs split: result.splits if_splits)
next
  case (Inserting a b)
  with assms show ?thesis
    by (auto simp: order_step_def step_insert_def task_ok_def task_defs split: result.splits)
next
  case (Reverting r)
  with assms show ?thesis
    by (auto simp: order_step_def step_revert_def task_ok_def task_defs dest: revert_Err split: prod.splits result.splits)
next
  case (Deferred r)
  with assms show ?thesis
    by (auto simp: order_step_def step_revert_def task_ok_def task_defs dest: revert_Err split: prod.splits result.splits)
next
  case (Waiting r)
  with assms show ?thesis
    by (auto simp: order_step_def step_wait_def task_ok_def task_defs Let_def split: if_splits)
next
  case (Sending a r)
  with assms show ?thesis
    by (auto simp: order_step_def step_send_def task_ok_def task_defs split: if_splits)
qed (use assms in \<open>auto simp: order_step_def step_enter_def step_check_def task_ok_def task_defs split: option.splits result.splits if_splits\<close>)

section \<open>Accounting for every interleaving\<close>

definition request_step :: "'j setting \<Rightarrow> Ledger \<Rightarrow> order_task \<Rightarrow> Ledger \<Rightarrow> order_task \<Rightarrow> bool" where
  "request_step cfg L t L' t' \<longleftrightarrow>
     (\<exists>up tx sh sh'. order_step (st_schema cfg) (st_us cfg) (st_te_state cfg) (st_capacity cfg) up tx (sh :: 'j Shared) t = Some (sh', t') \<and>
        sh_ledger sh = L \<and> sh_ledger sh' = L') \<or>
     L' = L \<and> t' = drop_request t"

lemma request_step_run:
  "order_step (st_schema cfg) (st_us cfg) (st_te_state cfg) (st_capacity cfg) up tx (sh :: 'j Shared) t = Some (sh', t') \<Longrightarrow>
   request_step (cfg :: 'j setting) (sh_ledger sh) t (sh_ledger sh') t'"
  unfolding request_step_def by blast

lemma drop_request_effect:
  "ot_user (drop_request t) = ot_user t" "ot_path (drop_request t) = ot_path t" "ot_body (drop_request t) = ot_body t"
  "held_row (drop_request t) = held_row t" "phase_asset (drop_request t) = None \<or> drop_request t = t"
  by (cases "ot_phase t"; simp add: drop_request_def held_row_def phase_asset_def)+

lemma request_step_effect:
  assumes "request_step cfg L t L' t'" and "task_ok (st_us cfg) L t"
  obtains (same) "L' = L" "held_row t' = held_row t"
  | (reserve) up a i where "parse_asset (ot_path t) = Some a" "held_row t = None" "held_row t' = Some i"
      "reserve_insert up (st_schema cfg) (st_us cfg) L (ot_user t) (task_quantity t) (task_currency t a) = Ok (L', i)"
  | (undo) up r n where "held_row t = Some (sint (row_id r))" "held_row t' = None" "revert up (st_schema cfg) L r = (L', Ok n)"
proof -
  from assms(1) consider
      (run) up tx and sh sh' :: "'a Shared" where
        "order_step (st_schema cfg) (st_us cfg) (st_te_state cfg) (st_capacity cfg) up tx sh t = Some (sh', t')"
        "sh_ledger sh = L" "sh_ledger sh' = L'"
    | (drop) "L' = L" "t' = drop_request t"
    unfolding request_step_def by blast
  then show thesis
  proof cases
    case run
    with order_step_effect [OF run(1)] assms(2) that show thesis by auto
  next
    case drop
    with drop_request_effect(4) same show thesis by simp
  qed
qed

lemma request_step_static:
  assumes "request_step cfg L t L' t'" and "task_ok (st_us cfg) L t"
  shows "ot_user t' = ot_user t" "ot_path t' = ot_path t" "ot_body t' = ot_body t"
    "phase_asset t' = Some a \<Longrightarrow> parse_asset (ot_path t) = Some a"
proof -
  have "ot_user t' = ot_user t \<and> ot_path t' = ot_path t \<and> ot_body t' = ot_body t \<and>
      (\<forall>a. phase_asset t' = Some a \<longrightarrow> parse_asset (ot_path t) = Some a)"
    using assms(1) unfolding request_step_def
  proof (elim disjE exE conjE)
    fix up tx and sh sh' :: "'a Shared"
    assume "order_step (st_schema cfg) (st_us cfg) (st_te_state cfg) (st_capacity cfg) up tx sh t = Some (sh', t')" "sh_ledger sh = L"
    with order_step_effect [of _ _ _ _ up tx sh t sh' t'] assms(2) show ?thesis by blast
  qed (use assms(2) drop_request_effect [of t] in \<open>auto simp: task_ok_def\<close>)
  then show "ot_user t' = ot_user t" "ot_path t' = ot_path t" "ot_body t' = ot_body t"
    "phase_asset t' = Some a \<Longrightarrow> parse_asset (ot_path t) = Some a" by auto
qed

definition ledger_ok :: "Schema \<Rightarrow> Ledger \<Rightarrow> bool" where
  "ledger_ok sc L \<longleftrightarrow> ledger_wf L \<and> ledger_typed sc L"

interpretation ok: journal_invariant sc "ledger_ok sc" for sc
  by unfold_locales (auto simp: ledger_ok_def intro: wf.insert_keeps typed.insert_keeps)

lemma row_of_later: "row_of us L t r \<Longrightarrow> journal_grows L L' \<Longrightarrow> row_of us L' t r"
  by (auto simp: row_of_def journal_grows_def dest: set_mono_prefix)

lemma row_of_static:
  "ot_user t' = ot_user t \<Longrightarrow> ot_path t' = ot_path t \<Longrightarrow> ot_body t' = ot_body t \<Longrightarrow> row_of us L t' r \<longleftrightarrow> row_of us L t r"
  by (simp add: row_of_def task_quantity_def task_currency_def)

lemma task_ok_later: "task_ok us L t \<Longrightarrow> journal_grows L L' \<Longrightarrow> task_ok us L' t"
  unfolding task_ok_def using row_of_later by blast

lemma reserve_insert_row:
  assumes "reserve_insert up sc us L (ot_user t) (task_quantity t) (task_currency t a) = Ok (L', i)"
    and "parse_asset (ot_path t) = Some a" and "ledger_ok sc L"
  shows "0 < i" and "i < 2 ^ 31" and "\<exists>r. row_of us L' t r \<and> jr_id r = i" and "journal_grows L L'"
proof -
  from assms(1) obtain c d where ids: "credit_ids (accounts L) (task_currency t a) = [c]" "debit_ids (accounts L) (us (ot_user t)) = [d]"
    and ins: "journal_insert sc L (Some c) (Some d) (task_currency t a) (uint (nz_get (task_quantity t))) ''reserve asset'' None = Ok (L', i)"
    by (rule reserve_insert_Ok)
  show "journal_grows L L'" by (rule grows.insert_keeps [OF journal_grows_refl ins])
  from ins show "0 < i" "i < 2 ^ 31" using assms(3) by (auto elim!: journal_insert_Ok simp: ledger_ok_def ledger_typed_def)
  from ins show "\<exists>r. row_of us L' t r \<and> jr_id r = i"
    using ids assms(2) by (auto elim!: journal_insert_Ok simp: row_of_def)
qed

lemma revert_row:
  assumes "revert up sc L r = (L', Ok n)" and "row_of us L t j" and "jr_id j = sint (row_id r)" and "ledger_wf L"
  shows "journal_insert sc L (Some (jr_debit j)) (Some (jr_credit j)) (jr_currency j) (jr_amount j) ''revert reserve asset'' None = Ok (L', n)"
proof -
  have "find (\<lambda>k. jr_id k = sint (row_id r)) (journal L) = Some j"
    using find_distinct_key [of jr_id "journal L" j] assms(2-4) by (simp add: ledger_wf_def row_of_def)
  with assms(1) show ?thesis by (auto simp: revert_def split: if_splits result.splits)
qed

interpretation requests: task_pool "request_step cfg" "ledger_ok (st_schema cfg)" "task_ok (st_us cfg)" journal_grows balance_of
  "\<lambda>L. held (st_us cfg) (accounts L)" for cfg :: "'j setting"
proof unfold_locales
  fix L L' t t' i
  assume ok: "ledger_ok (st_schema cfg) L" "task_ok (st_us cfg) L t" and step: "request_step cfg L t L' t'"
  note static = request_step_static [OF step ok(2)]
  have wf: "ledger_wf L" using ok(1) by (simp add: ledger_ok_def)
  have eq: "task_currency t' = task_currency t" "task_quantity t' = task_quantity t"
    using static(3) by (auto simp: task_currency_def task_quantity_def)
  from step ok(2) show "ledger_ok (st_schema cfg) L' \<and> task_ok (st_us cfg) L' t' \<and> journal_grows L L'"
  proof (cases rule: request_step_effect)
    case same
    with ok static show ?thesis by (simp add: task_ok_def row_of_static [OF static(1-3)])
  next
    case (reserve up a k)
    note new = reserve_insert_row [OF reserve(4,1) ok(1)]
    from new reserve(3) static(4) have "task_ok (st_us cfg) L' t'" by (simp add: task_ok_def row_of_static [OF static(1-3)] static(2))
    with new ok.reserve_insert_keeps [OF ok(1) reserve(4)] show ?thesis by simp
  next
    case (undo up r n)
    from undo(2) static(4) have "task_ok (st_us cfg) L' t'" by (simp add: task_ok_def static(2))
    with ok.revert_keeps [OF ok(1), of up r] grows.revert_keeps [where sc = "st_schema cfg" and up = up and r = r, OF journal_grows_refl, of L] undo(3) show ?thesis by simp
  qed
  from step ok(2) show "balance_of L' i - held (st_us cfg) (accounts L') t' i = balance_of L i - held (st_us cfg) (accounts L) t i"
  proof (cases rule: request_step_effect)
    case same
    then show ?thesis unfolding held_def reservation_def static(1,2) eq same by simp
  next
    case (reserve up a k)
    from reserve(4) obtain c d where
      ids: "credit_ids (accounts L) (task_currency t a) = [c]" "debit_ids (accounts L) (st_us cfg (ot_user t)) = [d]" and
      ins: "journal_insert (st_schema cfg) L (Some c) (Some d) (task_currency t a) (uint (nz_get (task_quantity t))) ''reserve asset'' None = Ok (L', k)"
      by (rule reserve_insert_Ok)
    show ?thesis using journal_insert_balance(3,4) [OF ins] reserve(1-3) ids static(1,2) by (simp add: held_def reservation_def eq)
  next
    case (undo up r n)
    with ok(2) obtain j a where j: "row_of (st_us cfg) L t j" "jr_id j = sint (row_id r)" "parse_asset (ot_path t) = Some a"
      by (auto simp: task_ok_def row_of_def)
    note ins = journal_insert_balance(3,4) [OF revert_row [OF undo(3) j(1,2) wf]]
    show ?thesis using ins undo(1,2) j by (simp add: held_def reservation_def row_of_def)
  qed
next
  show "journal_grows L L' \<Longrightarrow> held (st_us cfg) (accounts L') t i = held (st_us cfg) (accounts L) t i" for L L' t i
    by (simp add: journal_grows_def)
qed (rule task_ok_later)

definition pool_ok :: "'j setting \<Rightarrow> Ledger \<Rightarrow> order_task list \<Rightarrow> bool" where
  "pool_ok cfg L ts \<longleftrightarrow> ledger_ok (st_schema cfg) L \<and> (\<forall>t\<in>set ts. task_ok (st_us cfg) L t)"

lemma engine_step_ledger: "engine_step oc cd w sh = Some sh' \<Longrightarrow> sh_ledger sh' = sh_ledger sh"
  by (auto simp: engine_step_def split: if_splits list.splits run.splits prod.splits control.splits)

lemma do_event_pool:
  assumes "do_event cfg ev (sh, ts) = Some (sh', ts')" and "pool_ok cfg (sh_ledger sh) ts"
  shows "pool_ok cfg (sh_ledger sh') ts'" and "journal_grows (sh_ledger sh) (sh_ledger sh')"
    and "balance_of (sh_ledger sh') i - (\<Sum>t\<leftarrow>ts'. held (st_us cfg) (accounts (sh_ledger sh')) t i) =
         balance_of (sh_ledger sh) i - (\<Sum>t\<leftarrow>ts. held (st_us cfg) (accounts (sh_ledger sh)) t i)"
proof -
  consider (task) j t' where "j < length ts" "request_step cfg (sh_ledger sh) (ts ! j) (sh_ledger sh') t'" "ts' = ts[j := t']"
    | (other) "ts' = ts" "sh_ledger sh' = sh_ledger sh"
  proof (cases ev)
    case (Run j up)
    with assms(1) obtain t' where "j < length ts" "ts' = ts[j := t']"
      and run: "order_step (st_schema cfg) (st_us cfg) (st_te_state cfg) (st_capacity cfg) up j sh (ts ! j) = Some (sh', t')"
      by (auto simp: do_event_def split: if_splits)
    with that(1) request_step_run [OF run] show thesis by blast
  next
    case (Drop j)
    with assms(1) that(1) [of j "drop_request (ts ! j)"] show thesis by (auto simp: do_event_def request_step_def split: if_splits)
  next
    case (EngineRuns w)
    with assms(1) that(2) show thesis by (auto simp: do_event_def dest: engine_step_ledger)
  next
    case (Sends cmd)
    with assms(1) that(2) show thesis by (auto simp: do_event_def split: if_splits)
  qed
  then have "pool_ok cfg (sh_ledger sh') ts' \<and> journal_grows (sh_ledger sh) (sh_ledger sh') \<and>
      balance_of (sh_ledger sh') i - (\<Sum>t\<leftarrow>ts'. held (st_us cfg) (accounts (sh_ledger sh')) t i) =
         balance_of (sh_ledger sh) i - (\<Sum>t\<leftarrow>ts. held (st_us cfg) (accounts (sh_ledger sh)) t i)"
  proof cases
    case task
    from assms(2) have "ledger_ok (st_schema cfg) (sh_ledger sh)" "\<forall>t\<in>set ts. task_ok (st_us cfg) (sh_ledger sh) t"
      by (simp_all add: pool_ok_def)
    with requests.pool_step [OF this task(1,2)] task(3) show ?thesis by (simp add: pool_ok_def)
  next
    case other
    with assms(2) show ?thesis by simp
  qed
  then show "pool_ok cfg (sh_ledger sh') ts'" and "journal_grows (sh_ledger sh) (sh_ledger sh')"
    and "balance_of (sh_ledger sh') i - (\<Sum>t\<leftarrow>ts'. held (st_us cfg) (accounts (sh_ledger sh')) t i) =
         balance_of (sh_ledger sh) i - (\<Sum>t\<leftarrow>ts. held (st_us cfg) (accounts (sh_ledger sh)) t i)" by blast+
qed

lemma journal_grows_trans: "journal_grows L L' \<Longrightarrow> journal_grows L' L'' \<Longrightarrow> journal_grows L L''"
  by (auto simp: journal_grows_def)

lemma do_events_pool:
  assumes "do_events cfg evs (sh, ts) = Some (sh', ts')" and "pool_ok cfg (sh_ledger sh) ts"
  shows "pool_ok cfg (sh_ledger sh') ts' \<and> journal_grows (sh_ledger sh) (sh_ledger sh') \<and>
     balance_of (sh_ledger sh') i - (\<Sum>t\<leftarrow>ts'. held (st_us cfg) (accounts (sh_ledger sh')) t i) =
     balance_of (sh_ledger sh) i - (\<Sum>t\<leftarrow>ts. held (st_us cfg) (accounts (sh_ledger sh)) t i)"
  using assms
proof (induction evs arbitrary: sh ts)
  case (Cons ev evs)
  then obtain sh1 ts1 where ev: "do_event cfg ev (sh, ts) = Some (sh1, ts1)" "do_events cfg evs (sh1, ts1) = Some (sh', ts')"
    by (auto split: Option.bind_splits)
  note step = do_event_pool [OF ev(1) Cons.prems(2)]
  from Cons.IH [OF ev(2) step(1)] step(2) step(3) [of i] show ?case using journal_grows_trans by auto
qed simp

definition fresh :: "order_task \<Rightarrow> bool" where
  "fresh t \<longleftrightarrow> ot_phase t = Entered \<and> ot_answer t = None"

lemma fresh_pool: "ledger_ok (st_schema cfg) L \<Longrightarrow> \<forall>t\<in>set ts. fresh t \<Longrightarrow> pool_ok cfg L ts"
  by (simp add: pool_ok_def task_ok_def fresh_def held_row_def phase_asset_def)

lemma fresh_held: "\<forall>t\<in>set ts. fresh t \<Longrightarrow> (\<Sum>t\<leftarrow>ts. held us acs t i) = 0"
  by (induction ts) (auto simp: held_def fresh_def held_row_def)

section \<open>A concrete pool\<close>

definition sample_setting :: "TradeCmdPayload setting" where
  "sample_setting = \<lparr>st_schema = Before_txid, st_us = sample_us, st_te_state = TeRunning, st_capacity = 1, st_oc = True, st_codec = sample_codec\<rparr>"

definition sample_shared :: "TradeCmdPayload Shared" where
  "sample_shared = \<lparr>sh_ledger = sample_ledger, sh_engine = supervisor_init [], sh_queue = [], sh_open = True\<rparr>"

definition sample_tasks :: "order_task list" where
  "sample_tasks = [new_task 1 ''btc'' sample_request, new_task 1 ''btc'' sample_request]"

lemmas exec_defs = do_event_def order_step_def step_enter_def step_check_def step_insert_def step_recheck_def step_send_def step_revert_def step_wait_def
  drop_request_def task_currency_def task_quantity_def new_task_def reserve_check_def reserve_insert_def journal_insert_def
  calculate_balance_from_accounting_def calculate_balance_def user_account_def credits_def debits_def nonzero_u64_def bigint_def
  reserve_currency_def parse_asset_def currency_code_assets

lemma sample_request_fields [simp]: "ta_side sample_request = Buy" "ta_quantity sample_request = nz 40"
  by (simp_all add: sample_request_def)

lemmas sample_defs = sample_setting_def sample_shared_def sample_tasks_def sample_ledger_def sample_us_def

lemma sample_balance_3: "balance_of sample_ledger 3 = 100"
  by (simp add: balance_of_def credits_def debits_def sample_ledger_def)

lemma sample_pool:
  "\<forall>t\<in>set sample_tasks. fresh t" "ledger_wf (sh_ledger sample_shared)" "ledger_typed (st_schema sample_setting) (sh_ledger sample_shared)"
  by (simp_all add: sample_tasks_def new_task_def fresh_def sample_shared_def sample_setting_def sample_ledger_wf sample_ledger_typed)

section \<open>Properties\<close>

text \<open>C5: no interleaving loses track of money. Let any number of order requests run, in any order and with any of their
  queries failing, requests being dropped at any \<open>await\<close>, the channel filling up, the engine running, stopping or being sent other commands at any moment: every
  account's balance is always its initial balance plus what the requests still hold of it (the quantity, taken from
  the user and given to the exchange, for a request whose reservation is neither unwritten nor reverted), all balances sum to zero, and
  every such reservation is a row of the journal with the request's accounts and amount.\<close>

theorem order_requests_conserve:
  assumes "do_events cfg evs (sh0, ts0) = Some (sh, ts)" and "\<forall>t\<in>set ts0. fresh t"
    and "ledger_wf (sh_ledger sh0)" and "ledger_typed (st_schema cfg) (sh_ledger sh0)"
  shows "(\<forall>i. balance_of (sh_ledger sh) i =
      balance_of (sh_ledger sh0) i + (\<Sum>t\<leftarrow>ts. held (st_us cfg) (accounts (sh_ledger sh0)) t i)) \<and>
    (\<Sum>a\<leftarrow>accounts (sh_ledger sh). balance_of (sh_ledger sh) (ac_id a)) = 0 \<and>
    (\<forall>t\<in>set ts. \<forall>k. held_row t = Some k \<longrightarrow> (\<exists>r. row_of (st_us cfg) (sh_ledger sh) t r \<and> jr_id r = k))"
proof -
  have "ledger_ok (st_schema cfg) (sh_ledger sh0)" using assms(3,4) by (simp add: ledger_ok_def)
  note pool = do_events_pool [OF assms(1) fresh_pool [OF this assms(2)]]
  have "balance_of (sh_ledger sh) i = balance_of (sh_ledger sh0) i + (\<Sum>t\<leftarrow>ts. held (st_us cfg) (accounts (sh_ledger sh0)) t i)" for i
    using pool [of i] fresh_held [OF assms(2)] by (auto simp: journal_grows_def)
  moreover have "(\<Sum>a\<leftarrow>accounts (sh_ledger sh). balance_of (sh_ledger sh) (ac_id a)) = 0"
    using pool by (intro ledger_sum_zero) (simp add: pool_ok_def ledger_ok_def)
  ultimately show ?thesis using pool by (simp add: pool_ok_def task_ok_def)
qed

theorem order_requests_conserve_witness:
  "\<exists>sh ts. do_events sample_setting [Run 0 True, Run 0 True, Run 1 True, Run 0 True, Run 1 True, Drop 0] (sample_shared, sample_tasks) = Some (sh, ts) \<and>
     balance_of (sh_ledger sh) 3 = 60"
proof -
  obtain sh ts where run: "do_events sample_setting [Run 0 True, Run 0 True, Run 1 True, Run 0 True, Run 1 True, Drop 0]
      (sample_shared, sample_tasks) = Some (sh, ts)" and "(\<Sum>t\<leftarrow>ts. held sample_us (accounts sample_ledger) t 3) = - 40"
    by (simp add: exec_defs sample_defs held_def held_row_def reservation_def credit_ids_def debit_ids_def)
  with sample_balance_3 show ?thesis using order_requests_conserve [OF run sample_pool] run
    by (auto simp: sample_setting_def sample_shared_def)
qed

end
