(* ===== verification/Order_Races.thy ===== *)
theory Order_Races
  imports Order_Tasks
begin

text \<open>
  How concurrent order requests end: what they settle when nothing disturbs them, what a timeout and a concurrent revert do to their
  reservations, and that the sequential handler of \<open>App_Cx\<close> is the request that has the exchange for itself.
\<close>

section \<open>How requests end\<close>





























section \<open>The sequential handler\<close>



text \<open>The events of a request that has the exchange for itself, up to its end; the queries are served as \<open>up\<close> says.\<close>

definition reserve_events :: "faults \<Rightarrow> task_event list" where
  "reserve_events up = [Run 0 True, Run 0 (up 0), Run 0 (up 1), Run 0 (up 2)]"


lemma length_reserve_events [simp]: "length (reserve_events up) = 4"
  by (simp add: reserve_events_def)












end
