(* ===== verification/Unit_Tests.thy ===== *)
theory Unit_Tests
  imports Order_Races Users
begin

text \<open>
  The repository's own unit tests, run on the model: the tests of \<open>trading/try_fill_order.rs\<close>, \<open>trading/mod.rs\<close> and
  \<open>app_cx.rs\<close> as programs that return or panic. What a test draws at random or takes from the database is an argument.
\<close>

section \<open>Matching\<close>

fun assert_all :: "bool list \<Rightarrow> unit run" where
  "assert_all [] = Ret ()"
| "assert_all (b # bs) = bind_run (assert_run b) (\<lambda>_. assert_all bs)"

lemma assert_all_Ret: "assert_all bs = Ret () \<longleftrightarrow> (\<forall>b\<in>set bs. b)"
  by (induction bs) (auto simp: assert_run_def)










section \<open>The engine\<close>

text \<open>\<open>test_startup_then_shutdown\<close>: the handle is awaited while the test holds a sender, so the loop has to be left.\<close>

definition test_startup_then_shutdown :: "bool \<Rightarrow> 'j codec \<Rightarrow> world \<Rightarrow> unit run" where
  "test_startup_then_shutdown oc cd w =
     bind_run (trading_engine_supervisor oc cd [(Shutdown, w)] (supervisor_init [])) (\<lambda>(_, left). assert_run left)"

text \<open>The helper \<open>place_order\<close> of the tests.\<close>

definition test_send_order :: "bool \<Rightarrow> 'j codec \<Rightarrow> world \<Rightarrow> Uuid \<Rightarrow> nat \<Rightarrow> 'j Supervisor \<Rightarrow> u32 \<Rightarrow> u32 \<Rightarrow> PlaceOrderResult run" where
  "test_send_order oc cd w user_uuid tx st p q =
     bind_run (expect ''price was zero'' (nz_new p)) (\<lambda>price.
     bind_run (expect ''quantity was zero'' (nz_new q)) (\<lambda>quantity.
     let order = \<lparr>po_asset = Bitcoin, po_user_uuid = user_uuid, po_price = price, po_quantity = quantity, po_order_type = Market,
           po_stp = CancelOldest, po_time_in_force = GoodTilCanceled, po_side = Buy\<rparr> in
     bind_run (supervisor_step oc cd w (Trade (CmdPlaceOrder order tx)) st) (\<lambda>(st', _).
     bind_run (expect ''oneshot rx failure'' (TeResponse_wait (sent st') tx)) (\<lambda>reply.
     case reply of PlaceReply (Ok r) \<Rightarrow> Ret r | _ \<Rightarrow> Panic (ExpectFailed ''place-order Err'')))))"

text \<open>What \<open>test_place_order\<close> means to run, and what it runs: the future of \<open>CX.scope\<close> is dropped without being awaited, so that only the
  recovery happens.\<close>

definition test_place_order_body :: "bool \<Rightarrow> 'j codec \<Rightarrow> world \<Rightarrow> Uuid \<Rightarrow> 'j Supervisor \<Rightarrow> unit run" where
  "test_place_order_body oc cd w user_uuid st =
     bind_run (test_send_order oc cd w user_uuid 0 st 1 1) (\<lambda>r. assert_run (r_asset r = Bitcoin))"

definition test_place_order :: "'j codec \<Rightarrow> unit run" where
  "test_place_order cd = bind_run (init_from_db cd []) (\<lambda>_. Ret ())"

section \<open>Users and balances\<close>

definition test_duplicate_user_email :: "Uuid \<Rightarrow> Uuid \<Rightarrow> string \<Rightarrow> unit run" where
  "test_duplicate_user_email i j password_hash =
     (case create_user True i no_users ''foo'' ''foo@example.com'' password_hash of
        (_, Err _) \<Rightarrow> Panic (ExpectFailed ''called Result::unwrap on an Err value'')
      | (db, Ok _) \<Rightarrow>
          (case create_user True j db ''foo'' ''foo@example.com'' password_hash of
             (_, Err err) \<Rightarrow> assert_run (err = EmailUniqueViolation)
           | (_, Ok _) \<Rightarrow> Ret ()))"

text \<open>The tables after the migrations, with the account that \<open>test_calculate_balances\<close> adds for its user.\<close>

definition test_ledger :: "string \<Rightarrow> Ledger" where
  "test_ledger user =
     \<lparr>accounts = [\<lparr>ac_id = 1, ac_currency = ''USD'', ac_source_type = ''fiat'', ac_source_id = ''exchange''\<rparr>,
        \<lparr>ac_id = 2, ac_currency = ''BTC'', ac_source_type = ''crypto'', ac_source_id = ''bitcoin''\<rparr>,
        \<lparr>ac_id = 3, ac_currency = ''BTC'', ac_source_type = ''user'', ac_source_id = user\<rparr>],
      journal = [], next_id = 1\<rparr>"

text \<open>The loop over the transactions; the random amount is a \<open>u16\<close> to which one is added before the cast.\<close>

fun test_deposits :: "Schema \<Rightarrow> string \<Rightarrow> 16 word list \<Rightarrow> Ledger \<Rightarrow> int \<Rightarrow> (Ledger \<times> int) run" where
  "test_deposits sc user [] L total_credits = Ret (L, total_credits)"
| "test_deposits sc user (w # ws) L total_credits =
     (if uint w = 2 ^ 16 - 1 then Panic ArithOverflow
      else
        let amount = uint (w + 1) in
        case scalar_subquery (map ac_id (filter (\<lambda>a. ac_source_id a = user \<and> ac_currency a = ''BTC'') (accounts L))) of
          Err _ \<Rightarrow> Panic (ExpectFailed ''called Result::unwrap on an Err value'')
        | Ok credit \<Rightarrow>
            (case journal_insert sc L credit (Some 1) ''BTC'' amount ''random deposit'' None of
               Err _ \<Rightarrow> Panic (ExpectFailed ''called Result::unwrap on an Err value'')
             | Ok (L', _) \<Rightarrow> test_deposits sc user ws L' (total_credits + amount)))"

definition test_calculate_balances :: "Schema \<Rightarrow> (Uuid \<Rightarrow> string) \<Rightarrow> Uuid \<Rightarrow> 16 word list \<Rightarrow> unit run" where
  "test_calculate_balances sc us u ws =
     bind_run (test_deposits sc (us u) ws (test_ledger (us u)) 0) (\<lambda>(L, total_credits).
     case calculate_balance_from_accounting True us L u ''BTC'' of
       Err _ \<Rightarrow> Panic (ExpectFailed ''called Result::unwrap on an Err value'')
     | Ok balance \<Rightarrow> assert_run (balance = nonzero_u64 total_credits))"

section \<open>Results\<close>


lemma engine_tests_pass:
  "test_startup_then_shutdown oc cd w = Ret ()" "test_place_order cd = Ret ()"
  by (simp_all add: test_startup_then_shutdown_def test_place_order_def supervisor_step.simps supervisor_init_def)

lemma test_place_order_body_passes:
  assumes "te_reach oc cd rows k st" and "k < 2 ^ 32 - 1" and "running st" and "\<And>po. \<exists>j. place_to_value cd po = Some j" and "insert_ok w"
    and "TeResponse_wait (sent st) 0 = None"
  shows "test_place_order_body oc cd w u st = Ret ()"
proof -
  let ?po = "\<lparr>po_asset = Bitcoin, po_user_uuid = u, po_price = nz 1, po_quantity = nz 1, po_order_type = Market,
     po_stp = CancelOldest, po_time_in_force = GoodTilCanceled, po_side = Buy\<rparr>"
  obtain j where j: "place_to_value cd ?po = Some j" using assms(4) by blast
  obtain assets' r where r: "do_place_order oc (new_v4 w) (te_assets st) ?po = Ret (assets', Ok r)" "r_asset r = Bitcoin" by (rule gtc_order_placed [OF assms(1,2), of ?po]) simp_all
  with r j assms(3,5,6) show ?thesis
    by (simp add: test_place_order_body_def test_send_order_def supervisor_step.simps try_event_log_def TeResponse_wait_def map_add_def)
qed

lemma test_duplicate_user_email_passes: "test_duplicate_user_email i j h = Ret ()"
  by (simp add: test_duplicate_user_email_def create_user_def insert_user_def no_users_def user_ids_def)

lemma test_deposits_before_txid:
  assumes "accounts L = accounts (test_ledger user)" and "user \<noteq> ''bitcoin''" and "\<forall>w\<in>set ws. uint w < 2 ^ 16 - 1"
    and "next_id L + int (length ws) \<le> 2 ^ 31"
  shows "\<exists>L'. test_deposits Before_txid user ws L tot = Ret (L', tot + (\<Sum>w\<leftarrow>ws. uint w + 1)) \<and> accounts L' = accounts L \<and>
    credits L' 3 = credits L 3 + (\<Sum>w\<leftarrow>ws. uint w + 1) \<and> debits L' 3 = debits L 3"
  using assms
proof (induction ws arbitrary: L tot)
  case (Cons w ws)
  have w: "uint (w + 1) = uint w + 1" "uint w \<noteq> 2 ^ 16 - 1" using Cons.prems(3) by (auto simp: uint_word_ariths)
  have sub: "scalar_subquery (map ac_id (filter (\<lambda>a. ac_source_id a = user \<and> ac_currency a = ''BTC'') (accounts L))) = Ok (Some 3)"
    using Cons.prems(1,2) by (auto simp: test_ledger_def)
  have pos: "\<not> uint w + 1 \<le> 0" using uint_nonnegative [of w] by linarith
  have "bigint (uint w + 1)" using Cons.prems(3) uint_nonnegative [of w] by (auto simp: bigint_def)
  moreover have "currency_code ''BTC''" using currency_code_assets(1) [of Bitcoin] by simp
  moreover have "\<not> 2 ^ 31 \<le> next_id L" using Cons.prems(4) by simp
  ultimately obtain L1 i where ins: "journal_insert Before_txid L (Some 3) (Some 1) ''BTC'' (uint w + 1) ''random deposit'' None = Ok (L1, i)"
    using Cons.prems(1) by (simp add: journal_insert_def test_ledger_def pos)
  note b = journal_insert_balance [OF ins]
  from Cons.IH [of L1 "tot + (uint w + 1)"] Cons.prems b obtain L' where
    "test_deposits Before_txid user ws L1 (tot + (uint w + 1)) = Ret (L', tot + (uint w + 1) + (\<Sum>w\<leftarrow>ws. uint w + 1))" "accounts L' = accounts L"
    "credits L' 3 = credits L 3 + (uint w + 1) + (\<Sum>w\<leftarrow>ws. uint w + 1)" "debits L' 3 = debits L 3" by auto
  with ins sub w show ?case by (simp add: algebra_simps)
qed simp

text \<open>The test of the balances cannot pass on the schema it runs on. With all migrations applied it succeeds only when it draws no transaction
  at all, since its insertions give no \<open>txid\<close>; on the schema before that column it succeeds for every draw whose amounts stay below the largest
  \<open>u16\<close>, so that the balance it computes is the sum of the deposits.\<close>

lemma balance_test_needs_old_schema:
  assumes "us u \<noteq> ''bitcoin''" and "length ws < 2 ^ 8"
  shows "(test_calculate_balances With_txid us u ws = Ret () \<longleftrightarrow> ws = []) \<and>
    ((\<forall>w\<in>set ws. uint w < 2 ^ 16 - 1) \<longrightarrow> test_calculate_balances Before_txid us u ws = Ret ())"
proof
  have acc: "user_account L (us u) ''BTC'' = Some \<lparr>ac_id = 3, ac_currency = ''BTC'', ac_source_type = ''user'', ac_source_id = us u\<rparr>"
    if "accounts L = accounts (test_ledger (us u))" for L using that by (simp add: user_account_def test_ledger_def)
  have "credits (test_ledger (us u)) 3 = 0" "debits (test_ledger (us u)) 3 = 0" by (simp_all add: test_ledger_def credits_def debits_def)
  note start = this
  show "test_calculate_balances With_txid us u ws = Ret () \<longleftrightarrow> ws = []"
  proof (cases ws)
    case Nil
    with start acc [of "test_ledger (us u)"] show ?thesis
      by (simp add: test_calculate_balances_def calculate_balance_from_accounting_def calculate_balance_def Let_def bigint_def)
  next
    case (Cons w ws')
    have "\<exists>p. test_deposits With_txid (us u) (w # ws') (test_ledger (us u)) 0 = Panic p"
      by (auto simp: Let_def journal_insert_def split: result.splits option.splits)
    with Cons show ?thesis by (auto simp: test_calculate_balances_def)
  qed
  show "(\<forall>w\<in>set ws. uint w < 2 ^ 16 - 1) \<longrightarrow> test_calculate_balances Before_txid us u ws = Ret ()"
  proof
    assume small: "\<forall>w\<in>set ws. uint w < 2 ^ 16 - 1"
    have sum: "0 \<le> (\<Sum>w\<leftarrow>ws. uint w + 1) \<and> (\<Sum>w\<leftarrow>ws. uint w + 1) \<le> 2 ^ 16 * int (length ws)"
      using small by (induction ws) auto
    have "next_id (test_ledger (us u)) + int (length ws) \<le> 2 ^ 31" using assms(2) by (simp add: test_ledger_def)
    from test_deposits_before_txid [OF refl assms(1) small this, of 0] start obtain L where
      L: "test_deposits Before_txid (us u) ws (test_ledger (us u)) 0 = Ret (L, \<Sum>w\<leftarrow>ws. uint w + 1)"
        "accounts L = accounts (test_ledger (us u))" "credits L 3 = (\<Sum>w\<leftarrow>ws. uint w + 1)" "debits L 3 = 0" by auto
    have "bigint (\<Sum>w\<leftarrow>ws. uint w + 1)" using sum assms(2) by (auto simp: bigint_def)
    with L acc [OF L(2)] show "test_calculate_balances Before_txid us u ws = Ret ()"
      by (simp add: test_calculate_balances_def calculate_balance_from_accounting_def calculate_balance_def bigint_def)
  qed
qed

lemma balance_test_needs_old_schema_witness:
  "test_calculate_balances With_txid sample_us 1 [3, 4] \<noteq> Ret () \<and> test_calculate_balances Before_txid sample_us 1 [3, 4] = Ret ()"
  using balance_test_needs_old_schema [of sample_us 1 "[3, 4]"] by (simp add: sample_us_def)

end
