(* ===== verification/Unrouted.thy ===== *)
theory Unrouted
  imports Pages
begin

text \<open>
  Code of the web server that no route reaches and that is not compiled in: the MessagePack extractor (\<open>web/middleware/msgpack.rs\<close>) and the handler
  that creates API keys (\<open>web/create_api_key.rs\<close>). The MIME parser and the MessagePack codec are parameters.
\<close>

section \<open>MessagePack bodies\<close>

text \<open>What the MIME library reads from a content type.\<close>

record Mime =
  mime_type :: string
  mime_subtype :: string
  mime_suffix :: "string option"

text \<open>Header names are lower case; \<open>HeaderMap::get\<close> gives the first value.\<close>

type_synonym HeaderMap = "(string \<times> string) list"

definition msgpack_content_type :: "(string \<Rightarrow> Mime option) \<Rightarrow> HeaderMap \<Rightarrow> bool" where
  "msgpack_content_type parse_mime hs =
     (case map_of hs ''content-type'' of
        None \<Rightarrow> False
      | Some value \<Rightarrow>
          (case to_str value of
             None \<Rightarrow> False
           | Some content_type \<Rightarrow>
               (case parse_mime content_type of
                  None \<Rightarrow> False
                | Some mime \<Rightarrow>
                    mime_type mime = ''application'' \<and>
                    (mime_subtype mime = ''msgpack'' \<or> (case mime_suffix mime of None \<Rightarrow> False | Some name \<Rightarrow> name = ''msgpack'')))))"

datatype 'a Msgpack = Msgpack 'a

text \<open>A request: its headers, and its body unless reading it fails. \<open>from_slice\<close> decodes.\<close>

record RawRequest =
  raw_headers :: HeaderMap
  raw_bytes :: "string option"

definition msgpack_from_request ::
  "(string \<Rightarrow> Mime option) \<Rightarrow> (string \<Rightarrow> 'a option) \<Rightarrow> RawRequest \<Rightarrow> ('a Msgpack, nat \<times> string) result run" where
  "msgpack_from_request parse_mime from_slice req =
     (if msgpack_content_type parse_mime (raw_headers req)
      then (case raw_bytes req of
              None \<Rightarrow> Panic (ExplicitPanic ''not implemented'')
            | Some bytes \<Rightarrow>
                (case from_slice bytes of
                   Some value \<Rightarrow> Ret (Ok (Msgpack value))
                 | None \<Rightarrow> Panic (ExplicitPanic ''not implemented'')))
      else Ret (Err (400, ''no msgpack content type'')))"

text \<open>\<open>to_vec\<close> encodes, or gives the text of an error.\<close>

definition msgpack_into_response :: "('a \<Rightarrow> (string, string) result) \<Rightarrow> 'a Msgpack \<Rightarrow> Response" where
  "msgpack_into_response to_vec m =
     (case m of Msgpack value \<Rightarrow>
        (case to_vec value of
           Ok v \<Rightarrow> \<lparr>status = 200, headers = [Header ''content-type'' ''application/msgpack''], body_of = Text v\<rparr>
         | Err err \<Rightarrow> \<lparr>status = 500, headers = [Header ''content-type'' ''text/plain; charset=utf-8''], body_of = Text err\<rparr>))"

text \<open>The headers and body of a response, read as a request: how a client's echo arrives.\<close>

definition echoed :: "Response \<Rightarrow> RawRequest" where
  "echoed r =
     \<lparr>raw_headers = concat (map (\<lambda>h. case h of Header n v \<Rightarrow> [(n, v)] | SetCookie _ _ _ _ \<Rightarrow> []) (headers r)),
      raw_bytes = (case body_of r of Text t \<Rightarrow> Some t | _ \<Rightarrow> None)\<rparr>"

section \<open>API keys\<close>

record ApiKeyCreate =
  api_key_name :: string
  scopes :: "string list"
  ip_allowlist :: "string list"

text \<open>The table \<open>api_keys\<close>, which no migration creates (\<open>None\<close>).\<close>

type_synonym ApiKeys = "(string \<times> string list \<times> string list) list option"

definition api_key_create :: "bool \<Rightarrow> ApiKeys \<Rightarrow> Uuid \<Rightarrow> ApiKeyCreate \<Rightarrow> ApiKeys \<times> Response run" where
  "api_key_create up tbl user_id req =
     (case (if up then tbl else None) of
        None \<Rightarrow> (tbl, Panic (ExpectFailed ''called Result::unwrap on an Err value''))
      | Some rows \<Rightarrow> (Some (rows @ [(api_key_name req, scopes req, ip_allowlist req)]), Panic TodoReached))"

section \<open>Properties\<close>

text \<open>A value written as a response and sent back with its content type is read back, when the codec decodes what it encodes; a value that does not
  encode comes back as a rejected request, since its content type is plain text.\<close>

lemma msgpack_roundtrip:
  assumes "\<And>x v. to_vec x = Ok v \<Longrightarrow> from_slice v = Some x"
    and "parse_mime ''application/msgpack'' = Some \<lparr>mime_type = ''application'', mime_subtype = ''msgpack'', mime_suffix = None\<rparr>"
    and "parse_mime ''text/plain; charset=utf-8'' = Some \<lparr>mime_type = ''text'', mime_subtype = ''plain'', mime_suffix = None\<rparr>"
  shows "msgpack_from_request parse_mime from_slice (echoed (msgpack_into_response to_vec (Msgpack x))) =
    Ret (case to_vec x of Ok _ \<Rightarrow> Ok (Msgpack x) | Err _ \<Rightarrow> Err (400, ''no msgpack content type''))"
  using assms
  by (cases "to_vec x")
    (simp_all add: msgpack_from_request_def msgpack_into_response_def msgpack_content_type_def echoed_def to_str_def less_eq_char_def)

text \<open>A malformed body is not rejected: it panics.\<close>

lemma msgpack_panics_iff:
  "returns (msgpack_from_request parse_mime from_slice req) \<longleftrightarrow>
     (msgpack_content_type parse_mime (raw_headers req) \<longrightarrow> Option.bind (raw_bytes req) from_slice \<noteq> None)"
  by (auto simp: msgpack_from_request_def split: option.splits)

text \<open>Creating an API key never answers, but where the table exists the row is stored, without the user it belongs to.\<close>

lemma api_key_create_never_answers:
  "\<not> returns (snd (api_key_create up tbl u req))"
  "api_key_create up tbl u req = api_key_create up tbl u' req"
  by (simp_all add: api_key_create_def split: option.splits if_splits)

end
