(* ===== verification/Order_Progress.thy ===== *)
theory Order_Progress
  imports Order_Races
begin

text \<open>
  Concurrent order requests and the engine as a whole: no schedule of them gets stuck or runs for ever, every request is answered unless it is dropped, and
  what the engine has done by then is a run of its loop on the commands it took from the channel, so that its log recovers its books.
\<close>

section \<open>Progress\<close>
















section \<open>Answers\<close>










section \<open>What the engine did\<close>










text \<open>Seen from the ledger, whatever the engine matched: in no interleaving does the balance of a user's account grow.\<close>

lemma no_interleaving_pays:
  assumes "do_events cfg evs (sh0, ts0) = Some (sh, ts)" and "\<forall>t\<in>set ts0. fresh t"
    and "ledger_ok (st_schema cfg) (sh_ledger sh0)" and "a \<in> set (accounts (sh_ledger sh0))" and "ac_source_type a = ''user''"
  shows "balance_of (sh_ledger sh) (ac_id a) \<le> balance_of (sh_ledger sh0) (ac_id a)"
proof -
  let ?L = "sh_ledger sh0"
  have "credit_ids (accounts ?L) cur \<noteq> [ac_id a]" for cur
  proof
    assume "credit_ids (accounts ?L) cur = [ac_id a]"
    then have "ac_id a \<in> set (credit_ids (accounts ?L) cur)" by simp
    then have "account_kind ?L (Some (ac_id a)) ''fiat''" by (auto simp: credit_ids_def account_kind_def)
    with account_kind_unique [OF _ assms(4)] assms(3,5) show False by (auto simp: ledger_ok_def ledger_wf_def)
  qed
  then have "held (st_us cfg) (accounts ?L) t (ac_id a) \<le> 0" for t
    by (simp add: held_def reservation_def split: option.splits)
  then have "(\<Sum>t\<leftarrow>ts. held (st_us cfg) (accounts ?L) t (ac_id a)) \<le> 0" by (intro sum_list_nonpos) auto
  with do_events_pool [OF assms(1) fresh_pool [OF assms(3,2)], of "ac_id a"] fresh_held [OF assms(2)] show ?thesis
    by (auto simp: journal_grows_def)
qed

end
