(* ===== verification/Spec2Isabelle.thy ===== *)
theory Spec2Isabelle
  imports Processes Bitcoind_Cli Unit_Tests Unrouted Order_Progress
begin

text \<open>
  A model of the spot exchange in \<open>src/exchange\<close>, with the theorems that make it correct. The exchange is one process: a
  web server takes requests from users, a trading engine task owns the order books, a PostgreSQL database holds
  users, sessions, addresses, the double-entry ledger and the log of trade commands, and a gRPC proxy stands before a bitcoin
  node. A request to place an order reserves funds in the ledger, sends a command to the engine over a channel and waits for its
  one-shot answer; the engine matches the order against the book, appends the command to the log and answers; the
  handler reverts the reservation when the order was not placed. After a restart the log is replayed into a fresh engine.

  \<^bold>\<open>How code is modelled.\<close> A computation that may panic is a \<open>run\<close> (\<open>Panic\<close> or \<open>Ret\<close>), a Rust \<open>Result\<close> is a \<open>result\<close>; both are
  explicit, so every \<open>unwrap\<close>, \<open>assert!\<close>, \<open>todo!\<close> and early return is a branch. Machine integers are words of their width; an arithmetic
  operation takes the flag \<open>oc\<close> of the build profile and panics or wraps. Stateful code passes its state: the book, the
  engine's state, the ledger, the tables. No definition uses fuel: every loop is structural or has a termination
  measure. What is not in the repository is a parameter: the random ids and the success of an insertion (\<open>world\<close>), the JSON encoding of commands
  (\<open>codec\<close>), which queries reach the server (\<open>faults\<close>, by position), password hashing (\<open>hasher\<close>), the text of an id (\<open>us\<close>), the HTTP
  transport and the decoders of the JSON-RPC client, the template engine and the parsers of addresses and TOML.

  \<^bold>\<open>The theories and the files they model.\<close>
  \<^item> \<open>Prelude\<close>: panics, results, checked arithmetic, \<open>NonZeroU32\<close>, vector operations, list lemmas, and the locales
    \<open>counted_system\<close> (an invariant up to a number of steps), \<open>total_system\<close> (commands that never panic), \<open>task_pool\<close> (tasks that take
    turns on a shared state, each accounting for what it holds) and \<open>terminating_system\<close> (a rank that every enabled event lowers). \<open>Slice_Search\<close>: the standard library's binary search, behind the locale \<open>ordered_search\<close>.
  \<^item> \<open>Orderbook\<close> (\<open>trading/orderbook.rs\<close>): price levels, insertion, removal, lookup and iteration. \<open>Book_Store\<close>: the locale
    \<open>order_store\<close> of what its clients rely on, interpreted on the book; insertion behind equals, exact removal, price-time iteration.
  \<^item> \<open>Pending_Fill\<close> (\<open>pending_fill.rs\<close>) and \<open>Try_Fill\<close> (\<open>try_fill_order.rs\<close>): the matching pass and its commit, related to taking a
    quantity from the front of a queue.
  \<^item> \<open>Asset\<close> (\<open>asset.rs\<close>), \<open>Trading\<close> (\<open>trading/mod.rs\<close>, \<open>timeinforce.rs\<close>, \<open>self_trade_protection.rs\<close>): \<open>do_place_order\<close> and \<open>do_cancel_order\<close>.
    \<open>Placement\<close>: an abstract order book on lists of price and quantity, the refinement of \<open>do_place_order\<close> to it, conservation of
    quantity, and the conditions of refusal.
  \<^item> \<open>Engine\<close> (\<open>spawn_trading_engine.rs\<close>, \<open>te_response.rs\<close>): the supervisor loop, its log and its answers; it never panics for fewer than
    2^32 commands, the bound under which no price level can exhaust its 32 bit sequence numbers. \<open>Replay\<close>: recovery from the log rebuilds the books.
  \<^item> \<open>Web_Base\<close>, \<open>Accounting\<close> (\<open>app_cx.rs\<close>, \<open>reserve_ok.rs\<close>, the migrations): balances, reservations, reverts and chain deposits on the
    ledger before and after the column \<open>txid\<close>; the locale \<open>journal_writes\<close> carries whatever the rows the operations write keep through every operation, up to the
    server, and is interpreted for the kinds of rows that are added; \<open>journal_invariant\<close>, a special case by \<open>sublocale\<close>, for what any insertion keeps: well-formedness,
    column types and growth of the journal. \<open>App_Cx\<close> (\<open>app_cx.rs\<close>, \<open>defer_guard.rs\<close>, \<open>trade_add_order.rs\<close>, \<open>trade_cancel_order.rs\<close>): order requests.
  \<^item> \<open>Users\<close> (\<open>app_cx.rs\<close>, \<open>auth.rs\<close> and the handlers of sessions, users and addresses), \<open>Pages\<close> (balance fragment, pages, client
    address), \<open>Router\<close> (\<open>web/mod.rs\<close>: routes and their middleware), \<open>Server\<close>: the service on the state of the whole exchange, what a request without a
    session can do, and the invariant of the whole system.
  \<^item> \<open>Order_Tasks\<close>: the order handler cut at its \<open>await\<close>s, so that any number of requests interleave over the ledger, the bounded channel and
    the engine, and may be dropped at any of them; the account of what each holds is an instance of \<open>task_pool\<close>. \<open>Order_Races\<close>: when requests settle
    exactly, what a timeout and a concurrent revert do, and that a request alone is the handler of \<open>App_Cx\<close>. \<open>Order_Progress\<close>: a rank of the
    pool, by which every schedule that keeps running ends with every request answered, and recovery from the log whatever the interleaving was.
  \<^item> \<open>Startup\<close> (\<open>config.rs\<close>, \<open>signal.rs\<close>, \<open>lib.rs\<close>): configuration, recovery, the four events and the graceful shutdown. \<open>Processes\<close>
    (\<open>bin/exchange.rs\<close>, \<open>bin/bitcoind-grpc.rs\<close>, \<open>bitcoin/client.rs\<close>): both programs up to their exit status.
  \<^item> \<open>Unit_Tests\<close>: the repository's unit tests, run on the model. \<open>Unrouted\<close> (\<open>msgpack.rs\<close>, \<open>create_api_key.rs\<close>): code that is not compiled in.
  \<^item> \<open>Json_Args\<close>, \<open>Bitcoin_Rpc\<close> (\<open>bitcoin/rpc.rs\<close>): JSON values, \<open>handle_defaults\<close> and every method of the client; \<open>Bitcoin_Grpc\<close>
    (\<open>bitcoin/mod.rs\<close>, \<open>client.rs\<close>): the proxy, its client and the way of a deposit from bitcoind to the journal; \<open>Bitcoind_Cli\<close>
    (\<open>bin/bitcoind-cli.rs\<close>).
  \<^item> This theory: the properties that span the web server, the ledger and the engine.

  \<^bold>\<open>What the theorems show.\<close> The books stay sorted, well formed and uncrossed; matching is by price and time within the limit; a placed order trades
  exactly what the specification says and quantities are conserved; the engine answers every trade once and its log recovers its state; recovery
  works after any interleaving of requests and every schedule answers all of them; a funded request goes through all parts; without a session nothing that belongs to somebody can change; every sequence of requests keeps the
  integrity of tables, ledger and books, and the types of the ledger's columns; concurrent requests account for every unit they move, and settle exactly
  when none is disturbed. Where the code does not do what it means to, the theorem states what it does: cancelling never finds an
  order, suspending is final, a failed log insertion or a timeout frees the funds of an order that rests, reservations fail on the
  final schema, concurrent reservations overdraw, a concurrent revert strands funds, unconfirmed deposits count, any session deletes any user, and no
  row of the ledger ever pays for a fill.

  \<^bold>\<open>Not modelled.\<close> Template reloading (\<open>jinja.rs\<close> but for its directory), tracing, request ids, path normalisation, compression and static files,
  which only configure libraries; \<open>Debug\<close> output and the form deserialiser of \<open>password.rs\<close>; \<open>build.rs\<close>; the payloads of the bitcoin client's errors, whose text is a
  parameter; the frontend. Interleaving is modelled for order requests, the only ones that move funds between several statements; \<open>Server\<close>
  serves one request after the other.
\<close>

section \<open>Requests against the engine\<close>





end
